(* ===== verification/Prelude.thy ===== *)
theory Prelude
  imports Main "HOL-Library.Sublist" "HOL-Library.Multiset" "HOL-Library.Monad_Syntax"
begin

text \<open>
  Shared ground of the development: the named collections the component theories fill, the
  model of Go's \<open>time.Time\<close> and \<open>time.Duration\<close>, of a call that may fail, and generic
  lemmas about lists and maps.  Nothing here models a line of the repository.
\<close>

named_theorems guard_simps \<open>rewrite rules that evaluate the guards of handlers\<close>
named_theorems keeps_inv \<open>each operation preserves its component's invariant\<close>

section \<open>Time\<close>

text \<open>
  An instant is a number of nanoseconds since Go's zero time (1 January, year 1), so that
  \<open>time.Time{}\<close> is \<open>0\<close>.  A duration is a number of nanoseconds.  \<open>Sub\<close> saturates at the
  bounds of a 64-bit duration, as \<open>time.Time.Sub\<close> does.
\<close>

type_synonym instant = int
type_synonym duration = int

definition second :: duration where
  "second = 1000000000"

definition minute :: duration where
  "minute = 60 * second"

definition hour :: duration where
  "hour = 60 * minute"

definition max_duration :: duration where
  "max_duration = 2 ^ 63 - 1"

definition min_duration :: duration where
  "min_duration = - (2 ^ 63)"

definition zero_time :: instant where
  "zero_time = 0"

definition time_sub :: "instant \<Rightarrow> instant \<Rightarrow> duration" where
  "time_sub t u = max min_duration (min max_duration (t - u))"

lemmas time_defs = second_def minute_def hour_def max_duration_def min_duration_def
  zero_time_def time_sub_def

lemma time_sub_gt:
  assumes "0 \<le> d" and "d < max_duration"
  shows "time_sub t u > d \<longleftrightarrow> t - u > d"
  using assms by (auto simp: time_sub_def max_duration_def min_duration_def)

lemma time_sub_self [simp]: "time_sub t t = 0"
  by (simp add: time_defs)

section \<open>64-bit signed integers\<close>

text \<open>Go's \<open>int\<close> is 64 bits wide on the supported platforms; \<open>wrap64\<close> is its wrap-around.\<close>

definition wrap64 :: "int \<Rightarrow> int" where
  "wrap64 n = (n + 2 ^ 63) mod 2 ^ 64 - 2 ^ 63"

lemma wrap64_id: "- (2 ^ 63) \<le> n \<Longrightarrow> n < 2 ^ 63 \<Longrightarrow> wrap64 n = n"
  by (simp add: wrap64_def)

lemma wrap64_bounds: "- (2 ^ 63) \<le> wrap64 n \<and> wrap64 n < 2 ^ 63"
  by (simp add: wrap64_def)

section \<open>Lists\<close>

lemma split_snoc_iff:
  "xs @ [x] = pre @ y # post \<longleftrightarrow>
    (pre = xs \<and> y = x \<and> post = []) \<or> (\<exists>post'. post = post' @ [x] \<and> xs = pre @ y # post')"
  by (cases post rule: rev_cases) auto

lemma all_splits_snoc:
  "(\<forall>pre y post. xs @ [x] = pre @ y # post \<longrightarrow> P pre y) \<longleftrightarrow>
    P xs x \<and> (\<forall>pre y post. xs = pre @ y # post \<longrightarrow> P pre y)"
  by (simp only: split_snoc_iff) blast

lemma filter_length_le_Suc: "length (filter P xs) \<le> length xs"
  by (rule length_filter_le)

lemma length_filter_weaken:
  "(\<And>x. P x \<Longrightarrow> Q x) \<Longrightarrow> length (filter P xs) \<le> length (filter Q xs)"
  by (induction xs) (auto intro: le_SucI)

lemma length_dropWhile_Suc [termination_simp]: "length (dropWhile P xs) < Suc (length xs)"
  by (simp add: length_dropWhile_le less_Suc_eq_le)

lemma find_Some_mem: "find P xs = Some x \<Longrightarrow> x \<in> set xs \<and> P x"
  by (auto simp: find_Some_iff)

lemma find_None_all: "find P xs = None \<longleftrightarrow> (\<forall>x\<in>set xs. \<not> P x)"
  by (auto simp: find_None_iff)

lemma subseq_sorted: "subseq xs ys \<Longrightarrow> sorted ys \<Longrightarrow> sorted (xs :: 'a :: linorder list)"
proof (induction rule: list_emb.induct)
  case (list_emb_Cons2 x y xs ys)
  then show ?case by (auto dest: list_emb_set)
qed auto

text \<open>Update of the first element that satisfies a test: Go's \<open>for i := range xs { if p { xs[i] = ..; break } }\<close>.\<close>

fun update_first :: "('a \<Rightarrow> bool) \<Rightarrow> ('a \<Rightarrow> 'a) \<Rightarrow> 'a list \<Rightarrow> 'a list" where
  "update_first p f [] = []"
| "update_first p f (x # xs) = (if p x then f x # xs else x # update_first p f xs)"

lemma length_update_first [simp]: "length (update_first p f xs) = length xs"
  by (induction xs) auto

lemma update_first_none: "(\<forall>x\<in>set xs. \<not> p x) \<Longrightarrow> update_first p f xs = xs"
  by (induction xs) auto

lemma map_update_first_same:
  "(\<And>x. p x \<Longrightarrow> g (f x) = g x) \<Longrightarrow> map g (update_first p f xs) = map g xs"
  by (induction xs) auto

lemma set_update_first_subset:
  "set (update_first p f xs) \<subseteq> set xs \<union> f ` {x \<in> set xs. p x}"
  by (induction xs) auto

lemma update_first_find:
  "find p xs = Some x \<Longrightarrow>
    \<exists>pre post. xs = pre @ x # post \<and> (\<forall>y\<in>set pre. \<not> p y) \<and> p x
      \<and> update_first p f xs = pre @ f x # post"
proof (induction xs)
  case Nil
  then show ?case by simp
next
  case (Cons a xs)
  show ?case
  proof (cases "p a")
    case True
    with Cons.prems show ?thesis by (intro exI [of _ "[]"] exI [of _ xs]) auto
  next
    case False
    with Cons obtain pre post where "xs = pre @ x # post" "\<forall>y\<in>set pre. \<not> p y" "p x"
      "update_first p f xs = pre @ f x # post" by auto
    with False show ?thesis by (intro exI [of _ "a # pre"] exI [of _ post]) auto
  qed
qed

end
