(* ===== verification/GoStrings.thy ===== *)
theory GoStrings
  imports Prelude
begin

text \<open>
  What the program uses of Go's \<open>strings\<close>, \<open>strconv\<close> and \<open>unicode\<close> packages.  A Go string is
  a sequence of bytes and so is \<^typ>\<open>string\<close> here: a \<^typ>\<open>char\<close> is one byte and a code point
  beyond ASCII is several of them, in UTF-8.

  \<open>TrimSpace\<close> removes every white-space rune of Unicode, each written as its UTF-8 bytes.
  \<open>ToLower\<close> maps the ASCII letters and the two non-ASCII letters whose lower case is an ASCII
  letter (U+0130 and U+212A); it leaves the other bytes alone.  The program only compares a
  lowered string with ASCII words or searches it for them, which this decides exactly.

  The last section holds the program's own helper \<open>firstNonEmpty\<close>
  (src/internal/web/server.go and src/internal/auth/token.go).
\<close>

section \<open>Prefixes, suffixes, searching\<close>

definition has_prefix :: "string \<Rightarrow> string \<Rightarrow> bool" where
  "has_prefix s p = (take (length p) s = p)"

definition has_suffix :: "string \<Rightarrow> string \<Rightarrow> bool" where
  "has_suffix s p = (length p \<le> length s \<and> drop (length s - length p) s = p)"

definition trim_prefix :: "string \<Rightarrow> string \<Rightarrow> string" where
  "trim_prefix s p = (if has_prefix s p then drop (length p) s else s)"

definition trim_suffix :: "string \<Rightarrow> string \<Rightarrow> string" where
  "trim_suffix s p = (if has_suffix s p then take (length s - length p) s else s)"

fun str_index :: "string \<Rightarrow> string \<Rightarrow> nat option" where
  "str_index [] p = (if p = [] then Some 0 else None)"
| "str_index (c # s) p =
     (if has_prefix (c # s) p then Some 0 else map_option Suc (str_index s p))"

fun str_last_index :: "string \<Rightarrow> string \<Rightarrow> nat option" where
  "str_last_index [] p = (if p = [] then Some 0 else None)"
| "str_last_index (c # s) p =
     (case str_last_index s p of
        Some i \<Rightarrow> Some (Suc i)
      | None \<Rightarrow> if has_prefix (c # s) p then Some 0 else None)"

definition str_contains :: "string \<Rightarrow> string \<Rightarrow> bool" where
  "str_contains s p = (str_index s p \<noteq> None)"

lemma has_prefix_iff: "has_prefix s p \<longleftrightarrow> (\<exists>t. s = p @ t)"
proof
  assume "has_prefix s p"
  then have "s = p @ drop (length p) s"
    by (metis append_take_drop_id has_prefix_def)
  then show "\<exists>t. s = p @ t" ..
qed (auto simp: has_prefix_def)

lemma has_suffix_iff: "has_suffix s p \<longleftrightarrow> (\<exists>t. s = t @ p)"
proof
  assume "has_suffix s p"
  then have "s = take (length s - length p) s @ p"
    by (metis append_take_drop_id has_suffix_def)
  then show "\<exists>t. s = t @ p" ..
qed (auto simp: has_suffix_def)

lemma has_prefix_Nil [simp]: "has_prefix s []"
  by (simp add: has_prefix_def)

lemma has_prefix_refl [simp]: "has_prefix s s"
  by (simp add: has_prefix_def)

lemma has_prefix_append [simp]: "has_prefix (p @ t) p"
  by (simp add: has_prefix_def)

lemma trim_prefix_append [simp]: "trim_prefix (p @ t) p = t"
  by (simp add: trim_prefix_def)

lemma has_prefix_length: "has_prefix s p \<Longrightarrow> length p \<le> length s"
  by (auto simp: has_prefix_iff)

lemma has_prefix_drop_nth:
  assumes "has_prefix (drop i s) p" and "k < length p"
  shows "s ! (i + k) = p ! k"
proof -
  obtain t where t: "drop i s = p @ t" using assms(1) by (auto simp: has_prefix_iff)
  then have "i \<le> length s" using assms(2) by (cases "i \<le> length s") auto
  then have "s ! (i + k) = drop i s ! k" by simp
  also have "\<dots> = p ! k" using assms(2) by (simp add: t nth_append)
  finally show ?thesis .
qed

lemma has_prefix_take: "has_prefix (take n s) p \<Longrightarrow> has_prefix s p"
  by (metis append_assoc append_take_drop_id has_prefix_iff)

text \<open>\<open>strings.Index\<close>: the least offset at which the pattern occurs.\<close>

lemma str_index_Some:
  "str_index s p = Some i \<Longrightarrow> i \<le> length s \<and> has_prefix (drop i s) p"
proof (induction s arbitrary: i)
  case Nil
  then show ?case by (auto split: if_splits)
next
  case (Cons c s)
  then show ?case by (cases i) (auto split: if_splits)
qed

lemma str_index_least: "str_index s p = Some i \<Longrightarrow> j < i \<Longrightarrow> \<not> has_prefix (drop j s) p"
proof (induction s arbitrary: i j)
  case Nil
  then show ?case by (auto split: if_splits)
next
  case (Cons c s)
  then show ?case by (cases j) (auto split: if_splits)
qed

lemma str_index_None: "str_index s p = None \<longleftrightarrow> (\<forall>j\<le>length s. \<not> has_prefix (drop j s) p)"
proof (induction s)
  case Nil
  then show ?case by (auto simp: has_prefix_def)
next
  case (Cons c s)
  have "(\<forall>j\<le>length (c # s). \<not> has_prefix (drop j (c # s)) p) \<longleftrightarrow>
      \<not> has_prefix (c # s) p \<and> (\<forall>j\<le>length s. \<not> has_prefix (drop j s) p)" (is "?L = ?R")
  proof
    assume L: ?L
    have "\<not> has_prefix (drop j s) p" if "j \<le> length s" for j
      using L [rule_format, of "Suc j"] that by simp
    moreover have "\<not> has_prefix (c # s) p"
      using L [rule_format, of 0] by simp
    ultimately show ?R by blast
  next
    assume R: ?R
    show ?L
    proof (intro allI impI)
      fix j
      assume "j \<le> length (c # s)"
      with R show "\<not> has_prefix (drop j (c # s)) p" by (cases j) auto
    qed
  qed
  with Cons.IH show ?case by simp
qed

lemma str_contains_iff: "str_contains s p \<longleftrightarrow> (\<exists>a b. s = a @ p @ b)"
proof
  assume "str_contains s p"
  then obtain i where "str_index s p = Some i" by (auto simp: str_contains_def)
  then have "has_prefix (drop i s) p" by (simp add: str_index_Some)
  then obtain t where "drop i s = p @ t" by (auto simp: has_prefix_iff)
  then have "s = take i s @ p @ t" by (metis append_take_drop_id)
  then show "\<exists>a b. s = a @ p @ b" by blast
next
  assume "\<exists>a b. s = a @ p @ b"
  then obtain a b where s: "s = a @ p @ b" by blast
  have "has_prefix (drop (length a) s) p" by (simp add: s)
  moreover have "length a \<le> length s" by (simp add: s)
  ultimately show "str_contains s p" unfolding str_contains_def using str_index_None by blast
qed

section \<open>White space\<close>

definition space_runes :: "string list" where
  "space_runes =
     [[CHR 0x09], [CHR 0x0A], [CHR 0x0B], [CHR 0x0C], [CHR 0x0D], [CHR 0x20],
      [CHR 0xC2, CHR 0x85], [CHR 0xC2, CHR 0xA0], [CHR 0xE1, CHR 0x9A, CHR 0x80]]
     @ map (\<lambda>b. [CHR 0xE2, CHR 0x80, b])
         [CHR 0x80, CHR 0x81, CHR 0x82, CHR 0x83, CHR 0x84, CHR 0x85, CHR 0x86, CHR 0x87,
          CHR 0x88, CHR 0x89, CHR 0x8A, CHR 0xA8, CHR 0xA9, CHR 0xAF]
     @ [[CHR 0xE2, CHR 0x81, CHR 0x9F], [CHR 0xE3, CHR 0x80, CHR 0x80]]"

text \<open>The length of the white-space rune a string begins or ends with, 0 if there is none.\<close>

definition space_front :: "string \<Rightarrow> nat" where
  "space_front s = (case find (has_prefix s) space_runes of None \<Rightarrow> 0 | Some r \<Rightarrow> length r)"

definition space_back :: "string \<Rightarrow> nat" where
  "space_back s = (case find (has_suffix s) space_runes of None \<Rightarrow> 0 | Some r \<Rightarrow> length r)"

lemma space_front_le: "space_front s \<le> length s"
  by (auto simp: space_front_def split: option.splits dest!: find_Some_mem has_prefix_length)

lemma space_back_le: "space_back s \<le> length s"
  by (auto simp: space_back_def has_suffix_def split: option.splits dest!: find_Some_mem)

function trim_left :: "string \<Rightarrow> string" where
  "trim_left s = (if space_front s = 0 then s else trim_left (drop (space_front s) s))"
  by pat_completeness auto
termination
proof (relation "measure length")
  fix s :: string
  assume "space_front s \<noteq> 0"
  with space_front_le [of s] show "(drop (space_front s) s, s) \<in> measure length"
    by simp
qed simp

function trim_right :: "string \<Rightarrow> string" where
  "trim_right s =
     (if space_back s = 0 then s else trim_right (take (length s - space_back s) s))"
  by pat_completeness auto
termination
proof (relation "measure length")
  fix s :: string
  assume "space_back s \<noteq> 0"
  with space_back_le [of s] show "(take (length s - space_back s) s, s) \<in> measure length"
    by simp
qed simp

declare trim_left.simps [simp del] trim_right.simps [simp del]

definition trim_space :: "string \<Rightarrow> string" where
  "trim_space s = trim_right (trim_left s)"

lemma space_front_zero:
  "space_front s = 0 \<longleftrightarrow> (\<forall>r\<in>set space_runes. \<not> has_prefix s r)"
proof -
  have "r \<noteq> []" if "r \<in> set space_runes" for r
    using that by (auto simp: space_runes_def)
  then show ?thesis
    by (auto simp: space_front_def find_None_all split: option.splits dest!: find_Some_mem)
qed

lemma space_front_take: "space_front s = 0 \<Longrightarrow> space_front (take n s) = 0"
  by (auto simp: space_front_zero dest: has_prefix_take)

lemma space_front_trim_left [simp]: "space_front (trim_left s) = 0"
proof (induction s rule: trim_left.induct)
  case (1 s)
  then show ?case by (cases "space_front s = 0") (simp_all add: trim_left.simps [of s])
qed

lemma space_back_trim_right [simp]: "space_back (trim_right s) = 0"
proof (induction s rule: trim_right.induct)
  case (1 s)
  then show ?case by (cases "space_back s = 0") (simp_all add: trim_right.simps [of s])
qed

lemma trim_right_take: "\<exists>n. trim_right s = take n s"
proof (induction s rule: trim_right.induct)
  case (1 s)
  show ?case
  proof (cases "space_back s = 0")
    case True
    then show ?thesis by (intro exI [of _ "length s"]) (simp add: trim_right.simps [of s])
  next
    case False
    with 1 obtain n where "trim_right (take (length s - space_back s) s)
        = take n (take (length s - space_back s) s)" by auto
    with False show ?thesis
      by (intro exI [of _ "min n (length s - space_back s)"]) (simp add: trim_right.simps [of s])
  qed
qed

lemma trim_left_id: "space_front s = 0 \<Longrightarrow> trim_left s = s"
  by (simp add: trim_left.simps)

lemma trim_right_id: "space_back s = 0 \<Longrightarrow> trim_right s = s"
  by (simp add: trim_right.simps)

lemma trim_space_id: "space_front s = 0 \<Longrightarrow> space_back s = 0 \<Longrightarrow> trim_space s = s"
  by (simp add: trim_space_def trim_left_id trim_right_id)

lemma trim_space_ends: "space_front (trim_space s) = 0 \<and> space_back (trim_space s) = 0"
  using trim_right_take [of "trim_left s"] by (auto simp: trim_space_def space_front_take)

lemma trim_space_idem [simp]: "trim_space (trim_space s) = trim_space s"
  using trim_space_ends [of s] by (simp add: trim_space_id)

lemma length_trim_left: "length (trim_left s) \<le> length s"
proof (induction s rule: trim_left.induct)
  case (1 s)
  then show ?case by (cases "space_front s = 0") (auto simp: trim_left.simps [of s])
qed

lemma length_trim_space: "length (trim_space s) \<le> length s"
proof -
  obtain n where "trim_right (trim_left s) = take n (trim_left s)"
    using trim_right_take by blast
  then have "length (trim_space s) \<le> length (trim_left s)"
    by (simp add: trim_space_def)
  also have "\<dots> \<le> length s" by (rule length_trim_left)
  finally show ?thesis .
qed

lemma trim_space_Nil [simp]: "trim_space [] = []"
  using length_trim_space [of "[]"] by simp

lemma space_back_zero:
  "space_back s = 0 \<longleftrightarrow> (\<forall>r\<in>set space_runes. \<not> has_suffix s r)"
proof -
  have "r \<noteq> []" if "r \<in> set space_runes" for r
    using that by (auto simp: space_runes_def)
  then show ?thesis
    by (auto simp: space_back_def find_None_all split: option.splits dest!: find_Some_mem)
qed

text \<open>A string that begins and ends with visible ASCII characters is not trimmed.\<close>

definition visible :: "char \<Rightarrow> bool" where
  "visible c = (33 \<le> (of_char c :: nat) \<and> (of_char c :: nat) \<le> 126)"

lemma space_runes_invisible: "list_all (\<lambda>r. r \<noteq> [] \<and> \<not> visible (hd r) \<and> \<not> visible (last r)) space_runes"
  by code_simp

lemma trim_space_visible:
  assumes "s \<noteq> []" and "visible (hd s)" and "visible (last s)"
  shows "trim_space s = s"
proof (rule trim_space_id)
  show "space_front s = 0"
    unfolding space_front_zero
  proof
    fix r assume "r \<in> set space_runes"
    then have "r \<noteq> []" "\<not> visible (hd r)" using space_runes_invisible by (auto simp: list_all_iff)
    with assms(2) show "\<not> has_prefix s r" by (auto simp: has_prefix_iff)
  qed
  show "space_back s = 0"
    unfolding space_back_zero
  proof
    fix r assume "r \<in> set space_runes"
    then have "r \<noteq> []" "\<not> visible (last r)" using space_runes_invisible by (auto simp: list_all_iff)
    with assms(3) show "\<not> has_suffix s r" by (auto simp: has_suffix_iff)
  qed
qed

lemma trim_right_visible: "s \<noteq> [] \<Longrightarrow> visible (hd s) \<Longrightarrow> trim_right s \<noteq> []"
proof (induction s rule: trim_right.induct)
  case (1 s)
  show ?case
  proof (cases "space_back s = 0")
    case True
    with 1 show ?thesis by (simp add: trim_right.simps [of s])
  next
    case False
    then obtain r where r: "r \<in> set space_runes" "has_suffix s r" "space_back s = length r"
      by (auto simp: space_back_def split: option.splits dest!: find_Some_mem)
    have "length r \<noteq> length s"
    proof
      assume "length r = length s"
      with r(2) have "r = s" by (simp add: has_suffix_def)
      with r(1) 1(3) show False using space_runes_invisible by (auto simp: list_all_iff)
    qed
    moreover have "length r \<le> length s" using r(2) by (simp add: has_suffix_def)
    ultimately have "take (length s - space_back s) s \<noteq> []" "hd (take (length s - space_back s) s) = hd s"
      using r(3) 1(2) by auto
    with 1(1) [OF False] 1(3) False show ?thesis by (simp add: trim_right.simps [of s])
  qed
qed

lemma trim_space_nonempty: "s \<noteq> [] \<Longrightarrow> visible (hd s) \<Longrightarrow> trim_space s \<noteq> []"
proof -
  assume s: "s \<noteq> []" "visible (hd s)"
  have "space_front s = 0"
    unfolding space_front_zero
  proof
    fix r assume "r \<in> set space_runes"
    then have "r \<noteq> []" "\<not> visible (hd r)" using space_runes_invisible by (auto simp: list_all_iff)
    with s show "\<not> has_prefix s r" by (auto simp: has_prefix_iff)
  qed
  then have "trim_left s = s" by (rule trim_left_id)
  with s trim_right_visible show ?thesis by (simp add: trim_space_def)
qed


text \<open>A line feed at the end is white space, and no other white-space rune ends with that byte.\<close>

lemma has_prefix_snoc: "has_prefix (s @ [c]) p \<longleftrightarrow> has_prefix s p \<or> p = s @ [c]"
proof (cases "length p \<le> length s")
  case True
  then show ?thesis by (auto simp: has_prefix_def)
next
  case False
  then have "\<not> has_prefix s p" by (auto dest: has_prefix_length)
  with False show ?thesis by (auto simp: has_prefix_def)
qed

lemma rune_newline: "r \<in> set space_runes \<Longrightarrow> r = s @ [CHR 0x0A] \<Longrightarrow> s = []"
  by (auto simp: space_runes_def Cons_eq_append_conv)

lemma space_front_newline:
  assumes "s \<noteq> []"
  shows "space_front (s @ [CHR 0x0A]) = space_front s"
proof -
  have "find (has_prefix (s @ [CHR 0x0A])) space_runes = find (has_prefix s) space_runes"
    using rune_newline assms by (intro find_cong) (auto simp: has_prefix_snoc)
  then show ?thesis by (simp add: space_front_def)
qed

lemma space_front_only_newline: "space_front [CHR 0x0A] = 1"
  by code_simp

lemma trim_left_newline:
  "trim_left (s @ [CHR 0x0A]) = (if trim_left s = [] then [] else trim_left s @ [CHR 0x0A])"
proof (induction s rule: trim_left.induct)
  case (1 s)
  have empty: "trim_left [] = []" using length_trim_left [of "[]"] by simp
  show ?case
  proof (cases "s = []")
    case True
    have "trim_left [CHR 0x0A] = []"
      by (subst trim_left.simps) (simp add: space_front_only_newline empty)
    with True show ?thesis by (simp add: empty)
  next
    case ne: False
    show ?thesis
    proof (cases "space_front s = 0")
      case True
      with ne show ?thesis by (simp add: trim_left_id space_front_newline)
    next
      case False
      have "trim_left (s @ [CHR 0x0A]) = trim_left (drop (space_front s) s @ [CHR 0x0A])"
        using False ne space_front_le [of s]
        by (subst trim_left.simps) (simp add: space_front_newline)
      with 1 [OF False] False show ?thesis by (simp add: trim_left.simps [of s])
    qed
  qed
qed

lemma space_back_newline: "space_back (s @ [CHR 0x0A]) = 1"
  by (simp add: space_back_def space_runes_def has_suffix_def)

lemma trim_right_newline: "trim_right (s @ [CHR 0x0A]) = trim_right s"
  by (subst trim_right.simps) (simp add: space_back_newline)

lemma trim_space_newline [simp]: "trim_space (s @ [CHR 0x0A]) = trim_space s"
proof -
  have "trim_right [] = []" using trim_right_take [of "[]"] by simp
  then show ?thesis by (simp add: trim_space_def trim_left_newline trim_right_newline)
qed

section \<open>Case\<close>

definition lower_char :: "char \<Rightarrow> char" where
  "lower_char c = (if 65 \<le> (of_char c :: nat) \<and> (of_char c :: nat) \<le> 90
     then char_of ((of_char c :: nat) + 32) else c)"

definition kelvin_sign :: string where
  "kelvin_sign = [CHR 0xE2, CHR 0x84, CHR 0xAA]"

definition dotted_capital_i :: string where
  "dotted_capital_i = [CHR 0xC4, CHR 0xB0]"

definition long_s :: string where
  "long_s = [CHR 0xC5, CHR 0xBF]"

fun to_lower :: "string \<Rightarrow> string" where
  "to_lower [] = []"
| "to_lower (c # s) =
     (if has_prefix (c # s) kelvin_sign then CHR ''k'' # to_lower (drop 2 s)
      else if has_prefix (c # s) dotted_capital_i then CHR ''i'' # to_lower (drop 1 s)
      else lower_char c # to_lower s)"

text \<open>\<open>strings.EqualFold\<close> folds the Kelvin sign with k and the long s with s.\<close>

fun fold_case :: "string \<Rightarrow> string" where
  "fold_case [] = []"
| "fold_case (c # s) =
     (if has_prefix (c # s) kelvin_sign then CHR ''k'' # fold_case (drop 2 s)
      else if has_prefix (c # s) long_s then CHR ''s'' # fold_case (drop 1 s)
      else lower_char c # fold_case s)"

definition equal_fold :: "string \<Rightarrow> string \<Rightarrow> bool" where
  "equal_fold s t = (fold_case s = fold_case t)"

definition ascii :: "string \<Rightarrow> bool" where
  "ascii s = list_all (\<lambda>c. (of_char c :: nat) < 128) s"

lemma ascii_Nil [simp]: "ascii []"
  by (simp add: ascii_def)

lemma ascii_Cons [simp]: "ascii (c # s) \<longleftrightarrow> (of_char c :: nat) < 128 \<and> ascii s"
  by (simp add: ascii_def)

lemma ascii_not_special:
  "(of_char c :: nat) < 128 \<Longrightarrow> \<not> has_prefix (c # s) kelvin_sign
    \<and> \<not> has_prefix (c # s) dotted_capital_i \<and> \<not> has_prefix (c # s) long_s"
  by (auto simp: has_prefix_def kelvin_sign_def dotted_capital_i_def long_s_def)

lemma to_lower_ascii: "ascii s \<Longrightarrow> to_lower s = map lower_char s"
  by (induction s) (simp_all add: ascii_not_special)

lemma fold_case_ascii: "ascii s \<Longrightarrow> fold_case s = map lower_char s"
  by (induction s) (simp_all add: ascii_not_special)

lemma equal_fold_refl [simp]: "equal_fold s s"
  by (simp add: equal_fold_def)

lemma equal_fold_sym: "equal_fold s t \<longleftrightarrow> equal_fold t s"
  by (auto simp: equal_fold_def)

lemma equal_fold_trans: "equal_fold s t \<Longrightarrow> equal_fold t u \<Longrightarrow> equal_fold s u"
  by (simp add: equal_fold_def)

section \<open>Joining and splitting\<close>

fun str_join :: "string \<Rightarrow> string list \<Rightarrow> string" where
  "str_join sep [] = []"
| "str_join sep [s] = s"
| "str_join sep (s # t # ss) = s @ sep @ str_join sep (t # ss)"

text \<open>\<open>strings.FieldsFunc\<close>: the maximal nonempty runs of bytes that are not separators.\<close>

fun fields_from :: "(char \<Rightarrow> bool) \<Rightarrow> string \<Rightarrow> string \<Rightarrow> string list" where
  "fields_from sep acc [] = (if acc = [] then [] else [rev acc])"
| "fields_from sep acc (c # s) =
     (if sep c then (if acc = [] then fields_from sep [] s else rev acc # fields_from sep [] s)
      else fields_from sep (c # acc) s)"

definition fields_func :: "(char \<Rightarrow> bool) \<Rightarrow> string \<Rightarrow> string list" where
  "fields_func sep s = fields_from sep [] s"

text \<open>\<open>strings.Split\<close> at a one-byte separator: always at least one part.\<close>

fun split_from :: "char \<Rightarrow> string \<Rightarrow> string \<Rightarrow> string list" where
  "split_from d acc [] = [rev acc]"
| "split_from d acc (c # s) =
     (if c = d then rev acc # split_from d [] s else split_from d (c # acc) s)"

definition str_split :: "char \<Rightarrow> string \<Rightarrow> string list" where
  "str_split d s = split_from d [] s"

lemma fields_from_props:
  "list_all (\<lambda>c. \<not> sep c) acc \<Longrightarrow>
    list_all (\<lambda>f. f \<noteq> [] \<and> list_all (\<lambda>c. \<not> sep c) f) (fields_from sep acc s)"
proof (induction sep acc s rule: fields_from.induct)
  case (1 sep acc)
  then show ?case by simp
next
  case (2 sep acc c s)
  then show ?case by (cases "sep c"; cases "acc = []") simp_all
qed

lemma fields_func_props:
  "f \<in> set (fields_func sep s) \<Longrightarrow> f \<noteq> [] \<and> list_all (\<lambda>c. \<not> sep c) f"
  using fields_from_props [of sep "[]" s] by (simp add: fields_func_def list_all_iff)

lemma fields_from_word:
  "list_all (\<lambda>c. \<not> sep c) t \<Longrightarrow> fields_from sep acc (t @ s) = fields_from sep (rev t @ acc) s"
  by (induction t arbitrary: acc) simp_all

text \<open>Joining clean fields with a separator and splitting them again.\<close>

lemma fields_func_join:
  assumes "\<forall>f\<in>set fs. f \<noteq> [] \<and> list_all (\<lambda>c. \<not> sep c) f" and "sep d"
  shows "fields_func sep (str_join [d] fs) = fs"
  using assms
proof (induction "[d]" fs rule: str_join.induct)
  case (2 f)
  then show ?case using fields_from_word [of sep f "[]" "[]"] by (simp add: fields_func_def)
next
  case (3 f g fs)
  then show ?case
    using fields_from_word [of sep f "[]" "d # str_join [d] (g # fs)"]
    by (simp add: fields_func_def)
qed (simp add: fields_func_def)

lemma str_join_ends:
  assumes "fs \<noteq> []" and "\<forall>f\<in>set fs. f \<noteq> []"
  shows "str_join d fs \<noteq> [] \<and> hd (str_join d fs) = hd (hd fs) \<and> last (str_join d fs) = last (last fs)"
  using assms by (induction d fs rule: str_join.induct) auto

lemma split_from_not_Nil: "split_from d acc s \<noteq> []"
  by (induction d acc s rule: split_from.induct) auto

lemma str_split_not_Nil [simp]: "str_split d s \<noteq> []"
  by (simp add: str_split_def split_from_not_Nil)

lemma split_from_app:
  "d \<notin> set t \<Longrightarrow> split_from d acc (s @ d # t) = split_from d acc s @ [t]"
proof (induction d acc s rule: split_from.induct)
  case (1 d acc)
  have "split_from d u t = [rev u @ t]" for u using 1 by (induction t arbitrary: u) auto
  then show ?case by simp
qed auto

lemma str_split_app: "d \<notin> set t \<Longrightarrow> str_split d (s @ d # t) = str_split d s @ [t]"
  by (simp add: str_split_def split_from_app)

text \<open>\<open>strings.TrimRight\<close> with a one-byte cutset.\<close>

definition trim_right_char :: "char \<Rightarrow> string \<Rightarrow> string" where
  "trim_right_char c s = rev (dropWhile (\<lambda>x. x = c) (rev s))"

lemma trim_right_char_idem [simp]:
  "trim_right_char c (trim_right_char c s) = trim_right_char c s"
  by (simp add: trim_right_char_def dropWhile_idem)

section \<open>Code points\<close>

text \<open>The UTF-8 bytes of a list of code points, for the program's literals beyond ASCII.\<close>

definition utf8_rune :: "nat \<Rightarrow> string" where
  "utf8_rune n =
     (if n < 128 then [char_of n]
      else if n < 2048 then [char_of (192 + n div 64), char_of (128 + n mod 64)]
      else if n < 65536 then
        [char_of (224 + n div 4096), char_of (128 + n div 64 mod 64), char_of (128 + n mod 64)]
      else [char_of (240 + n div 262144), char_of (128 + n div 4096 mod 64),
        char_of (128 + n div 64 mod 64), char_of (128 + n mod 64)])"

definition utf8 :: "nat list \<Rightarrow> string" where
  "utf8 ns = concat (map utf8_rune ns)"

definition line_feed :: string where
  "line_feed = [CHR 0x0A]"

section \<open>Decimal numbers\<close>

definition is_digit :: "char \<Rightarrow> bool" where
  "is_digit c = (48 \<le> (of_char c :: nat) \<and> (of_char c :: nat) \<le> 57)"

definition digit_value :: "char \<Rightarrow> int" where
  "digit_value c = int (of_char c) - 48"

definition decimal_value :: "string \<Rightarrow> int" where
  "decimal_value s = foldl (\<lambda>n c. 10 * n + digit_value c) 0 s"

text \<open>\<open>strconv.Atoi\<close>: an optional sign, then decimal digits, within 64 bits; \<open>None\<close> is its error.\<close>

definition atoi :: "string \<Rightarrow> int option" where
  "atoi s =
     (let neg = has_prefix s ''-'';
          ds = (if neg \<or> has_prefix s ''+'' then drop 1 s else s);
          n = (if neg then - decimal_value ds else decimal_value ds)
      in if ds = [] \<or> \<not> list_all is_digit ds then None
         else if n < - (2 ^ 63) \<or> 2 ^ 63 \<le> n then None else Some n)"

function itoa_nat :: "nat \<Rightarrow> string" where
  "itoa_nat n = (if n < 10 then [char_of (48 + n)]
     else itoa_nat (n div 10) @ [char_of (48 + n mod 10)])"
  by pat_completeness auto
termination
  by (relation "measure id") auto

declare itoa_nat.simps [simp del]

definition itoa :: "int \<Rightarrow> string" where
  "itoa n = (if n < 0 then CHR ''-'' # itoa_nat (nat (- n)) else itoa_nat (nat n))"

lemma atoi_bounds: "atoi s = Some n \<Longrightarrow> - (2 ^ 63) \<le> n \<and> n < 2 ^ 63"
  by (auto simp: atoi_def Let_def split: if_splits)

lemma length_itoa_nat: "n < 10 ^ k \<Longrightarrow> 0 < k \<Longrightarrow> length (itoa_nat n) \<le> k"
proof (induction n arbitrary: k rule: itoa_nat.induct)
  case (1 n)
  show ?case
  proof (cases "n < 10")
    case True
    with "1.prems" show ?thesis by (simp add: itoa_nat.simps [of n])
  next
    case False
    then obtain k' where k: "k = Suc k'" and "0 < k'"
      using "1.prems" by (cases k; cases "k - 1") auto
    moreover have "n div 10 < 10 ^ k'"
      using "1.prems" k by (simp add: less_mult_imp_div_less mult.commute)
    ultimately have "length (itoa_nat (n div 10)) \<le> k'"
      using "1.IH" False by blast
    with False k show ?thesis by (simp add: itoa_nat.simps [of n])
  qed
qed

lemma itoa_nat_not_Nil [simp]: "itoa_nat n \<noteq> []"
  by (subst itoa_nat.simps) simp

section \<open>The program's \<open>firstNonEmpty\<close>\<close>

fun firstNonEmpty :: "string list \<Rightarrow> string" where
  "firstNonEmpty [] = []"
| "firstNonEmpty (v # vs) = (if trim_space v \<noteq> [] then v else firstNonEmpty vs)"

lemma firstNonEmpty_find:
  "firstNonEmpty vs = (case find (\<lambda>v. trim_space v \<noteq> []) vs of None \<Rightarrow> [] | Some v \<Rightarrow> v)"
  by (induction vs) auto

lemma firstNonEmpty_Nil_iff: "firstNonEmpty vs = [] \<longleftrightarrow> (\<forall>v\<in>set vs. trim_space v = [])"
  by (induction vs) auto

lemma firstNonEmpty_mem: "firstNonEmpty vs \<noteq> [] \<Longrightarrow> firstNonEmpty vs \<in> set vs"
  by (induction vs) auto

end
