(* ===== verification/GoJson.thy ===== *)
theory GoJson
  imports GoStrings Complex_Main
begin

text \<open>
  Decoded JSON as Go's \<open>encoding/json\<close> presents it in an \<open>any\<close>: the dynamic types \<open>nil\<close>,
  \<open>bool\<close>, \<open>float64\<close>, \<open>string\<close>, \<open>[]any\<close> and \<open>map[string]any\<close>, with the comma-ok type
  assertions the program makes on them.  A map is the association list of its entries in the
  order Go's \<open>range\<close> happens to visit them (which Go leaves open), so a theorem about every
  association list covers every iteration order; \<open>distinct_keys\<close> says that it is a map.

  A \<open>float64\<close> obtained from JSON is finite: either negative zero or a rational number.

  The text codecs (\<open>json.Marshal\<close>, \<open>json.Unmarshal\<close>), the \<open>%v\<close> form of composite values and
  the digest SHA-256 are the fields of a record \<open>golib\<close> that the definitions using them take as
  an argument; every theorem holds for all of them unless it names a law.

  The last section holds the message types of src/internal/web/server.go and
  src/internal/chathub (\<open>oaiMsg\<close>, \<open>Tool\<close>, \<open>Attachment\<close>).
\<close>

section \<open>Values\<close>

datatype gofloat = NegZero | Finite rat

datatype json =
    JNull
  | JBool bool
  | JNum gofloat
  | JStr string
  | JArr "json list"
  | JObj "(string \<times> json) list"

type_synonym obj = "(string \<times> json) list"

text \<open>\<open>math.Trunc(n) == n\<close>\<close>

fun float_integral :: "gofloat \<Rightarrow> bool" where
  "float_integral NegZero = True"
| "float_integral (Finite r) = (snd (quotient_of r) = 1)"

text \<open>\<open>v, ok := m[k]\<close> and \<open>m[k]\<close>, which is \<open>nil\<close> for a key that is not there.\<close>

definition lookup :: "obj \<Rightarrow> string \<Rightarrow> json option" where
  "lookup m k = map_of m k"

definition get :: "obj \<Rightarrow> string \<Rightarrow> json" where
  "get m k = (case lookup m k of None \<Rightarrow> JNull | Some v \<Rightarrow> v)"

text \<open>The comma-ok assertions: \<open>is_str\<close> and its kin are \<open>v.(string)\<close> with the flag, \<open>as_str\<close> and
  its kin the value alone, which is the zero value where the assertion fails.\<close>

fun is_str :: "json \<Rightarrow> string option" where
  "is_str (JStr s) = Some s"
| "is_str _ = None"

fun is_arr :: "json \<Rightarrow> json list option" where
  "is_arr (JArr xs) = Some xs"
| "is_arr _ = None"

fun is_obj :: "json \<Rightarrow> obj option" where
  "is_obj (JObj m) = Some m"
| "is_obj _ = None"

fun is_bool :: "json \<Rightarrow> bool option" where
  "is_bool (JBool b) = Some b"
| "is_bool _ = None"

fun is_num :: "json \<Rightarrow> gofloat option" where
  "is_num (JNum n) = Some n"
| "is_num _ = None"

definition as_str :: "json \<Rightarrow> string" where
  "as_str v = (case is_str v of None \<Rightarrow> [] | Some s \<Rightarrow> s)"

definition as_arr :: "json \<Rightarrow> json list" where
  "as_arr v = (case is_arr v of None \<Rightarrow> [] | Some xs \<Rightarrow> xs)"

definition as_obj :: "json \<Rightarrow> obj" where
  "as_obj v = (case is_obj v of None \<Rightarrow> [] | Some m \<Rightarrow> m)"

definition as_bool :: "json \<Rightarrow> bool" where
  "as_bool v = (case is_bool v of None \<Rightarrow> False | Some b \<Rightarrow> b)"

lemma as_simps [simp]:
  "as_str (JStr s) = s" "as_str JNull = []" "as_str (JObj m) = []" "as_str (JArr xs) = []"
  "as_arr (JArr xs) = xs" "as_arr JNull = []" "as_arr (JObj m) = []" "as_arr (JStr s) = []"
  "as_obj (JObj m) = m" "as_obj JNull = []" "as_obj (JArr xs) = []" "as_obj (JStr s) = []"
  "as_bool (JBool b) = b" "as_bool JNull = False"
  by (simp_all add: as_str_def as_arr_def as_obj_def as_bool_def)

lemma is_str_Some [simp]: "is_str v = Some s \<longleftrightarrow> v = JStr s"
  by (cases v) auto

lemma is_arr_Some [simp]: "is_arr v = Some xs \<longleftrightarrow> v = JArr xs"
  by (cases v) auto

lemma is_obj_Some [simp]: "is_obj v = Some m \<longleftrightarrow> v = JObj m"
  by (cases v) auto

lemma is_bool_Some [simp]: "is_bool v = Some b \<longleftrightarrow> v = JBool b"
  by (cases v) auto

lemma is_num_Some [simp]: "is_num v = Some n \<longleftrightarrow> v = JNum n"
  by (cases v) auto

lemma lookup_Nil [simp]: "lookup [] k = None"
  by (simp add: lookup_def)

lemma lookup_Cons [simp]: "lookup ((k', v) # m) k = (if k = k' then Some v else lookup m k)"
  by (simp add: lookup_def)

lemma get_Nil [simp]: "get [] k = JNull"
  by (simp add: get_def)

lemma get_Cons [simp]: "get ((k', v) # m) k = (if k = k' then v else get m k)"
  by (simp add: get_def)

lemma lookup_mem: "lookup m k = Some v \<Longrightarrow> (k, v) \<in> set m"
  by (simp add: lookup_def map_of_SomeD)

definition distinct_keys :: "obj \<Rightarrow> bool" where
  "distinct_keys m = distinct (map fst m)"

text \<open>Reordering the entries of a map changes no lookup.\<close>

lemma lookup_perm:
  assumes "distinct_keys m" and "mset m = mset m'"
  shows "lookup m' k = lookup m k"
proof -
  have "set m = set m'" using assms(2) by (metis set_mset_mset)
  moreover have "distinct (map fst m')"
    using assms by (metis distinct_keys_def mset_eq_imp_distinct_iff mset_map)
  ultimately show ?thesis
    using assms(1) by (metis distinct_keys_def lookup_def map_of_eqI map_of_eq_Some_iff
        option.exhaust set_map)
qed

section \<open>The library parameters\<close>

record golib =
  marshal :: "json \<Rightarrow> string"
  unmarshal :: "string \<Rightarrow> json option"
  sprint_composite :: "json \<Rightarrow> string"
  sha256_hex :: "string \<Rightarrow> string"

text \<open>\<open>fmt.Sprint\<close> of an \<open>any\<close>; only numbers, lists and maps go to the parameter.\<close>

definition go_sprint :: "golib \<Rightarrow> json \<Rightarrow> string" where
  "go_sprint L v = (case v of
      JStr s \<Rightarrow> s
    | JNull \<Rightarrow> ''<nil>''
    | JBool b \<Rightarrow> (if b then ''true'' else ''false'')
    | _ \<Rightarrow> sprint_composite L v)"

lemma go_sprint_simps [simp]:
  "go_sprint L (JStr s) = s"
  "go_sprint L JNull = ''<nil>''"
  by (simp_all add: go_sprint_def)

section \<open>Messages, tools, attachments\<close>

record oaiMsg =
  Role :: string
  Content :: json
  Name :: string
  ToolCallID :: string
  ToolCalls :: "obj list"

record chathub_tool =
  tool_Type :: string
  tool_Function :: string

record attachment =
  att_Type :: string
  att_URL :: string
  att_Name :: string
  att_MimeType :: string
  att_Detail :: string
  att_DocID :: string
  att_FileType :: string

text \<open>\<open>chathub.Attachment\{\}\<close>\<close>

definition zero_attachment :: attachment where
  "zero_attachment = \<lparr>att_Type = [], att_URL = [], att_Name = [], att_MimeType = [],
     att_Detail = [], att_DocID = [], att_FileType = []\<rparr>"

end
