(* ===== verification/ToolState.thy ===== *)
theory ToolState
  imports GoJson
begin

text \<open>
  The tool-call protocol of a conversation: \<open>validateToolConversation\<close>
  (src/internal/web/tool_state.go) and \<open>validateToolResult\<close> (src/internal/web/toolloop.go).
  The validator walks the messages with two sets, the calls that wait for a result and the calls
  that have one.  The specification \<open>balanced\<close> speaks of the conversation alone: which call ids
  it issues, which it answers, and in what order.
\<close>

section \<open>The validator\<close>

datatype tool_error =
    MissingBeforeAssistant nat
  | CallMissingID nat
  | DuplicateCallID string
  | ToolCallIDRequired nat
  | UnexpectedResult string
  | MissingResults "string set"

text \<open>The code reports one element of the set in \<open>MissingResults\<close>, whichever \<open>range\<close> visits first.\<close>

definition call_id :: "obj \<Rightarrow> string" where
  "call_id call = as_str (get call ''id'')"

fun add_calls :: "nat \<Rightarrow> string set \<Rightarrow> string set \<Rightarrow> obj list \<Rightarrow> tool_error + string set" where
  "add_calls i pending completed [] = Inr pending"
| "add_calls i pending completed (call # calls) =
     (if call_id call = [] then Inl (CallMissingID i)
      else if call_id call \<in> pending \<or> call_id call \<in> completed
        then Inl (DuplicateCallID (call_id call))
      else add_calls i (insert (call_id call) pending) completed calls)"

definition message_step ::
    "nat \<Rightarrow> string set \<Rightarrow> string set \<Rightarrow> oaiMsg \<Rightarrow> tool_error + (string set \<times> string set)" where
  "message_step i pending completed m =
     (if Role m = ''assistant'' then
        if pending \<noteq> {} then Inl (MissingBeforeAssistant i)
        else (case add_calls i pending completed (ToolCalls m) of
                Inl e \<Rightarrow> Inl e
              | Inr p \<Rightarrow> Inr (p, completed))
      else if Role m = ''tool'' then
        if ToolCallID m = [] then Inl (ToolCallIDRequired i)
        else if ToolCallID m \<notin> pending then Inl (UnexpectedResult (ToolCallID m))
        else Inr (pending - {ToolCallID m}, insert (ToolCallID m) completed)
      else Inr (pending, completed))"

fun validate_loop ::
    "nat \<Rightarrow> string set \<Rightarrow> string set \<Rightarrow> oaiMsg list \<Rightarrow> tool_error + (string set \<times> string set)" where
  "validate_loop i pending completed [] = Inr (pending, completed)"
| "validate_loop i pending completed (m # ms) =
     (case message_step i pending completed m of
        Inl e \<Rightarrow> Inl e
      | Inr (p, c) \<Rightarrow> validate_loop (Suc i) p c ms)"

definition validateToolConversation :: "oaiMsg list \<Rightarrow> tool_error + unit" where
  "validateToolConversation ms =
     (case validate_loop 0 {} {} ms of
        Inl e \<Rightarrow> Inl e
      | Inr (pending, completed) \<Rightarrow>
          if pending \<noteq> {} then Inl (MissingResults pending) else Inr ())"

section \<open>What a well-formed conversation is\<close>

text \<open>The ids a conversation issues, in order, and the ids its tool messages answer.\<close>

definition calls_of :: "oaiMsg list \<Rightarrow> string list" where
  "calls_of ms = concat (map (\<lambda>m. if Role m = ''assistant'' then map call_id (ToolCalls m) else []) ms)"

definition results_of :: "oaiMsg list \<Rightarrow> string list" where
  "results_of ms = map ToolCallID (filter (\<lambda>m. Role m = ''tool'') ms)"

text \<open>
  In order: no id is issued twice, none is empty; a result answers a call issued before it that
  has no result yet; no assistant message comes while a call is unanswered.
\<close>

definition in_order :: "oaiMsg list \<Rightarrow> bool" where
  "in_order ms \<longleftrightarrow>
     distinct (calls_of ms) \<and> [] \<notin> set (calls_of ms) \<and>
     (\<forall>pre m post. ms = pre @ m # post \<longrightarrow>
        (Role m = ''tool'' \<longrightarrow> ToolCallID m \<in> set (calls_of pre) - set (results_of pre)) \<and>
        (Role m = ''assistant'' \<longrightarrow> set (calls_of pre) \<subseteq> set (results_of pre)))"

definition balanced :: "oaiMsg list \<Rightarrow> bool" where
  "balanced ms \<longleftrightarrow> in_order ms \<and> set (calls_of ms) \<subseteq> set (results_of ms)"

lemma calls_of_simps [simp]:
  "calls_of [] = []"
  "calls_of (ms @ [m]) = calls_of ms @ (if Role m = ''assistant'' then map call_id (ToolCalls m) else [])"
  "calls_of (m # ms) = (if Role m = ''assistant'' then map call_id (ToolCalls m) else []) @ calls_of ms"
  by (simp_all add: calls_of_def)

lemma results_of_simps [simp]:
  "results_of [] = []"
  "results_of (ms @ [m]) = results_of ms @ (if Role m = ''tool'' then [ToolCallID m] else [])"
  "results_of (m # ms) = (if Role m = ''tool'' then [ToolCallID m] else []) @ results_of ms"
  by (simp_all add: results_of_def)

lemma in_order_Nil [simp]: "in_order []"
  by (simp add: in_order_def)

lemma in_order_snoc:
  "in_order (ms @ [m]) \<longleftrightarrow> in_order ms
     \<and> distinct (calls_of (ms @ [m])) \<and> [] \<notin> set (calls_of (ms @ [m]))
     \<and> (Role m = ''tool'' \<longrightarrow> ToolCallID m \<in> set (calls_of ms) - set (results_of ms))
     \<and> (Role m = ''assistant'' \<longrightarrow> set (calls_of ms) \<subseteq> set (results_of ms))"
  unfolding in_order_def all_splits_snoc by auto

section \<open>The walk computes exactly that\<close>

lemma add_calls_iff:
  "add_calls i pending completed calls = Inr p \<longleftrightarrow>
     distinct (map call_id calls) \<and> [] \<notin> set (map call_id calls)
     \<and> set (map call_id calls) \<inter> (pending \<union> completed) = {}
     \<and> p = pending \<union> set (map call_id calls)"
  by (induction calls arbitrary: pending) auto

lemma validate_loop_snoc:
  "validate_loop i pending completed (ms @ [m]) =
     (case validate_loop i pending completed ms of
        Inl e \<Rightarrow> Inl e
      | Inr (p, c) \<Rightarrow> message_step (i + length ms) p c m)"
  by (induction ms arbitrary: i pending completed)
    (auto split: sum.splits prod.splits)

lemma results_subset: "in_order ms \<Longrightarrow> set (results_of ms) \<subseteq> set (calls_of ms)"
  by (induction ms rule: rev_induct) (auto simp: in_order_snoc)

lemma results_distinct: "in_order ms \<Longrightarrow> distinct (results_of ms)"
  by (induction ms rule: rev_induct) (auto simp: in_order_snoc)

lemma validate_loop_iff:
  "validate_loop 0 {} {} ms = Inr (p, c) \<longleftrightarrow>
     in_order ms \<and> p = set (calls_of ms) - set (results_of ms) \<and> c = set (results_of ms)"
proof (induction ms arbitrary: p c rule: rev_induct)
  case Nil
  then show ?case by auto
next
  case (snoc m ms)
  show ?case
  proof (cases "in_order ms")
    case False
    have "\<And>p c. validate_loop 0 {} {} ms \<noteq> Inr (p, c)" using snoc.IH False by blast
    then have "\<exists>e. validate_loop 0 {} {} ms = Inl e"
      by (metis obj_sumE surj_pair)
    with False show ?thesis by (auto simp: validate_loop_snoc in_order_snoc)
  next
    case True
    let ?I = "set (calls_of ms)" and ?A = "set (results_of ms)"
    have run: "validate_loop 0 {} {} ms = Inr (?I - ?A, ?A)"
      using snoc.IH True by blast
    have sub: "?A \<subseteq> ?I" using True by (rule results_subset)
    have prev: "distinct (calls_of ms)" "[] \<notin> ?I" using True by (simp_all add: in_order_def)
    show ?thesis
    proof (cases "Role m = ''assistant''")
      case assistant: True
      show ?thesis
      proof (cases "?I \<subseteq> ?A")
        case False
        with assistant run show ?thesis
          by (auto simp: validate_loop_snoc message_step_def in_order_snoc)
      next
        case all: True
        with sub have eq: "?I = ?A" by blast
        have "validate_loop 0 {} {} (ms @ [m]) = Inr (p, c) \<longleftrightarrow>
            add_calls (length ms) {} ?A (ToolCalls m) = Inr p \<and> c = ?A"
          using assistant run eq
          by (auto simp: validate_loop_snoc message_step_def split: sum.splits)
        also have "\<dots> \<longleftrightarrow> distinct (map call_id (ToolCalls m)) \<and> [] \<notin> set (map call_id (ToolCalls m))
            \<and> set (map call_id (ToolCalls m)) \<inter> ?I = {}
            \<and> p = set (map call_id (ToolCalls m)) \<and> c = ?A"
          by (subst add_calls_iff) (auto simp: eq)
        also have "\<dots> \<longleftrightarrow> in_order (ms @ [m]) \<and>
            p = set (calls_of (ms @ [m])) - set (results_of (ms @ [m])) \<and> c = set (results_of (ms @ [m]))"
          using assistant True all prev eq by (auto simp: in_order_snoc)
        finally show ?thesis .
      qed
    next
      case other: False
      with True run sub prev show ?thesis
        by (auto simp: validate_loop_snoc message_step_def in_order_snoc)
    qed
  qed
qed

lemma validateToolConversation_ok:
  "validateToolConversation ms = Inr () \<longleftrightarrow> balanced ms"
proof -
  have "validateToolConversation ms = Inr () \<longleftrightarrow> (\<exists>c. validate_loop 0 {} {} ms = Inr ({}, c))"
    by (auto simp: validateToolConversation_def split: sum.splits prod.splits if_splits)
  then show ?thesis by (auto simp: validate_loop_iff balanced_def)
qed

lemma balanced_results_mset: "balanced ms \<Longrightarrow> mset (results_of ms) = mset (calls_of ms)"
  unfolding balanced_def
  by (metis in_order_def results_distinct results_subset set_eq_iff_mset_eq_distinct subset_antisym)

section \<open>Properties\<close>

text \<open>
  C14: the validator of a conversation's tool messages accepts exactly the balanced ones: ids are
  non-empty and never reused, each result answers an earlier call that has no result yet, no
  assistant message comes while a call is unanswered, and every call is answered in the end.
\<close>
theorem validateToolConversation_iff_balanced:
  "validateToolConversation ms = Inr () \<longleftrightarrow> balanced ms"
  by (rule validateToolConversation_ok)

text \<open>
  a conversation the validator accepts holds exactly one tool result for each tool call: the
  answered ids are the issued ids, each once.
\<close>
theorem accepted_one_result_per_call:
  assumes "validateToolConversation ms = Inr ()"
  shows "mset (results_of ms) = mset (calls_of ms) \<and> distinct (results_of ms)"
  using assms balanced_results_mset [of ms] results_distinct [of ms]
  by (simp add: validateToolConversation_ok balanced_def)

definition example_call :: "string \<Rightarrow> obj" where
  "example_call cid = [(''id'', JStr cid), (''function'', JObj [(''name'', JStr ''ls'')])]"

definition example_msg :: "string \<Rightarrow> json \<Rightarrow> string \<Rightarrow> obj list \<Rightarrow> oaiMsg" where
  "example_msg role content cid calls =
     \<lparr>Role = role, Content = content, Name = [], ToolCallID = cid, ToolCalls = calls\<rparr>"

lemmas example_simps = example_call_def example_msg_def call_id_def message_step_def
  validateToolConversation_def results_of_def calls_of_def as_str_def get_def lookup_def

theorem accepted_one_result_per_call_witness:
  "mset (results_of [example_msg ''assistant'' JNull [] [example_call ''a'', example_call ''b''],
      example_msg ''tool'' (JStr ''x'') ''b'' [], example_msg ''tool'' (JStr ''y'') ''a'' []])
    = mset [''a'', ''b'']"
proof -
  let ?ms = "[example_msg ''assistant'' JNull [] [example_call ''a'', example_call ''b''],
      example_msg ''tool'' (JStr ''x'') ''b'' [], example_msg ''tool'' (JStr ''y'') ''a'' []]"
  have "validateToolConversation ?ms = Inr ()" by (simp add: example_simps)
  from accepted_one_result_per_call [OF this] have "mset (results_of ?ms) = mset (calls_of ?ms)" ..
  then show ?thesis by (simp add: example_simps)
qed

end
