(* ===== verification/GoRegex.thy ===== *)
theory GoRegex
  imports GoStrings
begin

text \<open>
  The part of Go's \<open>regexp\<close> the program uses: an unanchored test whether a pattern occurs in a
  string.  \<open>ends r s i\<close> computes every offset at which a match of \<open>r\<close> that begins at offset
  \<open>i\<close> of \<open>s\<close> may end, and \<open>rmatch\<close> is the relation it computes.  The flag \<open>(?i)\<close> is a match of
  the pattern, written in lower case, against the string with its ASCII letters lowered.
\<close>

datatype regex =
    Eps
  | Class "char \<Rightarrow> bool"
  | WordBoundary
  | Cat regex regex
  | Alt regex regex
  | Star regex

definition is_word :: "char \<Rightarrow> bool" where
  "is_word c = (let n = (of_char c :: nat) in
     (48 \<le> n \<and> n \<le> 57) \<or> (65 \<le> n \<and> n \<le> 90) \<or> n = 95 \<or> (97 \<le> n \<and> n \<le> 122))"

text \<open>\<open>\b\<close>: exactly one side of the offset is a word byte.\<close>

definition at_boundary :: "string \<Rightarrow> nat \<Rightarrow> bool" where
  "at_boundary s i =
     ((0 < i \<and> i \<le> length s \<and> is_word (s ! (i - 1))) \<noteq> (i < length s \<and> is_word (s ! i)))"

fun iter_ends :: "(nat \<Rightarrow> nat list) \<Rightarrow> nat \<Rightarrow> nat \<Rightarrow> nat list" where
  "iter_ends f 0 i = [i]"
| "iter_ends f (Suc n) i = i # concat (map (iter_ends f n) (filter (\<lambda>j. i < j) (f i)))"

fun ends :: "regex \<Rightarrow> string \<Rightarrow> nat \<Rightarrow> nat list" where
  "ends Eps s i = [i]"
| "ends (Class p) s i = (if i < length s \<and> p (s ! i) then [Suc i] else [])"
| "ends WordBoundary s i = (if at_boundary s i then [i] else [])"
| "ends (Cat r q) s i = concat (map (ends q s) (ends r s i))"
| "ends (Alt r q) s i = ends r s i @ ends q s i"
| "ends (Star r) s i = iter_ends (ends r s) (length s - i) i"

definition re_find :: "regex \<Rightarrow> string \<Rightarrow> bool" where
  "re_find r s = list_ex (\<lambda>i. ends r s i \<noteq> []) [0..<Suc (length s)]"

section \<open>The relation\<close>

inductive rmatch :: "regex \<Rightarrow> string \<Rightarrow> nat \<Rightarrow> nat \<Rightarrow> bool" where
  eps: "rmatch Eps s i i"
| cls: "i < length s \<Longrightarrow> p (s ! i) \<Longrightarrow> rmatch (Class p) s i (Suc i)"
| bound: "at_boundary s i \<Longrightarrow> rmatch WordBoundary s i i"
| cat: "rmatch r s i j \<Longrightarrow> rmatch q s j k \<Longrightarrow> rmatch (Cat r q) s i k"
| alt1: "rmatch r s i j \<Longrightarrow> rmatch (Alt r q) s i j"
| alt2: "rmatch q s i j \<Longrightarrow> rmatch (Alt r q) s i j"
| star0: "rmatch (Star r) s i i"
| star1: "rmatch r s i j \<Longrightarrow> rmatch (Star r) s j k \<Longrightarrow> rmatch (Star r) s i k"

inductive_simps rmatch_simps:
  "rmatch Eps s i j" "rmatch (Class p) s i j" "rmatch WordBoundary s i j"
  "rmatch (Cat r q) s i j" "rmatch (Alt r q) s i j"

lemma rmatch_mono: "rmatch r s i j \<Longrightarrow> i \<le> j"
  by (induction rule: rmatch.induct) auto

lemma rmatch_in_range: "rmatch r s i j \<Longrightarrow> i < j \<Longrightarrow> j \<le> length s"
proof (induction rule: rmatch.induct)
  case (cat r s i j q k)
  then show ?case by (cases "j < k") (auto dest!: rmatch_mono)
next
  case (star1 r s i j k)
  then show ?case by (cases "j < k") (auto dest!: rmatch_mono)
qed auto

lemma iter_ends_sound:
  assumes "\<And>i j. j \<in> set (ends r s i) \<Longrightarrow> rmatch r s i j"
  shows "j \<in> set (iter_ends (ends r s) n i) \<Longrightarrow> rmatch (Star r) s i j"
proof (induction n arbitrary: i)
  case 0
  then show ?case by (auto intro: rmatch.intros)
next
  case (Suc n)
  then show ?case by (auto intro: rmatch.intros assms)
qed

lemma iter_ends_complete:
  assumes "\<And>i j. rmatch r s i j \<Longrightarrow> j \<in> set (ends r s i)"
  shows "rmatch q s' i k \<Longrightarrow> q = Star r \<Longrightarrow> s' = s \<Longrightarrow> length s - i \<le> n \<Longrightarrow>
    k \<in> set (iter_ends (ends r s) n i)"
proof (induction arbitrary: n rule: rmatch.induct)
  case (star0 r' s' i)
  then show ?case by (cases n) auto
next
  case (star1 r' s' i j k)
  show ?case
  proof (cases "i = j")
    case True
    with star1 show ?thesis by simp
  next
    case False
    with star1.hyps have "i < j" by (auto dest: rmatch_mono)
    with star1.hyps star1.prems have "j \<le> length s" by (auto dest: rmatch_in_range)
    with star1.prems \<open>i < j\<close> obtain n' where n: "n = Suc n'" and "length s - j \<le> n'"
      by (cases n) auto
    with star1 have "k \<in> set (iter_ends (ends r s) n' j)" by blast
    moreover have "j \<in> set (ends r s i)" using assms star1 by blast
    ultimately show ?thesis using n \<open>i < j\<close> by auto
  qed
qed auto

lemma ends_iff: "j \<in> set (ends r s i) \<longleftrightarrow> rmatch r s i j"
proof (induction r arbitrary: i j)
  case (Star r)
  have "j \<in> set (ends (Star r) s i)" if "rmatch (Star r) s i j"
    using iter_ends_complete [of r s "Star r" s i j "length s - i"] Star.IH that by simp
  moreover have "rmatch (Star r) s i j" if "j \<in> set (ends (Star r) s i)"
    using iter_ends_sound [of r s j "length s - i" i] Star.IH that by simp
  ultimately show ?case by blast
qed (auto simp: rmatch_simps)

lemma re_find_iff: "re_find r s \<longleftrightarrow> (\<exists>i\<le>length s. \<exists>j. rmatch r s i j)"
proof -
  have "ends r s i \<noteq> [] \<longleftrightarrow> (\<exists>j. rmatch r s i j)" for i
    using ends_iff [of _ r s i] by (cases "ends r s i") auto
  then show ?thesis by (auto simp: re_find_def list_ex_iff less_Suc_eq_le simp del: upt_Suc)
qed

section \<open>Building patterns\<close>

definition chr :: "char \<Rightarrow> regex" where
  "chr c = Class (\<lambda>x. x = c)"

fun lit :: "string \<Rightarrow> regex" where
  "lit [] = Eps"
| "lit [c] = chr c"
| "lit (c # d # s) = Cat (chr c) (lit (d # s))"

fun alts :: "regex list \<Rightarrow> regex" where
  "alts [] = Class (\<lambda>_. False)"
| "alts [r] = r"
| "alts (r # q # rs) = Alt r (alts (q # rs))"

definition opt :: "regex \<Rightarrow> regex" where
  "opt r = Alt r Eps"

text \<open>\<open>\s\<close>, \<open>\d\<close> and \<open>[1-9]\<close>\<close>

definition spaces :: regex where
  "spaces = Star (Class (\<lambda>c. c \<in> {CHR 0x09, CHR 0x0A, CHR 0x0C, CHR 0x0D, CHR 0x20}))"

definition digits :: regex where
  "digits = Star (Class is_digit)"

definition nonzero_digit :: regex where
  "nonzero_digit = Class (\<lambda>c. is_digit c \<and> c \<noteq> CHR ''0'')"

definition word :: "regex \<Rightarrow> regex" where
  "word r = Cat WordBoundary (Cat r WordBoundary)"

lemma rmatch_lit: "w \<noteq> [] \<Longrightarrow> rmatch (lit w) s i j \<longleftrightarrow> i + length w \<le> length s \<and> j = i + length w
    \<and> take (length w) (drop i s) = w"
proof (induction w arbitrary: i rule: lit.induct)
  case (2 c)
  show ?case
    by (cases "i < length s") (auto simp: chr_def rmatch_simps Cons_nth_drop_Suc [symmetric])
next
  case (3 c d w)
  have "rmatch (chr c) s i k \<longleftrightarrow> i < length s \<and> s ! i = c \<and> k = Suc i" for k
    by (auto simp: chr_def rmatch_simps)
  then have "rmatch (lit (c # d # w)) s i j \<longleftrightarrow>
      i < length s \<and> s ! i = c \<and> rmatch (lit (d # w)) s (Suc i) j"
    by (auto simp: rmatch_simps)
  also have "\<dots> \<longleftrightarrow> i + length (c # d # w) \<le> length s \<and> j = i + length (c # d # w)
      \<and> take (length (c # d # w)) (drop i s) = c # d # w"
    using "3.IH" by (cases "i < length s") (auto simp: Cons_nth_drop_Suc [symmetric])
  finally show ?case .
qed simp

text \<open>A pattern that is one literal is a substring search.\<close>

lemma re_find_lit: "w \<noteq> [] \<Longrightarrow> re_find (lit w) s \<longleftrightarrow> str_contains s w"
proof -
  assume w: "w \<noteq> []"
  have "re_find (lit w) s \<longleftrightarrow>
      (\<exists>i\<le>length s. i + length w \<le> length s \<and> take (length w) (drop i s) = w)"
    using w by (simp add: re_find_iff rmatch_lit)
  also have "\<dots> \<longleftrightarrow> (\<exists>a b. s = a @ w @ b)"
  proof
    assume "\<exists>i\<le>length s. i + length w \<le> length s \<and> take (length w) (drop i s) = w"
    then obtain i where "take (length w) (drop i s) = w" by blast
    then have "s = take i s @ w @ drop (length w) (drop i s)" by (metis append_take_drop_id)
    then show "\<exists>a b. s = a @ w @ b" by blast
  next
    assume "\<exists>a b. s = a @ w @ b"
    then obtain a b where "s = a @ w @ b" by blast
    then show "\<exists>i\<le>length s. i + length w \<le> length s \<and> take (length w) (drop i s) = w"
      by (intro exI [of _ "length a"]) simp
  qed
  finally show ?thesis by (simp add: str_contains_iff)
qed

lemma re_find_alts_Cons:
  "rs \<noteq> [] \<Longrightarrow> re_find (alts (r # rs)) s \<longleftrightarrow> re_find r s \<or> re_find (alts rs) s"
  by (cases rs) (simp, auto simp: re_find_iff rmatch_simps)

end
