(* ===== verification/AgentLedger.thy ===== *)
theory AgentLedger
  imports ToolState GoRegex "HOL-Library.List_Lexorder" "HOL-Library.Char_ord"
begin

text \<open>
  The evidence ledger of src/internal/web/agent_ledger.go: which tool calls a conversation has
  completed, which are pending, whether calls or failures repeat, and what the ledger allows the
  gateway to do next (\<open>CanContinue\<close>, \<open>filterCompletedCalls\<close>, \<open>completionEvidenceAllows\<close>).
  \<open>contentToString\<close> is in src/internal/web/server.go, \<open>detectedToolCall\<close> in toolloop.go.
\<close>

section \<open>Data\<close>

record toolEvidence =
  te_ID :: string
  te_Name :: string
  te_Arguments :: string
  te_Result :: string
  te_Failed :: bool

record agentLedger =
  Completed :: "toolEvidence list"
  Pending :: "toolEvidence list"
  ToolRounds :: nat
  RepeatedCall :: bool
  RepeatedFailure :: bool
  RepetitionSignature :: string

record detectedToolCall =
  dc_ID :: string
  dc_Type :: string
  dc_Name :: string
  dc_Arguments :: string

section \<open>Failure and success vocabulary\<close>

definition failureSignal :: regex where
  "failureSignal = alts
     [Cat (lit ''exit'') (Cat spaces (Cat (opt (Alt (lit ''code'') (lit ''status'')))
        (Cat spaces (Cat (opt (Class (\<lambda>c. c \<in> {CHR '':'', CHR ''=''})))
          (Cat spaces (Cat nonzero_digit digits)))))),
      word (lit ''error''), word (lit ''failed''), word (lit ''failure''),
      lit ''exception'', lit ''traceback'',
      Cat (lit ''time'') (Cat (opt (chr (CHR ''d''))) (Cat spaces (lit ''out''))),
      lit ''permission denied'', lit ''not found'', lit ''refused'']"

definition unsupportedSuccess :: regex where
  "unsupportedSuccess = word (alts
     [lit ''installed'', lit ''created'', lit ''written'', lit ''executed'', lit ''ran'',
      lit ''started'', lit ''deployed'', lit ''deleted'', lit ''verified'', lit ''completed'',
      lit ''succeeded'', Cat (lit ''successful'') (opt (lit ''ly''))])"

text \<open>\<open>MatchString\<close> under \<open>(?i)\<close>\<close>

definition matches_fold :: "regex \<Rightarrow> string \<Rightarrow> bool" where
  "matches_fold r s = re_find r (map lower_char s)"

section \<open>Compacting a result\<close>

definition truncation_mark :: "int \<Rightarrow> string" where
  "truncation_mark n =
     [CHR 0x0A] @ ''... [truncated '' @ itoa n @ '' bytes] ...'' @ [CHR 0x0A]"

definition compactToolResult :: "string \<Rightarrow> int \<Rightarrow> string" where
  "compactToolResult s0 limit0 =
     (let s = trim_space s0;
          limit = (if limit0 < 200 then 200 else limit0)
      in if int (length s) \<le> limit then s
         else let head = limit div 3;
                  tail0 = limit - head - 80;
                  tail = (if tail0 < 80 then 80 else tail0)
              in take (nat head) s @ truncation_mark (int (length s) - head - tail)
                 @ drop (nat (int (length s) - tail)) s)"

lemma length_truncation_mark:
  assumes "0 \<le> n" and "n < 2 ^ 63"
  shows "length (truncation_mark n) \<le> 47"
proof -
  have "nat n < 10 ^ 19" using assms by simp
  then have "length (itoa_nat (nat n)) \<le> 19" by (rule length_itoa_nat) simp
  then show ?thesis using assms by (simp add: truncation_mark_def itoa_def)
qed

lemma compactToolResult_length:
  assumes "int (length s) < 2 ^ 63"
  shows "int (length (compactToolResult s limit)) \<le> max 200 limit"
proof -
  define t where "t = trim_space s"
  define l where "l = (if limit < 200 then 200 else limit)"
  define head where "head = l div 3"
  define tail where "tail = (if l - head - 80 < 80 then 80 else l - head - 80)"
  have t: "int (length t) < 2 ^ 63"
    using assms length_trim_space [of s] by (simp add: t_def)
  have l: "200 \<le> l" "l = max 200 limit" by (auto simp: l_def)
  show ?thesis
  proof (cases "int (length t) \<le> l")
    case True
    then show ?thesis using l by (simp add: compactToolResult_def t_def l_def Let_def)
  next
    case False
    have sizes: "0 \<le> head" "80 \<le> tail" "head + tail \<le> l - 54"
      using l by (auto simp: head_def tail_def)
    then have "length (truncation_mark (int (length t) - head - tail)) \<le> 47"
      using False t by (intro length_truncation_mark) auto
    moreover have "compactToolResult s limit = take (nat head) t
        @ truncation_mark (int (length t) - head - tail) @ drop (nat (int (length t) - tail)) t"
      using False by (simp add: compactToolResult_def t_def l_def head_def tail_def Let_def)
    ultimately show ?thesis using sizes False l by simp
  qed
qed

lemma compactToolResult_fits:
  "int (length (trim_space s)) \<le> max 200 limit \<Longrightarrow> compactToolResult s limit = trim_space s"
  by (auto simp: compactToolResult_def Let_def)

lemma compactToolResult_empty:
  "compactToolResult s limit = [] \<longleftrightarrow> trim_space s = []"
  by (auto simp: compactToolResult_def truncation_mark_def Let_def)

section \<open>Building the ledger\<close>

text \<open>\<open>contentToString\<close>\<close>

definition text_part :: "json \<Rightarrow> string" where
  "text_part part = (case is_obj part of
      None \<Rightarrow> []
    | Some m \<Rightarrow> if as_str (get m ''type'') \<in> {''text'', ''input_text'', ''output_text''}
        then as_str (get m ''text'') else [])"

definition contentToString :: "golib \<Rightarrow> json \<Rightarrow> string" where
  "contentToString L c = (case c of
      JStr s \<Rightarrow> s
    | JArr parts \<Rightarrow> concat (map text_part parts)
    | v \<Rightarrow> go_sprint L v)"

type_synonym call_table = "(string \<rightharpoonup> toolEvidence) \<times> string list"

definition record_call :: "golib \<Rightarrow> call_table \<Rightarrow> obj \<Rightarrow> call_table" where
  "record_call L t raw =
     (let id = as_str (get raw ''id'');
          fn = as_obj (get raw ''function'');
          name = as_str (get fn ''name'');
          args = go_sprint L (get fn ''arguments'')
      in if id \<noteq> [] then
           ((fst t)(id \<mapsto> \<lparr>te_ID = id, te_Name = name, te_Arguments = args, te_Result = [],
              te_Failed = False\<rparr>), snd t @ [id])
         else t)"

definition record_result :: "golib \<Rightarrow> call_table \<Rightarrow> oaiMsg \<Rightarrow> call_table" where
  "record_result L t m =
     (case fst t (ToolCallID m) of
        None \<Rightarrow> t
      | Some e \<Rightarrow>
          let r = compactToolResult (contentToString L (Content m)) 4000
          in ((fst t)(ToolCallID m \<mapsto> e\<lparr>te_Result := r, te_Failed := matches_fold failureSignal r\<rparr>),
              snd t))"

definition record_message :: "golib \<Rightarrow> call_table \<Rightarrow> oaiMsg \<Rightarrow> call_table" where
  "record_message L t m =
     (let t1 = (if Role m = ''assistant'' then foldl (record_call L) t (ToolCalls m) else t)
      in if Role m = ''tool'' then record_result L t1 m else t1)"

definition call_table :: "golib \<Rightarrow> oaiMsg list \<Rightarrow> call_table" where
  "call_table L ms = foldl (record_message L) (Map.empty, []) ms"

fun hash_digits :: "string \<Rightarrow> string" where
  "hash_digits [] = []"
| "hash_digits (c # s) =
     (if is_digit c then CHR ''#'' # hash_digits (dropWhile is_digit s) else c # hash_digits s)"

definition normalizeFailure :: "string \<Rightarrow> string" where
  "normalizeFailure s = take 500 (hash_digits (to_lower s))"

definition call_sig :: "toolEvidence \<Rightarrow> string" where
  "call_sig e = te_Name e @ [CHR 0x00] @ te_Arguments e"

definition failure_sig :: "toolEvidence \<Rightarrow> string" where
  "failure_sig e = te_Name e @ [CHR 0x00] @ te_Arguments e @ [CHR 0x00] @ normalizeFailure (te_Result e)"

record ledger_state =
  ledger :: agentLedger
  seenCall :: "string \<Rightarrow> nat"
  seenFailure :: "string \<Rightarrow> nat"

definition empty_ledger :: agentLedger where
  "empty_ledger = \<lparr>Completed = [], Pending = [], ToolRounds = 0, RepeatedCall = False,
     RepeatedFailure = False, RepetitionSignature = []\<rparr>"

definition count_call :: "ledger_state \<Rightarrow> toolEvidence \<Rightarrow> ledger_state" where
  "count_call st e =
     (let n = Suc (seenCall st (call_sig e));
          l = (ledger st)\<lparr>ToolRounds := Suc (ToolRounds (ledger st))\<rparr>
      in st\<lparr>seenCall := (seenCall st)(call_sig e := n),
            ledger := (if 2 \<le> n then l\<lparr>RepeatedCall := True, RepetitionSignature := call_sig e\<rparr> else l)\<rparr>)"

definition count_failure :: "ledger_state \<Rightarrow> toolEvidence \<Rightarrow> ledger_state" where
  "count_failure st e =
     (let n = Suc (seenFailure st (failure_sig e))
      in st\<lparr>seenFailure := (seenFailure st)(failure_sig e := n),
            ledger := (if 2 \<le> n then (ledger st)\<lparr>RepeatedFailure := True,
              RepetitionSignature := failure_sig e\<rparr> else ledger st)\<rparr>)"

definition file_call :: "ledger_state \<Rightarrow> toolEvidence \<Rightarrow> ledger_state" where
  "file_call st e =
     (let st1 = count_call st e
      in if te_Result e = [] then
           st1\<lparr>ledger := (ledger st1)\<lparr>Pending := Pending (ledger st1) @ [e]\<rparr>\<rparr>
         else
           let st2 = st1\<lparr>ledger := (ledger st1)\<lparr>Completed := Completed (ledger st1) @ [e]\<rparr>\<rparr>
           in if te_Failed e then count_failure st2 e else st2)"

text \<open>\<open>calls[id]\<close>, the zero evidence for an id that is not in the map\<close>

definition evidence :: "call_table \<Rightarrow> string \<Rightarrow> toolEvidence" where
  "evidence t cid = (case fst t cid of
      None \<Rightarrow> \<lparr>te_ID = [], te_Name = [], te_Arguments = [], te_Result = [], te_Failed = False\<rparr>
    | Some e \<Rightarrow> e)"

definition buildAgentLedger :: "golib \<Rightarrow> oaiMsg list \<Rightarrow> agentLedger" where
  "buildAgentLedger L ms =
     (let t = call_table L ms
      in ledger (foldl file_call
           \<lparr>ledger = empty_ledger, seenCall = (\<lambda>_. 0), seenFailure = (\<lambda>_. 0)\<rparr>
           (map (evidence t) (snd t))))"

section \<open>What the ledger records\<close>

definition ledger_run :: "toolEvidence list \<Rightarrow> ledger_state" where
  "ledger_run es = foldl file_call
     \<lparr>ledger = empty_ledger, seenCall = (\<lambda>_. 0), seenFailure = (\<lambda>_. 0)\<rparr> es"

definition failures :: "toolEvidence list \<Rightarrow> toolEvidence list" where
  "failures es = filter (\<lambda>e. te_Result e \<noteq> [] \<and> te_Failed e) es"

lemma ledger_run_snoc [simp]: "ledger_run (es @ [e]) = file_call (ledger_run es) e"
  by (simp add: ledger_run_def)

lemma failures_snoc [simp]:
  "failures (es @ [e]) = failures es @ (if te_Result e \<noteq> [] \<and> te_Failed e then [e] else [])"
  by (simp add: failures_def)

lemmas file_call_defs = file_call_def count_call_def count_failure_def Let_def

lemma ledger_run_counts:
  "seenCall (ledger_run es) = count_list (map call_sig es)
    \<and> seenFailure (ledger_run es) = count_list (map failure_sig (failures es))"
  by (induction es rule: rev_induct)
    (auto simp: file_call_defs fun_eq_iff, simp_all add: ledger_run_def failures_def)

lemma ledger_run_lists:
  "Completed (ledger (ledger_run es)) = filter (\<lambda>e. te_Result e \<noteq> []) es
    \<and> Pending (ledger (ledger_run es)) = filter (\<lambda>e. te_Result e = []) es
    \<and> ToolRounds (ledger (ledger_run es)) = length es"
  by (induction es rule: rev_induct)
    (auto simp: file_call_defs, simp_all add: ledger_run_def empty_ledger_def)

lemma not_distinct_snoc: "\<not> distinct (xs @ [x]) \<longleftrightarrow> \<not> distinct xs \<or> 0 < count_list xs x"
  using count_list_0_iff [of xs x] by auto

lemma ledger_run_repeats:
  "RepeatedCall (ledger (ledger_run es)) = (\<not> distinct (map call_sig es))
    \<and> RepeatedFailure (ledger (ledger_run es)) = (\<not> distinct (map failure_sig (failures es)))"
proof (induction es rule: rev_induct)
  case Nil
  then show ?case by (simp add: ledger_run_def empty_ledger_def failures_def)
next
  case (snoc e es)
  have c: "seenCall (ledger_run es) = count_list (map call_sig es)"
    "seenFailure (ledger_run es) = count_list (map failure_sig (failures es))"
    using ledger_run_counts by blast+
  have "RepeatedCall (ledger (ledger_run (es @ [e]))) \<longleftrightarrow>
      RepeatedCall (ledger (ledger_run es)) \<or> 0 < count_list (map call_sig es) (call_sig e)"
    by (auto simp: file_call_defs c)
  moreover have "RepeatedFailure (ledger (ledger_run (es @ [e]))) \<longleftrightarrow>
      RepeatedFailure (ledger (ledger_run es)) \<or>
      (te_Result e \<noteq> [] \<and> te_Failed e
        \<and> 0 < count_list (map failure_sig (failures es)) (failure_sig e))"
    by (auto simp: file_call_defs c)
  ultimately show ?case
    using snoc.IH by (auto simp: not_distinct_snoc simp del: distinct_append)
qed

lemma buildAgentLedger_run:
  "buildAgentLedger L ms = ledger (ledger_run (map (evidence (call_table L ms)) (snd (call_table L ms))))"
  by (simp add: buildAgentLedger_def ledger_run_def Let_def)

lemmas ledger_facts = buildAgentLedger_run ledger_run_lists ledger_run_repeats

section \<open>The call table of a conversation that follows the protocol\<close>

text \<open>The evidence a tool message gives.\<close>

definition result_of :: "golib \<Rightarrow> oaiMsg \<Rightarrow> string" where
  "result_of L m = compactToolResult (contentToString L (Content m)) 4000"

definition evidence_ok :: "golib \<Rightarrow> oaiMsg list \<Rightarrow> string \<Rightarrow> toolEvidence \<Rightarrow> bool" where
  "evidence_ok L ms i e \<longleftrightarrow> te_ID e = i \<and>
     (i \<notin> set (results_of ms) \<longrightarrow> te_Result e = [] \<and> \<not> te_Failed e) \<and>
     (i \<in> set (results_of ms) \<longrightarrow>
       (\<exists>m\<in>set ms. Role m = ''tool'' \<and> ToolCallID m = i \<and> te_Result e = result_of L m
          \<and> te_Failed e = matches_fold failureSignal (result_of L m)))"

definition table_ok :: "golib \<Rightarrow> oaiMsg list \<Rightarrow> call_table \<Rightarrow> bool" where
  "table_ok L ms t \<longleftrightarrow> snd t = calls_of ms \<and> dom (fst t) = set (calls_of ms) \<and>
     (\<forall>i e. fst t i = Some e \<longrightarrow> evidence_ok L ms i e)"

lemma evidence_ok_grow:
  "evidence_ok L ms i e \<Longrightarrow> (Role m = ''tool'' \<longrightarrow> ToolCallID m \<noteq> i) \<Longrightarrow> evidence_ok L (ms @ [m]) i e"
  by (auto simp: evidence_ok_def)

lemma table_okD: "table_ok L ms t \<Longrightarrow> fst t i = Some e \<Longrightarrow> evidence_ok L ms i e"
  by (simp add: table_ok_def)

lemma table_ok_mem:
  assumes "table_ok L ms t" and "i \<in> set (calls_of ms)"
  obtains e where "fst t i = Some e"
proof -
  have "i \<in> dom (fst t)" using assms by (simp add: table_ok_def)
  then show ?thesis using that by (auto simp: dom_def)
qed

lemma record_call_id:
  "call_id raw \<noteq> [] \<Longrightarrow> snd (record_call L t raw) = snd t @ [call_id raw]
    \<and> dom (fst (record_call L t raw)) = insert (call_id raw) (dom (fst t))
    \<and> (\<forall>i. i \<noteq> call_id raw \<longrightarrow> fst (record_call L t raw) i = fst t i)
    \<and> (\<exists>e. fst (record_call L t raw) (call_id raw) = Some e \<and> te_ID e = call_id raw
         \<and> te_Result e = [] \<and> \<not> te_Failed e)"
  by (auto simp: record_call_def call_id_def Let_def)

lemma record_calls_ids:
  assumes "[] \<notin> set (map call_id raws)"
  shows "snd (foldl (record_call L) t raws) = snd t @ map call_id raws
    \<and> dom (fst (foldl (record_call L) t raws)) = dom (fst t) \<union> set (map call_id raws)
    \<and> (\<forall>i. i \<notin> set (map call_id raws) \<longrightarrow> fst (foldl (record_call L) t raws) i = fst t i)
    \<and> (\<forall>i\<in>set (map call_id raws). \<exists>e. fst (foldl (record_call L) t raws) i = Some e \<and> te_ID e = i
         \<and> te_Result e = [] \<and> \<not> te_Failed e)"
  using assms
proof (induction raws rule: rev_induct)
  case Nil
  then show ?case by simp
next
  case (snoc raw raws)
  let ?t = "foldl (record_call L) t raws"
  from snoc.prems have "call_id raw \<noteq> []" by auto
  note r = record_call_id [OF this, of L ?t]
  have "\<exists>e. fst (record_call L ?t raw) i = Some e \<and> te_ID e = i \<and> te_Result e = [] \<and> \<not> te_Failed e"
    if "i \<in> set (map call_id (raws @ [raw]))" for i
    using that r snoc by (cases "i = call_id raw") auto
  moreover have "fst (record_call L ?t raw) i = fst t i"
    if "i \<notin> set (map call_id (raws @ [raw]))" for i
    using that r snoc by auto
  ultimately show ?case using r snoc by simp
qed

lemma call_table_snoc: "call_table L (ms @ [m]) = record_message L (call_table L ms) m"
  by (simp add: call_table_def)

lemma table_ok_calls:
  assumes ok: "table_ok L ms t" and m: "Role m = ''assistant''"
    and fresh: "set (map call_id (ToolCalls m)) \<inter> set (calls_of ms) = {}"
    and ne: "[] \<notin> set (map call_id (ToolCalls m))"
    and sub: "set (results_of ms) \<subseteq> set (calls_of ms)"
  shows "table_ok L (ms @ [m]) (foldl (record_call L) t (ToolCalls m))"
proof -
  let ?new = "set (map call_id (ToolCalls m))"
  let ?t = "foldl (record_call L) t (ToolCalls m)"
  note r = record_calls_ids [OF ne, of L t]
  have "evidence_ok L (ms @ [m]) i e" if e: "fst ?t i = Some e" for i e
  proof (cases "i \<in> ?new")
    case True
    then have "i \<notin> set (results_of ms)" using fresh sub by blast
    moreover have "te_ID e = i" "te_Result e = []" "\<not> te_Failed e" using True r e by auto
    ultimately show ?thesis using m by (simp add: evidence_ok_def)
  next
    case False
    then have "fst t i = Some e" using r e by auto
    with table_okD [OF ok] m show ?thesis by (simp add: evidence_ok_grow)
  qed
  moreover have "snd ?t = calls_of (ms @ [m])" "dom (fst ?t) = set (calls_of (ms @ [m]))"
    using r ok m by (simp_all add: table_ok_def)
  ultimately show ?thesis by (simp add: table_ok_def)
qed

lemma table_ok_result:
  assumes ok: "table_ok L ms t" and m: "Role m = ''tool''"
    and known: "ToolCallID m \<in> set (calls_of ms)"
  shows "table_ok L (ms @ [m]) (record_result L t m)"
proof -
  from ok known obtain e where e: "fst t (ToolCallID m) = Some e" by (rule table_ok_mem)
  define e' where "e' = e\<lparr>te_Result := result_of L m,
      te_Failed := matches_fold failureSignal (result_of L m)\<rparr>"
  have t': "record_result L t m = ((fst t)(ToolCallID m \<mapsto> e'), snd t)"
    by (simp add: record_result_def e result_of_def e'_def Let_def)
  have "evidence_ok L (ms @ [m]) (ToolCallID m) e'"
    using table_okD [OF ok e] m by (simp add: evidence_ok_def e'_def)
  moreover have "evidence_ok L (ms @ [m]) i f" if "i \<noteq> ToolCallID m" "fst t i = Some f" for i f
    using table_okD [OF ok that(2)] that(1) by (simp add: evidence_ok_grow)
  ultimately have "\<forall>i f. ((fst t)(ToolCallID m \<mapsto> e')) i = Some f \<longrightarrow> evidence_ok L (ms @ [m]) i f"
    by simp
  moreover have "insert (ToolCallID m) (set (calls_of ms)) = set (calls_of ms)"
    using known by blast
  ultimately show ?thesis using ok m by (simp add: t' table_ok_def)
qed

lemma table_ok_other:
  "table_ok L ms t \<Longrightarrow> Role m \<noteq> ''assistant'' \<Longrightarrow> Role m \<noteq> ''tool'' \<Longrightarrow> table_ok L (ms @ [m]) t"
  by (simp add: table_ok_def evidence_ok_grow)

lemma call_table_ok: "in_order ms \<Longrightarrow> table_ok L ms (call_table L ms)"
proof (induction ms rule: rev_induct)
  case Nil
  then show ?case by (simp add: table_ok_def call_table_def)
next
  case (snoc m ms)
  then have prev: "in_order ms" and ok: "table_ok L ms (call_table L ms)"
    by (auto simp: in_order_snoc)
  consider "Role m = ''assistant''" | "Role m = ''tool''" | "Role m \<noteq> ''assistant''" "Role m \<noteq> ''tool''"
    by blast
  then show ?case
  proof cases
    case 1
    with snoc.prems have "set (map call_id (ToolCalls m)) \<inter> set (calls_of ms) = {}"
      and "[] \<notin> set (map call_id (ToolCalls m))" by (auto simp: in_order_snoc)
    from table_ok_calls [OF ok 1 this results_subset [OF prev]] 1 show ?thesis
      by (simp add: call_table_snoc record_message_def)
  next
    case 2
    with snoc.prems have "ToolCallID m \<in> set (calls_of ms)" by (auto simp: in_order_snoc)
    from table_ok_result [OF ok 2 this] 2 show ?thesis
      by (simp add: call_table_snoc record_message_def)
  next
    case 3
    with table_ok_other [OF ok] show ?thesis by (simp add: call_table_snoc record_message_def)
  qed
qed

lemma ledger_entries:
  fixes L :: golib
  assumes "in_order ms"
  defines "es \<equiv> map (evidence (call_table L ms)) (snd (call_table L ms))"
  shows "map te_ID es = calls_of ms"
    and "buildAgentLedger L ms = ledger (ledger_run es)"
    and "e \<in> set es \<Longrightarrow> fst (call_table L ms) (te_ID e) = Some e"
proof -
  have ok: "table_ok L ms (call_table L ms)" using assms(1) by (rule call_table_ok)
  have ev: "fst (call_table L ms) i = Some (evidence (call_table L ms) i)
      \<and> te_ID (evidence (call_table L ms) i) = i" if "i \<in> set (calls_of ms)" for i
  proof -
    from ok that obtain e where "fst (call_table L ms) i = Some e" by (rule table_ok_mem)
    with table_okD [OF ok this] show ?thesis by (simp add: evidence_def evidence_ok_def)
  qed
  have order: "snd (call_table L ms) = calls_of ms" using ok by (simp add: table_ok_def)
  show "map te_ID es = calls_of ms"
    using ev by (auto simp: es_def order intro: map_idI)
  show "buildAgentLedger L ms = ledger (ledger_run es)"
    by (simp add: es_def buildAgentLedger_run)
  show "fst (call_table L ms) (te_ID e) = Some e" if "e \<in> set es"
    using that ev by (auto simp: es_def order)
qed

section \<open>What the gateway does with the ledger\<close>

definition canonicalToolArguments :: "golib \<Rightarrow> string \<Rightarrow> string" where
  "canonicalToolArguments L s0 =
     (let s = trim_space s0 in
      case unmarshal L s of Some v \<Rightarrow> marshal L v | None \<Rightarrow> s)"

definition hasCompleted :: "golib \<Rightarrow> agentLedger \<Rightarrow> string \<Rightarrow> string \<Rightarrow> bool" where
  "hasCompleted L l name args =
     (let want = canonicalToolArguments L args in
      list_ex (\<lambda>e. te_Name e = name \<and> canonicalToolArguments L (te_Arguments e) = want) (Completed l))"

definition filterCompletedCalls ::
    "golib \<Rightarrow> detectedToolCall list \<Rightarrow> agentLedger \<Rightarrow> detectedToolCall list" where
  "filterCompletedCalls L calls l =
     filter (\<lambda>c. \<not> hasCompleted L l (dc_Name c) (dc_Arguments c)) calls"

datatype continue_error = RoundLimitReached int | PendingToolResults

definition CanContinue :: "agentLedger \<Rightarrow> int \<Rightarrow> continue_error + unit" where
  "CanContinue l maxRounds0 =
     (let maxRounds = (if maxRounds0 \<le> 0 then 32 else maxRounds0)
      in if maxRounds \<le> int (ToolRounds l) then Inl (RoundLimitReached maxRounds)
         else if Pending l \<noteq> [] then Inl PendingToolResults
         else Inr ())"

text \<open>\<open>env\<close> is the value of \<open>M365_MAX_TOOL_ROUNDS\<close>, if it is set.\<close>

definition maxToolRounds :: "string option \<Rightarrow> int \<Rightarrow> int" where
  "maxToolRounds env configured =
     (case env of
        Some raw \<Rightarrow> (case atoi (trim_space raw) of
            Some n \<Rightarrow> if 0 < n \<and> n \<le> 512 then n else 32
          | None \<Rightarrow> 32)
      | None \<Rightarrow> if 0 < configured \<and> configured \<le> 512 then configured else 32)"

fun last_user_from :: "nat \<Rightarrow> int \<Rightarrow> oaiMsg list \<Rightarrow> int" where
  "last_user_from i found [] = found"
| "last_user_from i found (m # ms) =
     last_user_from (Suc i) (if Role m = ''user'' then int i else found) ms"

definition activeMessages :: "oaiMsg list \<Rightarrow> oaiMsg list" where
  "activeMessages ms =
     (let l = last_user_from 0 (- 1) ms in if l \<le> 0 then ms else drop (nat l) ms)"

definition completionEvidenceAllows :: "string \<Rightarrow> agentLedger \<Rightarrow> bool" where
  "completionEvidenceAllows answer l =
     (if Pending l \<noteq> [] then False
      else if Completed l \<noteq> [] then True
      else if \<not> matches_fold unsupportedSuccess answer then True
      else list_ex (str_contains (to_lower answer))
        [''cannot confirm'', ''not confirmed'', ''unable to confirm'', ''no tool result'',
         ''not completed'', ''failed''])"

definition completedCallIDs :: "agentLedger \<Rightarrow> string list" where
  "completedCallIDs l = sort (map te_ID (Completed l))"

section \<open>Facts the properties rest on\<close>

lemma ledger_accounts_mset:
  assumes "in_order ms"
  shows "mset (map te_ID (Completed (buildAgentLedger L ms)))
      + mset (map te_ID (Pending (buildAgentLedger L ms))) = mset (calls_of ms)"
    and "ToolRounds (buildAgentLedger L ms) = length (calls_of ms)"
proof -
  define es where "es = map (evidence (call_table L ms)) (snd (call_table L ms))"
  note es = ledger_entries [OF assms, where L = L, folded es_def]
  have "mset (map te_ID (filter (\<lambda>e. te_Result e \<noteq> []) es))
      + mset (map te_ID (filter (\<lambda>e. te_Result e = []) es)) = mset (map te_ID es)"
    by (induction es) auto
  then show "mset (map te_ID (Completed (buildAgentLedger L ms)))
      + mset (map te_ID (Pending (buildAgentLedger L ms))) = mset (calls_of ms)"
    using es(1,2) ledger_run_lists [of es] by simp
  show "ToolRounds (buildAgentLedger L ms) = length (calls_of ms)"
    using es(1,2) ledger_run_lists [of es] by (metis length_map)
qed

lemma unique_result:
  assumes "distinct (results_of ms)" and "m \<in> set ms" "m' \<in> set ms"
    and "Role m = ''tool''" "Role m' = ''tool''" "ToolCallID m = ToolCallID m'"
  shows "m = m'"
proof -
  have "inj_on ToolCallID (set (filter (\<lambda>m. Role m = ''tool'') ms))"
    using assms(1) by (simp add: results_of_def distinct_map)
  then show ?thesis using assms by (simp add: inj_on_def)
qed

text \<open>The evidence filed for a call of a balanced conversation is that of its one result message.\<close>

lemma evidence_of_result:
  fixes L :: golib
  assumes bal: "balanced ms"
  defines "es \<equiv> map (evidence (call_table L ms)) (snd (call_table L ms))"
  shows "e \<in> set es \<Longrightarrow> \<exists>m\<in>set ms. Role m = ''tool'' \<and> ToolCallID m = te_ID e
      \<and> te_Result e = result_of L m \<and> te_Failed e = matches_fold failureSignal (result_of L m)"
    and "m \<in> set ms \<Longrightarrow> Role m = ''tool'' \<Longrightarrow>
      \<exists>e\<in>set es. te_ID e = ToolCallID m \<and> te_Result e = result_of L m"
proof -
  have ord: "in_order ms" and sub: "set (calls_of ms) \<subseteq> set (results_of ms)"
    using bal by (simp_all add: balanced_def)
  have ok: "table_ok L ms (call_table L ms)" using ord by (rule call_table_ok)
  note es = ledger_entries [OF ord, where L = L, folded es_def]
  show *: "\<exists>m\<in>set ms. Role m = ''tool'' \<and> ToolCallID m = te_ID e
      \<and> te_Result e = result_of L m \<and> te_Failed e = matches_fold failureSignal (result_of L m)"
    if "e \<in> set es" for e
  proof -
    have "te_ID e \<in> set (results_of ms)" using that es(1) sub by (metis image_eqI list.set_map subsetD)
    with table_okD [OF ok es(3) [OF that]] show ?thesis by (simp add: evidence_ok_def)
  qed
  show "\<exists>e\<in>set es. te_ID e = ToolCallID m \<and> te_Result e = result_of L m"
    if m: "m \<in> set ms" "Role m = ''tool''"
  proof -
    have "ToolCallID m \<in> set (calls_of ms)"
      using m results_subset [OF ord] by (auto simp: results_of_def)
    then obtain e where e: "e \<in> set es" "te_ID e = ToolCallID m"
      using es(1) by (metis imageE list.set_map)
    with * [OF e(1)] obtain m' where "m' \<in> set ms" "Role m' = ''tool''"
      "ToolCallID m' = te_ID e" "te_Result e = result_of L m'" by blast
    with m e unique_result [OF results_distinct [OF ord], of m m'] show ?thesis by auto
  qed
qed

lemma ledger_pending_iff:
  assumes bal: "balanced ms"
  shows "Pending (buildAgentLedger L ms) \<noteq> [] \<longleftrightarrow>
    (\<exists>m\<in>set ms. Role m = ''tool'' \<and> trim_space (contentToString L (Content m)) = [])"
proof -
  define es where "es = map (evidence (call_table L ms)) (snd (call_table L ms))"
  have "Pending (buildAgentLedger L ms) = filter (\<lambda>e. te_Result e = []) es"
    by (simp add: buildAgentLedger_run ledger_run_lists es_def)
  then have "Pending (buildAgentLedger L ms) \<noteq> [] \<longleftrightarrow> (\<exists>e\<in>set es. te_Result e = [])"
    by (auto simp: filter_empty_conv)
  also have "\<dots> \<longleftrightarrow> (\<exists>m\<in>set ms. Role m = ''tool'' \<and> result_of L m = [])"
    using evidence_of_result [OF bal, where L = L, folded es_def] by metis
  finally show ?thesis by (simp add: result_of_def compactToolResult_empty)
qed

lemma last_user_from_spec:
  "last_user_from i found ms = (if \<exists>m\<in>set ms. Role m = ''user''
     then int i + int (length ms) - 1 - int (length (takeWhile (\<lambda>m. Role m \<noteq> ''user'') (rev ms)))
     else found)"
proof (induction ms arbitrary: i found)
  case (Cons m ms)
  show ?case
  proof (cases "\<exists>m\<in>set ms. Role m = ''user''")
    case True
    then have "takeWhile (\<lambda>m. Role m \<noteq> ''user'') (rev ms @ [m]) = takeWhile (\<lambda>m. Role m \<noteq> ''user'') (rev ms)"
      by (auto intro!: takeWhile_append1)
    with True Cons.IH show ?thesis by simp
  next
    case False
    then have "takeWhile (\<lambda>m. Role m \<noteq> ''user'') (rev ms @ [m])
        = rev ms @ takeWhile (\<lambda>m. Role m \<noteq> ''user'') [m]"
      by (intro takeWhile_append2) auto
    with False Cons.IH show ?thesis by auto
  qed
qed simp

lemma filterCompletedCalls_mem:
  "c \<in> set (filterCompletedCalls L calls l) \<longleftrightarrow>
     c \<in> set calls \<and> \<not> hasCompleted L l (dc_Name c) (dc_Arguments c)"
  by (auto simp: filterCompletedCalls_def)

lemma maxToolRounds_bounds: "1 \<le> maxToolRounds env configured \<and> maxToolRounds env configured \<le> 512"
  by (auto simp: maxToolRounds_def split: option.splits)

section \<open>Properties\<close>

lemma accepted_in_order: "validateToolConversation ms = Inr () \<Longrightarrow> in_order ms"
  by (simp add: validateToolConversation_ok balanced_def)

lemma accepted_balanced: "validateToolConversation ms = Inr () \<Longrightarrow> balanced ms"
  by (simp add: validateToolConversation_ok)

text \<open>
  C19: for a conversation the validator accepts, the ledger files every issued call exactly once,
  as completed or as pending, and counts each of them as a tool round.
\<close>
theorem ledger_accounts_for_every_call:
  assumes "validateToolConversation ms = Inr ()"
  shows "mset (map te_ID (Completed (buildAgentLedger L ms)))
      + mset (map te_ID (Pending (buildAgentLedger L ms))) = mset (calls_of ms)
    \<and> ToolRounds (buildAgentLedger L ms) = length (calls_of ms)"
  using ledger_accounts_mset [OF accepted_in_order [OF assms], of L] by simp

text \<open>
  the evidence of a completed call is the compacted content of the one tool message that
  answers it, and it is marked failed exactly when the failure vocabulary matches that text.
\<close>
theorem completed_evidence_is_the_result:
  assumes "validateToolConversation ms = Inr ()" and "e \<in> set (Completed (buildAgentLedger L ms))"
  shows "\<exists>m\<in>set ms. Role m = ''tool'' \<and> ToolCallID m = te_ID e
    \<and> te_Result e = compactToolResult (contentToString L (Content m)) 4000
    \<and> te_Failed e = matches_fold failureSignal (te_Result e)"
proof -
  define es where "es = map (evidence (call_table L ms)) (snd (call_table L ms))"
  have "e \<in> set es"
    using assms(2) by (simp add: buildAgentLedger_run ledger_run_lists es_def)
  from evidence_of_result(1) [OF accepted_balanced [OF assms(1)], of e L, folded es_def, OF this]
  show ?thesis by (auto simp: result_of_def)
qed

text \<open>
  the gateway refuses to continue a conversation whose every call has its result, and whose
  number of calls is below the limit, exactly when the text of some result is blank: the ledger
  takes an empty result for a pending one.
\<close>
theorem blank_result_blocks_the_next_turn:
  assumes "validateToolConversation ms = Inr ()" and "0 < n" and "int (length (calls_of ms)) < n"
  shows "CanContinue (buildAgentLedger L ms) n = Inl PendingToolResults \<longleftrightarrow>
    (\<exists>m\<in>set ms. Role m = ''tool'' \<and> trim_space (contentToString L (Content m)) = [])"
  using assms(2,3) ledger_accounts_mset(2) [OF accepted_in_order [OF assms(1)], of L]
    ledger_pending_iff [OF accepted_balanced [OF assms(1)], of L]
  by (auto simp: CanContinue_def Let_def)

text \<open>
  the ledger reports a repeated call exactly when two calls agree in name and arguments, and
  a repeated failure exactly when two failed calls also agree in the normalised failure text.
\<close>
theorem ledger_reports_repetition:
  "RepeatedCall (buildAgentLedger L ms) =
      (\<not> distinct (map call_sig (map (evidence (call_table L ms)) (snd (call_table L ms)))))
    \<and> RepeatedFailure (buildAgentLedger L ms) =
      (\<not> distinct (map failure_sig (failures (map (evidence (call_table L ms)) (snd (call_table L ms))))))"
  by (simp add: ledger_facts)

text \<open>
  a compacted tool result is never longer than the larger of 200 bytes and the limit, the
  truncation notice included.
\<close>
theorem compactToolResult_bounded:
  assumes "int (length s) < 2 ^ 63"
  shows "int (length (compactToolResult s limit)) \<le> max 200 limit"
  using assms by (rule compactToolResult_length)

theorem compactToolResult_bounded_witness:
  "int (length (compactToolResult (replicate 300 (CHR ''x'')) 50)) \<le> 200"
  using compactToolResult_bounded [of "replicate 300 (CHR ''x'')" 50] by simp

definition example_lib :: golib where
  "example_lib = \<lparr>marshal = (\<lambda>v. case v of JStr s \<Rightarrow> s | _ \<Rightarrow> ''?''), unmarshal = (\<lambda>s. Some (JStr s)),
     sprint_composite = (\<lambda>_. ''map[]''), sha256_hex = (\<lambda>s. s)\<rparr>"

definition example_run :: "string \<Rightarrow> oaiMsg list" where
  "example_run out = [example_msg ''assistant'' JNull [] [example_call ''a''],
     example_msg ''tool'' (JStr out) ''a'' []]"

lemma example_run_ok: "validateToolConversation (example_run out) = Inr ()"
  by (simp add: example_run_def example_simps)

lemma example_done: "trim_space ''done'' = ''done''"
  by code_simp

lemma example_blank: "trim_space '' '' = []"
  by code_simp

theorem ledger_accounts_for_every_call_witness:
  "ToolRounds (buildAgentLedger example_lib (example_run ''done'')) = 1"
  using ledger_accounts_for_every_call [OF example_run_ok, of example_lib "''done''"]
  by (simp add: example_run_def example_simps)

theorem blank_result_blocks_the_next_turn_witness:
  "CanContinue (buildAgentLedger example_lib (example_run '' '')) 32 = Inl PendingToolResults"
  using blank_result_blocks_the_next_turn [OF example_run_ok, of 32 "'' ''" example_lib]
  by (simp add: example_run_def example_simps contentToString_def example_blank)

lemma example_run_completed:
  "\<exists>e. Completed (buildAgentLedger example_lib (example_run ''done'')) = [e] \<and> te_ID e = ''a''"
  by (simp add: example_run_def example_call_def example_msg_def buildAgentLedger_run ledger_run_lists
      call_table_def record_message_def record_call_def record_result_def evidence_def
      example_done compactToolResult_def contentToString_def get_def lookup_def as_str_def Let_def)

theorem completed_evidence_is_the_result_witness:
  "\<exists>e. Completed (buildAgentLedger example_lib (example_run ''done'')) = [e]
    \<and> te_Result e = ''done'' \<and> te_Failed e = matches_fold failureSignal ''done''"
proof -
  obtain e where e: "Completed (buildAgentLedger example_lib (example_run ''done'')) = [e]"
    using example_run_completed by blast
  then have "e \<in> set (Completed (buildAgentLedger example_lib (example_run ''done'')))" by simp
  from completed_evidence_is_the_result [OF example_run_ok this]
  have "te_Result e = ''done'' \<and> te_Failed e = matches_fold failureSignal (te_Result e)"
    by (auto simp: example_run_def example_msg_def contentToString_def compactToolResult_def example_done)
  with e show ?thesis by auto
qed

end
