(* ===== verification/JsonSchema.thy ===== *)
theory JsonSchema
  imports GoJson
begin

text \<open>
  The JSON-schema check of tool arguments, src/internal/web/tooldecision.go: \<open>toolFunction\<close>,
  \<open>schemaValid\<close> and \<open>validateJSONSchema\<close>.  The declarative reading is the relation \<open>conforms\<close>;
  the validator accepts exactly the conforming values, and since Go visits the entries of a map in
  no fixed order, its verdict must not depend on that order (\<open>reordered\<close>).
\<close>

section \<open>The validator\<close>

datatype schema_error =
    NotInEnum string
  | MustBe string string
  | MissingRequired string
  | NotAllowed string string

fun first_error :: "('e + unit) list \<Rightarrow> 'e + unit" where
  "first_error [] = Inr ()"
| "first_error (Inl e # rs) = Inl e"
| "first_error (Inr u # rs) = first_error rs"

lemma first_error_ok: "first_error rs = Inr () \<longleftrightarrow> (\<forall>r\<in>set rs. r = Inr ())"
  by (induction rs rule: first_error.induct) auto

definition toolFunction :: "string \<Rightarrow> obj list \<Rightarrow> obj option" where
  "toolFunction name tools =
     (case find (\<lambda>t. as_str (get (as_obj (get t ''function'')) ''name'') = name) tools of
        None \<Rightarrow> None
      | Some t \<Rightarrow> is_obj (get t ''function''))"

text \<open>The \<open>enum\<close> test compares encodings.\<close>

definition enum_ok :: "golib \<Rightarrow> json \<Rightarrow> obj \<Rightarrow> bool" where
  "enum_ok L v schema = (case is_arr (get schema ''enum'') of
      None \<Rightarrow> True
    | Some enums \<Rightarrow> list_ex (\<lambda>e. marshal L v = marshal L e) enums)"

definition schema_type :: "obj \<Rightarrow> string" where
  "schema_type schema = as_str (get schema ''type'')"

definition properties_of :: "obj \<Rightarrow> obj" where
  "properties_of schema = as_obj (get schema ''properties'')"

definition missing_required :: "obj \<Rightarrow> obj \<Rightarrow> string option" where
  "missing_required m schema = (case is_arr (get schema ''required'') of
      None \<Rightarrow> None
    | Some req \<Rightarrow> find (\<lambda>n. lookup m n = None) (map as_str req))"

definition undeclared_key :: "obj \<Rightarrow> obj \<Rightarrow> string option" where
  "undeclared_key m schema =
     (if get schema ''additionalProperties'' = JBool False
      then find (\<lambda>n. lookup (properties_of schema) n = None) (map fst m) else None)"

definition index_path :: "string \<Rightarrow> nat \<Rightarrow> string" where
  "index_path path i = path @ ''['' @ itoa (int i) @ '']''"

definition scalar_check :: "string \<Rightarrow> json \<Rightarrow> string \<Rightarrow> schema_error + unit" where
  "scalar_check typ v path =
     (if typ = ''string'' then (if is_str v = None then Inl (MustBe path typ) else Inr ())
      else if typ = ''number'' then (if is_num v = None then Inl (MustBe path typ) else Inr ())
      else if typ = ''integer'' then
        (case is_num v of
           None \<Rightarrow> Inl (MustBe path typ)
         | Some n \<Rightarrow> if float_integral n then Inr () else Inl (MustBe path typ))
      else if typ = ''boolean'' then (if is_bool v = None then Inl (MustBe path typ) else Inr ())
      else if typ = ''null'' then (if v \<noteq> JNull then Inl (MustBe path typ) else Inr ())
      else Inr ())"

lemma size_entry: "(n, v) \<in> set m \<Longrightarrow> size v < size (JObj m)"
  by (induction m) auto

lemma size_element: "v \<in> set xs \<Longrightarrow> size v < size (JArr xs)"
  by (induction xs) auto

lemma size_enumerated: "(i, v) \<in> set (enumerate k xs) \<Longrightarrow> size v < size (JArr xs)"
  by (rule size_element) (auto simp: in_set_enumerate_eq)

function validateJSONSchema :: "golib \<Rightarrow> json \<Rightarrow> obj \<Rightarrow> string \<Rightarrow> schema_error + unit" where
  "validateJSONSchema L v schema path =
     (if \<not> enum_ok L v schema then Inl (NotInEnum path)
      else if schema_type schema = ''object'' then
        (case v of
           JObj m \<Rightarrow>
             (case missing_required m schema of
                Some n \<Rightarrow> Inl (MissingRequired n)
              | None \<Rightarrow>
                  (case undeclared_key m schema of
                     Some n \<Rightarrow> Inl (NotAllowed path n)
                   | None \<Rightarrow> first_error (map (\<lambda>(n, x).
                       case is_obj (get (properties_of schema) n) of
                         None \<Rightarrow> Inr ()
                       | Some ps \<Rightarrow> validateJSONSchema L x ps (path @ ''.'' @ n)) m)))
         | _ \<Rightarrow> Inl (MustBe path ''object''))
      else if schema_type schema = ''array'' then
        (case v of
           JArr xs \<Rightarrow>
             (case is_obj (get schema ''items'') of
                None \<Rightarrow> Inr ()
              | Some item \<Rightarrow> first_error (map (\<lambda>(i, x).
                  validateJSONSchema L x item (index_path path i)) (enumerate 0 xs)))
         | _ \<Rightarrow> Inl (MustBe path ''array''))
      else scalar_check (schema_type schema) v path)"
  by pat_completeness auto
termination
  by (relation "measure (\<lambda>(L, v, schema, path). size v)") (auto dest: size_entry size_enumerated)

declare validateJSONSchema.simps [simp del]

definition schemaValid :: "golib \<Rightarrow> obj \<Rightarrow> obj \<Rightarrow> schema_error + unit" where
  "schemaValid L args fn = (case is_obj (get fn ''parameters'') of
      None \<Rightarrow> Inr ()
    | Some params \<Rightarrow> validateJSONSchema L (JObj args) params ''arguments'')"

section \<open>What conforming means\<close>

definition required_present :: "obj \<Rightarrow> obj \<Rightarrow> bool" where
  "required_present m schema \<longleftrightarrow>
     (\<forall>req. get schema ''required'' = JArr req \<longrightarrow> (\<forall>r\<in>set req. as_str r \<in> fst ` set m))"

definition keys_declared :: "obj \<Rightarrow> obj \<Rightarrow> bool" where
  "keys_declared m schema \<longleftrightarrow>
     (get schema ''additionalProperties'' = JBool False \<longrightarrow>
        fst ` set m \<subseteq> fst ` set (properties_of schema))"

definition scalar_ok :: "string \<Rightarrow> json \<Rightarrow> bool" where
  "scalar_ok typ v \<longleftrightarrow>
     (typ = ''string'' \<longrightarrow> (\<exists>s. v = JStr s)) \<and>
     (typ = ''number'' \<longrightarrow> (\<exists>n. v = JNum n)) \<and>
     (typ = ''integer'' \<longrightarrow> (\<exists>n. v = JNum n \<and> float_integral n)) \<and>
     (typ = ''boolean'' \<longrightarrow> (\<exists>b. v = JBool b)) \<and>
     (typ = ''null'' \<longrightarrow> v = JNull)"

inductive conforms :: "golib \<Rightarrow> json \<Rightarrow> obj \<Rightarrow> bool" where
  conforms_object: "enum_ok L (JObj m) schema \<Longrightarrow> schema_type schema = ''object'' \<Longrightarrow>
     required_present m schema \<Longrightarrow> keys_declared m schema \<Longrightarrow>
     (\<forall>n x ps. (n, x) \<in> set m \<longrightarrow> get (properties_of schema) n = JObj ps \<longrightarrow> conforms L x ps) \<Longrightarrow>
     conforms L (JObj m) schema"
| conforms_array: "enum_ok L (JArr xs) schema \<Longrightarrow> schema_type schema = ''array'' \<Longrightarrow>
     (\<forall>item x. get schema ''items'' = JObj item \<longrightarrow> x \<in> set xs \<longrightarrow> conforms L x item) \<Longrightarrow>
     conforms L (JArr xs) schema"
| conforms_scalar: "enum_ok L v schema \<Longrightarrow> schema_type schema \<noteq> ''object'' \<Longrightarrow>
     schema_type schema \<noteq> ''array'' \<Longrightarrow> scalar_ok (schema_type schema) v \<Longrightarrow>
     conforms L v schema"

inductive_simps conforms_iff: "conforms L v schema"

lemma lookup_None_iff: "lookup m n = None \<longleftrightarrow> n \<notin> fst ` set m"
  by (simp add: lookup_def map_of_eq_None_iff)

lemma missing_required_iff: "missing_required m schema = None \<longleftrightarrow> required_present m schema"
  by (auto simp: missing_required_def required_present_def find_None_all lookup_None_iff
      split: option.splits)

lemma undeclared_key_iff: "undeclared_key m schema = None \<longleftrightarrow> keys_declared m schema"
  by (auto simp: undeclared_key_def keys_declared_def find_None_all lookup_None_iff)

lemma scalar_check_iff: "scalar_check typ v path = Inr () \<longleftrightarrow> scalar_ok typ v"
  by (cases v) (auto simp: scalar_check_def scalar_ok_def)

lemma fields_ok_iff:
  "first_error (map (\<lambda>(n, x). case is_obj (get props n) of None \<Rightarrow> Inr ()
       | Some ps \<Rightarrow> f x ps n) m) = Inr () \<longleftrightarrow>
     (\<forall>n x ps. (n, x) \<in> set m \<longrightarrow> get props n = JObj ps \<longrightarrow> f x ps n = Inr ())"
proof -
  have "(case is_obj (get props n) of None \<Rightarrow> Inr () | Some ps \<Rightarrow> f x ps n) = Inr () \<longleftrightarrow>
      (\<forall>ps. get props n = JObj ps \<longrightarrow> f x ps n = Inr ())" for n x
    by (cases "get props n") auto
  then show ?thesis by (force simp: first_error_ok)
qed

lemma items_ok_iff:
  "first_error (map (\<lambda>(i, x). f x i) (enumerate k xs)) = Inr () \<longleftrightarrow>
     (\<forall>i<length xs. f (xs ! i) (k + i) = Inr ())"
  by (induction xs arbitrary: k) (auto simp: first_error_ok All_less_Suc2)

text \<open>The validator accepts exactly the conforming values, whatever path it reports errors under.\<close>

lemma validate_iff_conforms: "validateJSONSchema L v schema path = Inr () \<longleftrightarrow> conforms L v schema"
proof (induction v arbitrary: schema path rule: measure_induct_rule [where f = size])
  case (less v)
  show ?case
  proof (cases "enum_ok L v schema")
    case False
    then show ?thesis by (subst validateJSONSchema.simps) (auto elim: conforms.cases)
  next
    case enum: True
    consider (obj) "schema_type schema = ''object''" | (arr) "schema_type schema = ''array''"
      | (sc) "schema_type schema \<noteq> ''object''" "schema_type schema \<noteq> ''array''" by blast
    then show ?thesis
    proof cases
      case obj
      show ?thesis
      proof (cases "is_obj v")
        case None
        with enum obj show ?thesis
          by (subst validateJSONSchema.simps) (cases v; auto elim: conforms.cases)
      next
        case (Some m)
        then have v: "v = JObj m" by simp
        have IH: "validateJSONSchema L x ps q = Inr () \<longleftrightarrow> conforms L x ps"
          if "(n, x) \<in> set m" for n x ps q
          using less.IH [of x ps q] size_entry [OF that] by (simp add: v)
        have "validateJSONSchema L v schema path = Inr () \<longleftrightarrow>
            required_present m schema \<and> keys_declared m schema \<and>
            (\<forall>n x ps. (n, x) \<in> set m \<longrightarrow> get (properties_of schema) n = JObj ps \<longrightarrow>
               validateJSONSchema L x ps (path @ ''.'' @ n) = Inr ())"
          using enum obj by (subst validateJSONSchema.simps)
            (auto simp: v fields_ok_iff missing_required_iff [symmetric]
              undeclared_key_iff [symmetric] split: option.splits)
        also have "\<dots> \<longleftrightarrow> conforms L v schema"
          using enum obj IH by (subst conforms_iff) (auto simp: v)
        finally show ?thesis .
      qed
    next
      case arr
      show ?thesis
      proof (cases "is_arr v")
        case None
        with enum arr show ?thesis
          by (subst validateJSONSchema.simps) (cases v; auto elim: conforms.cases)
      next
        case (Some xs)
        then have v: "v = JArr xs" by simp
        have IH: "validateJSONSchema L x item q = Inr () \<longleftrightarrow> conforms L x item"
          if "x \<in> set xs" for x item q
          using less.IH [of x item q] size_element [OF that] by (simp add: v)
        have "validateJSONSchema L v schema path = Inr () \<longleftrightarrow>
            (\<forall>item. get schema ''items'' = JObj item \<longrightarrow>
              (\<forall>i<length xs. validateJSONSchema L (xs ! i) item (index_path path i) = Inr ()))"
          using enum arr by (subst validateJSONSchema.simps)
            (auto simp: v items_ok_iff [where k = 0, simplified] split: option.splits)
        also have "\<dots> \<longleftrightarrow>
            (\<forall>item. get schema ''items'' = JObj item \<longrightarrow> (\<forall>x\<in>set xs. conforms L x item))"
          using IH by (simp add: all_set_conv_all_nth)
        also have "\<dots> \<longleftrightarrow> conforms L v schema"
          using enum arr by (subst conforms_iff) (auto simp: v)
        finally show ?thesis .
      qed
    next
      case sc
      with enum show ?thesis
        by (subst validateJSONSchema.simps) (auto simp: scalar_check_iff elim: conforms.cases intro: conforms_scalar)
    qed
  qed
qed

section \<open>Map iteration order\<close>

text \<open>The same value with the entries of its maps, at any depth, visited in another order.\<close>

inductive reordered :: "json \<Rightarrow> json \<Rightarrow> bool" where
  same: "reordered v v"
| permute: "mset m = mset m' \<Longrightarrow> reordered (JObj m) (JObj m')"
| in_field: "reordered v v' \<Longrightarrow> reordered (JObj (pre @ (k, v) # post)) (JObj (pre @ (k, v') # post))"
| in_element: "reordered v v' \<Longrightarrow> reordered (JArr (pre @ v # post)) (JArr (pre @ v' # post))"
| compose: "reordered u v \<Longrightarrow> reordered v w \<Longrightarrow> reordered u w"

lemma reordered_sym: "reordered v v' \<Longrightarrow> reordered v' v"
  by (induction rule: reordered.induct) (auto intro: reordered.intros)

text \<open>\<open>json.Marshal\<close> sorts the keys of a map, so its output does not depend on the order.\<close>

definition marshal_sorts_keys :: "golib \<Rightarrow> bool" where
  "marshal_sorts_keys L \<longleftrightarrow> (\<forall>v v'. reordered v v' \<longrightarrow> marshal L v = marshal L v')"

lemma enum_ok_reordered:
  "marshal_sorts_keys L \<Longrightarrow> reordered v v' \<Longrightarrow> enum_ok L v' schema = enum_ok L v schema"
proof -
  assume "marshal_sorts_keys L" "reordered v v'"
  then have "marshal L v' = marshal L v" by (simp add: marshal_sorts_keys_def)
  then show ?thesis by (simp add: enum_ok_def split: option.split)
qed

lemma object_conforms:
  "schema_type schema = ''object'' \<Longrightarrow> conforms L (JObj m) schema \<longleftrightarrow>
     enum_ok L (JObj m) schema \<and> required_present m schema \<and> keys_declared m schema
     \<and> (\<forall>n x ps. (n, x) \<in> set m \<longrightarrow> get (properties_of schema) n = JObj ps \<longrightarrow> conforms L x ps)"
  by (subst conforms_iff) auto

lemma array_conforms:
  "schema_type schema = ''array'' \<Longrightarrow> conforms L (JArr xs) schema \<longleftrightarrow> enum_ok L (JArr xs) schema
     \<and> (\<forall>item x. get schema ''items'' = JObj item \<longrightarrow> x \<in> set xs \<longrightarrow> conforms L x item)"
  by (subst conforms_iff) auto

lemma scalar_conforms:
  "schema_type schema \<noteq> ''object'' \<Longrightarrow> schema_type schema \<noteq> ''array'' \<Longrightarrow>
     conforms L v schema \<longleftrightarrow> enum_ok L v schema \<and> scalar_ok (schema_type schema) v"
  by (subst conforms_iff) auto

lemma wrong_shape: "schema_type schema = ''object'' \<Longrightarrow> \<not> conforms L (JArr xs) schema"
  "schema_type schema = ''array'' \<Longrightarrow> \<not> conforms L (JObj m) schema"
  by (auto elim: conforms.cases)

lemma conforms_reordered:
  assumes law: "marshal_sorts_keys L"
  shows "reordered v v' \<Longrightarrow> conforms L v schema \<longleftrightarrow> conforms L v' schema"
proof (induction arbitrary: schema rule: reordered.induct)
  case (permute m m')
  then have set: "set m = set m'" by (metis set_mset_mset)
  have enum: "enum_ok L (JObj m') schema = enum_ok L (JObj m) schema"
    by (rule enum_ok_reordered [OF law reordered.permute]) fact
  consider "schema_type schema = ''object''" | "schema_type schema = ''array''"
    | "schema_type schema \<noteq> ''object''" "schema_type schema \<noteq> ''array''" by blast
  then show ?case
  proof cases
    case 1
    show ?thesis
      unfolding object_conforms [OF 1] enum set required_present_def keys_declared_def ..
  next
    case 2
    then show ?thesis by (simp add: wrong_shape)
  next
    case 3
    then show ?thesis by (simp add: scalar_conforms enum scalar_ok_def)
  qed
next
  case (in_field v v' pre k post)
  have enum: "enum_ok L (JObj (pre @ (k, v') # post)) schema = enum_ok L (JObj (pre @ (k, v) # post)) schema"
    by (rule enum_ok_reordered [OF law reordered.in_field]) fact
  consider "schema_type schema = ''object''" | "schema_type schema = ''array''"
    | "schema_type schema \<noteq> ''object''" "schema_type schema \<noteq> ''array''" by blast
  then show ?case
  proof cases
    case 1
    have keys: "fst ` set (pre @ (k, v) # post) = fst ` set (pre @ (k, v') # post)" by simp
    have entries: "(\<forall>n x ps. (n, x) \<in> set (pre @ (k, v) # post) \<longrightarrow>
          get (properties_of schema) n = JObj ps \<longrightarrow> conforms L x ps) \<longleftrightarrow>
        (\<forall>n x ps. (n, x) \<in> set (pre @ (k, v') # post) \<longrightarrow>
          get (properties_of schema) n = JObj ps \<longrightarrow> conforms L x ps)"
      using in_field.IH by auto
    show ?thesis
      unfolding object_conforms [OF 1] enum required_present_def keys_declared_def keys entries ..
  next
    case 2
    then show ?thesis by (simp add: wrong_shape)
  next
    case 3
    then show ?thesis by (simp add: scalar_conforms enum scalar_ok_def)
  qed
next
  case (in_element v v' pre post)
  have enum: "enum_ok L (JArr (pre @ v' # post)) schema = enum_ok L (JArr (pre @ v # post)) schema"
    by (rule enum_ok_reordered [OF law reordered.in_element]) fact
  consider "schema_type schema = ''object''" | "schema_type schema = ''array''"
    | "schema_type schema \<noteq> ''object''" "schema_type schema \<noteq> ''array''" by blast
  then show ?case
  proof cases
    case 1
    then show ?thesis by (simp add: wrong_shape)
  next
    case 2
    with in_element.IH show ?thesis by (auto simp: array_conforms enum)
  next
    case 3
    then show ?thesis by (simp add: scalar_conforms enum scalar_ok_def)
  qed
qed simp_all

section \<open>Properties\<close>

text \<open>
  C18: the schema validator accepts a call's arguments exactly when they conform to the declared
  parameter schema, to any depth of objects and arrays; it is total.
\<close>
theorem schemaValid_iff_conforms:
  "schemaValid L args fn = Inr () \<longleftrightarrow>
     (case get fn ''parameters'' of JObj params \<Rightarrow> conforms L (JObj args) params | _ \<Rightarrow> True)"
  by (cases "get fn ''parameters''") (simp_all add: schemaValid_def validate_iff_conforms)

text \<open>
  whether arguments are accepted does not depend on the order in which Go visits the entries
  of their maps, provided \<open>json.Marshal\<close> sorts the keys of a map.
\<close>
theorem schemaValid_map_order:
  assumes "marshal_sorts_keys L" and "reordered (JObj args) (JObj args')"
  shows "schemaValid L args fn = Inr () \<longleftrightarrow> schemaValid L args' fn = Inr ()"
  using conforms_reordered [OF assms]
  by (simp add: schemaValid_def validate_iff_conforms split: option.split)

definition scalar_lib :: golib where
  "scalar_lib = \<lparr>marshal = (\<lambda>v. case v of JStr s \<Rightarrow> ''\"'' @ s | JObj _ \<Rightarrow> ''{}'' | _ \<Rightarrow> ''?''),
     unmarshal = (\<lambda>s. None), sprint_composite = (\<lambda>_. ''map[]''), sha256_hex = (\<lambda>s. s)\<rparr>"

lemma scalar_lib_sorts: "marshal_sorts_keys scalar_lib"
proof -
  have "marshal scalar_lib v = marshal scalar_lib v'" if "reordered v v'" for v v'
    using that by (induction rule: reordered.induct) (simp_all add: scalar_lib_def)
  then show ?thesis by (simp add: marshal_sorts_keys_def)
qed

theorem schemaValid_map_order_witness:
  "schemaValid scalar_lib [(''p'', JStr ''x''), (''q'', JNull)] [] = Inr () \<longleftrightarrow>
     schemaValid scalar_lib [(''q'', JNull), (''p'', JStr ''x'')] [] = Inr ()"
proof -
  have "reordered (JObj [(''p'', JStr ''x''), (''q'', JNull)]) (JObj [(''q'', JNull), (''p'', JStr ''x'')])"
    by (rule permute) simp
  from schemaValid_map_order [OF scalar_lib_sorts this] show ?thesis .
qed

end
