(* ===== verification/ToolDecision.thy ===== *)
theory ToolDecision
  imports AgentLedger JsonSchema
begin

text \<open>
  How the gateway finds tool calls in what the upstream model says:
  \<open>extractToolCalls\<close> (src/internal/web/toolloop.go) in \<open><m365-tool-call>\<close> elements,
  \<open>fencedToolCalls\<close> (fenced_tools.go) in fenced blocks, \<open>parseModelToolDecision\<close>
  (model_tool_router.go) in the router's JSON envelope and \<open>nativeToolCalls\<close> (native_tools.go)
  in ChatHub frames; and how many of them one turn may issue
  (\<open>adaptiveToolCallLimit\<close>, \<open>limitToolCalls\<close> of settings.go).
\<close>

section \<open>Declared tools and the tool choice\<close>

definition tool_fn :: "obj \<Rightarrow> obj" where
  "tool_fn t = as_obj (get t ''function'')"

definition toolType :: "string \<Rightarrow> obj list \<Rightarrow> string" where
  "toolType name tools =
     (case find (\<lambda>t. as_str (get (tool_fn t) ''name'') = name \<and> as_str (get t ''type'') \<noteq> []) tools of
        None \<Rightarrow> ''function''
      | Some t \<Rightarrow> as_str (get t ''type''))"

definition allowedToolNames :: "obj list \<Rightarrow> string set" where
  "allowedToolNames tools =
     set (filter (\<lambda>n. n \<noteq> []) (map (\<lambda>t. as_str (get (tool_fn t) ''name'')) tools))"

definition toolChoiceAllows :: "json \<Rightarrow> string \<Rightarrow> bool" where
  "toolChoiceAllows choice name =
     (case choice of
        JNull \<Rightarrow> True
      | JStr s \<Rightarrow> s \<noteq> ''none'' \<and> (s \<noteq> ''required'' \<or> name \<noteq> [])
      | JObj m \<Rightarrow>
          (case is_obj (get m ''function'') of
             Some f \<Rightarrow> as_str (get f ''name'') = name
           | None \<Rightarrow> (case is_str (get m ''name'') of Some n \<Rightarrow> n = name | None \<Rightarrow> True))
      | _ \<Rightarrow> True)"

definition normalizedToolChoiceMode :: "json \<Rightarrow> string" where
  "normalizedToolChoiceMode choice =
     (case choice of
        JNull \<Rightarrow> ''auto''
      | JStr s \<Rightarrow> s
      | JObj m \<Rightarrow>
          (case is_str (get (as_obj (get m ''function'')) ''name'') of
             Some n \<Rightarrow> ''named:'' @ n
           | None \<Rightarrow> (case is_str (get m ''name'') of Some n \<Rightarrow> ''named:'' @ n | None \<Rightarrow> ''auto''))
      | _ \<Rightarrow> ''auto'')"

definition callID :: "golib \<Rightarrow> string \<Rightarrow> string \<Rightarrow> nat \<Rightarrow> string" where
  "callID L name args i =
     ''call_'' @ take 16 (sha256_hex L (itoa (int i) @ '':'' @ name @ '':'' @ args))"

definition scopedCallID :: "golib \<Rightarrow> string \<Rightarrow> string \<Rightarrow> nat \<Rightarrow> string \<Rightarrow> string" where
  "scopedCallID L name args i scope =
     ''call_'' @ take 16 (sha256_hex L (scope @ '':'' @ itoa (int i) @ '':'' @ name @ '':'' @ args))"

text \<open>The tool list declares a function of that name.\<close>

definition declared :: "obj list \<Rightarrow> string \<Rightarrow> bool" where
  "declared tools name \<longleftrightarrow>
     (\<exists>t\<in>set tools. \<exists>f. get t ''function'' = JObj f \<and> as_str (get f ''name'') = name)"

lemma allowed_declared: "n \<in> allowedToolNames tools \<Longrightarrow> declared tools n"
  unfolding declared_def
  by (force simp: allowedToolNames_def tool_fn_def as_obj_def split: option.splits)

lemma toolFunction_declared: "toolFunction name tools = Some f \<Longrightarrow> declared tools name"
  unfolding declared_def
  by (force simp: toolFunction_def split: option.splits dest!: find_Some_mem)

section \<open>Calls in an XML-like element\<close>

text \<open>Go's \<open>s[a:b]\<close>; \<open>None\<close> is the panic of a slice out of range.\<close>

definition go_slice :: "string \<Rightarrow> nat \<Rightarrow> nat \<Rightarrow> string option" where
  "go_slice s a b = (if a \<le> b \<and> b \<le> length s then Some (take (b - a) (drop a s)) else None)"

definition open_tag :: string where "open_tag = ''<m365-tool-call>''"
definition close_tag :: string where "close_tag = ''</m365-tool-call>''"

definition xml_item :: "golib \<Rightarrow> obj list \<Rightarrow> json \<Rightarrow> nat \<Rightarrow> json \<Rightarrow> detectedToolCall list" where
  "xml_item L tools choice i item =
     (case is_obj item of
        None \<Rightarrow> []
      | Some m \<Rightarrow>
          let n = as_str (get m ''name'') in
          if n \<notin> allowedToolNames tools \<or> \<not> toolChoiceAllows choice n then []
          else let a = marshal L (get m ''arguments'') in
            [\<lparr>dc_ID = callID L n a i, dc_Type = toolType n tools, dc_Name = n, dc_Arguments = a\<rparr>])"

text \<open>\<open>None\<close> is a run-time panic.\<close>

definition extractToolCalls ::
    "golib \<Rightarrow> string \<Rightarrow> obj list \<Rightarrow> json \<Rightarrow> (detectedToolCall list \<times> bool) option" where
  "extractToolCalls L text tools choice =
     (case (str_index text open_tag, str_index text close_tag) of
        (Some start, Some stop) \<Rightarrow>
          if stop \<le> start then Some ([], False)
          else (case go_slice text (start + length open_tag) stop of
             None \<Rightarrow> None
           | Some body \<Rightarrow>
               (case unmarshal L body of
                  None \<Rightarrow> Some ([], False)
                | Some raw \<Rightarrow>
                    let items = (case is_arr raw of Some arr \<Rightarrow> arr | None \<Rightarrow> [raw]);
                        out = concat (map (\<lambda>(i, item). xml_item L tools choice i item) (enumerate 0 items))
                    in Some (out, out \<noteq> [])))
      | _ \<Rightarrow> Some ([], False))"

definition xmlToolCalls :: "golib \<Rightarrow> string \<Rightarrow> obj list \<Rightarrow> json \<Rightarrow> detectedToolCall list" where
  "xmlToolCalls L text tools choice =
     (case extractToolCalls L text tools choice of None \<Rightarrow> [] | Some r \<Rightarrow> fst r)"

datatype result_error = ResultIDRequired | UnknownResultID string

definition validateToolResult :: "oaiMsg list \<Rightarrow> string set \<Rightarrow> result_error + unit" where
  "validateToolResult ms known =
     (case find (\<lambda>m. Role m = ''tool'' \<and>
          (ToolCallID m = [] \<or> (known \<noteq> {} \<and> ToolCallID m \<notin> known))) ms of
        None \<Rightarrow> Inr ()
      | Some m \<Rightarrow> if ToolCallID m = [] then Inl ResultIDRequired
          else Inl (UnknownResultID (ToolCallID m)))"

text \<open>
  The slice between the two tags is in range: the closing tag cannot begin inside the opening one,
  whose only \<open><\<close> is its first byte.
\<close>

lemma tags_do_not_overlap:
  assumes o: "has_prefix (drop i s) open_tag" and c: "has_prefix (drop j s) close_tag" and "i < j"
  shows "i + length open_tag \<le> j"
proof (rule ccontr)
  assume "\<not> i + length open_tag \<le> j"
  then have k: "j - i < length open_tag" "0 < j - i" using \<open>i < j\<close> by auto
  have "s ! (i + (j - i)) = open_tag ! (j - i)"
    using o k by (intro has_prefix_drop_nth) auto
  moreover have "s ! (j + 0) = CHR ''<''"
    using has_prefix_drop_nth [OF c, of 0] by (simp add: close_tag_def)
  moreover have "open_tag ! (j - i) \<noteq> CHR ''<''"
    using k by (auto simp: open_tag_def less_Suc_eq nth_Cons')
  ultimately show False using \<open>i < j\<close> by simp
qed

lemma extractToolCalls_total: "extractToolCalls L text tools choice \<noteq> None"
proof -
  have "go_slice text (start + length open_tag) stop \<noteq> None"
    if "str_index text open_tag = Some start" "str_index text close_tag = Some stop" "start < stop"
    for start stop
    using tags_do_not_overlap [of start "text" stop] that
    by (auto simp: go_slice_def dest: str_index_Some)
  then show ?thesis
    by (force simp: extractToolCalls_def Let_def split: option.splits)
qed

section \<open>The router's JSON envelope\<close>

text \<open>
  Decoding into a Go struct: a key matches a field whatever its case and the last matching key
  wins; \<open>null\<close> leaves the zero value; a value of the wrong type is an error.
\<close>

definition struct_field :: "obj \<Rightarrow> string \<Rightarrow> json" where
  "struct_field m k = (case find (\<lambda>(k', _). equal_fold k' k) (rev m) of
      None \<Rightarrow> JNull
    | Some (_, v) \<Rightarrow> v)"

fun decode_string :: "json \<Rightarrow> string option" where
  "decode_string JNull = Some []"
| "decode_string (JStr s) = Some s"
| "decode_string _ = None"

fun decode_map :: "json \<Rightarrow> obj option option" where
  "decode_map JNull = Some None"
| "decode_map (JObj m) = Some (Some m)"
| "decode_map _ = None"

record decision_call =
  call_Name :: string
  call_Arguments :: "obj option"

fun decode_call :: "json \<Rightarrow> decision_call option" where
  "decode_call JNull = Some \<lparr>call_Name = [], call_Arguments = None\<rparr>"
| "decode_call (JObj m) =
     (case (decode_string (struct_field m ''name''), decode_map (struct_field m ''arguments'')) of
        (Some n, Some a) \<Rightarrow> Some \<lparr>call_Name = n, call_Arguments = a\<rparr>
      | _ \<Rightarrow> None)"
| "decode_call _ = None"

fun decode_all :: "('a \<Rightarrow> 'b option) \<Rightarrow> 'a list \<Rightarrow> 'b list option" where
  "decode_all f [] = Some []"
| "decode_all f (x # xs) =
     (case (f x, decode_all f xs) of (Some y, Some ys) \<Rightarrow> Some (y # ys) | _ \<Rightarrow> None)"

fun decode_envelope :: "json \<Rightarrow> decision_call list option" where
  "decode_envelope (JObj m) =
     (case struct_field m ''calls'' of
        JNull \<Rightarrow> Some []
      | JArr xs \<Rightarrow> decode_all decode_call xs
      | _ \<Rightarrow> None)"
| "decode_envelope JNull = Some []"
| "decode_envelope _ = None"

definition fence :: string where "fence = ''```''"

definition strip_fence :: "string \<Rightarrow> string" where
  "strip_fence text0 =
     (let t = trim_space text0 in
      case str_index t fence of
        None \<Rightarrow> t
      | Some i \<Rightarrow> trim_space (trim_prefix (trim_suffix (drop (i + 3) t) fence) ''json''))"

definition accept_call :: "golib \<Rightarrow> obj list \<Rightarrow> json \<Rightarrow> nat \<Rightarrow> decision_call \<Rightarrow> detectedToolCall list" where
  "accept_call L tools choice i c =
     (case (toolFunction (call_Name c) tools, call_Arguments c) of
        (Some fn, Some args) \<Rightarrow>
          if \<not> toolChoiceAllows choice (call_Name c) \<or> schemaValid L args fn \<noteq> Inr () then []
          else let b = marshal L (JObj args) in
            [\<lparr>dc_ID = callID L (call_Name c) b i, dc_Type = toolType (call_Name c) tools,
               dc_Name = call_Name c, dc_Arguments = b\<rparr>]
      | _ \<Rightarrow> [])"

definition parseModelToolDecision ::
    "golib \<Rightarrow> string \<Rightarrow> obj list \<Rightarrow> json \<Rightarrow> detectedToolCall list \<times> bool" where
  "parseModelToolDecision L text0 tools choice =
     (let t = strip_fence text0 in
      case (str_index t ''{'', str_last_index t ''}'') of
        (Some start, Some stop) \<Rightarrow>
          if stop \<le> start then ([], False)
          else (case Option.bind (unmarshal L (take (stop + 1 - start) (drop start t))) decode_envelope of
             None \<Rightarrow> ([], False)
           | Some calls \<Rightarrow>
               (concat (map (\<lambda>(i, c). accept_call L tools choice i c) (enumerate 0 calls)), True))
      | _ \<Rightarrow> ([], False))"

section \<open>Fenced blocks\<close>

text \<open>
  The pattern \<open>```([A-Za-z0-9_-]+)\s*\n(.*?)\n```\<close> with the flag \<open>s\<close>.  The name is a maximal run
  of name bytes, since what follows it is white space; the white space after it must contain a
  line feed, the last possible one first; the body is the shortest one.
\<close>

definition is_name_char :: "char \<Rightarrow> bool" where
  "is_name_char c = (is_word c \<or> c = CHR ''-'')"

definition is_re_space :: "char \<Rightarrow> bool" where
  "is_re_space c = (c \<in> {CHR 0x09, CHR 0x0A, CHR 0x0C, CHR 0x0D, CHR 0x20})"

text \<open>Body and rest, for each line feed of the white space \<open>w\<close>, the last first.\<close>

fun fenced_body :: "nat \<Rightarrow> string \<Rightarrow> (string \<times> string) option" where
  "fenced_body 0 s = None"
| "fenced_body (Suc k) s =
     (if s ! k = CHR 0x0A then
        (case str_index (drop (Suc k) s) (CHR 0x0A # fence) of
           Some j \<Rightarrow> Some (take j (drop (Suc k) s), drop (Suc k + j + 4) s)
         | None \<Rightarrow> fenced_body k s)
      else fenced_body k s)"

definition fenced_match :: "string \<Rightarrow> (string \<times> string \<times> string) option" where
  "fenced_match s =
     (if \<not> has_prefix s fence then None
      else let name = takeWhile is_name_char (drop 3 s);
               rest = drop (3 + length name) s
           in if name = [] then None
              else map_option (\<lambda>(body, rest'). (name, body, rest'))
                (fenced_body (length (takeWhile is_re_space rest)) rest))"

lemma fenced_body_rest: "k \<le> length s \<Longrightarrow> fenced_body k s = Some (b, r) \<Longrightarrow> length r \<le> length s"
  by (induction k) (auto split: if_splits option.splits)

lemma fenced_match_rest: "fenced_match s = Some (n, b, r) \<Longrightarrow> length r < length s"
  by (cases s) (auto simp: fenced_match_def fence_def Let_def has_prefix_def split: if_splits
      dest!: fenced_body_rest [OF length_takeWhile_le])

function fenced_matches :: "string \<Rightarrow> (string \<times> string) list" where
  "fenced_matches [] = []"
| "fenced_matches (c # s) =
     (case fenced_match (c # s) of
        Some (name, body, rest) \<Rightarrow> (name, body) # fenced_matches rest
      | None \<Rightarrow> fenced_matches s)"
  by pat_completeness auto
termination
  by (relation "measure length") (auto dest: fenced_match_rest)

fun fenced_loop ::
    "golib \<Rightarrow> obj list \<Rightarrow> json \<Rightarrow> detectedToolCall list \<Rightarrow> (string \<times> string) list \<Rightarrow> detectedToolCall list" where
  "fenced_loop L tools choice out [] = out"
| "fenced_loop L tools choice out ((name, body) # ms) =
     (if name \<notin> allowedToolNames tools \<or> \<not> toolChoiceAllows choice name
      then fenced_loop L tools choice out ms
      else (case unmarshal L (trim_space body) of
         None \<Rightarrow> fenced_loop L tools choice out ms
       | Some v \<Rightarrow>
           let b = marshal L v;
               c = \<lparr>dc_ID = callID L name b (length out), dc_Type = toolType name tools,
                    dc_Name = name, dc_Arguments = b\<rparr>
           in fenced_loop L tools choice (out @ [c]) ms))"

definition fencedToolCalls :: "golib \<Rightarrow> string \<Rightarrow> obj list \<Rightarrow> json \<Rightarrow> detectedToolCall list" where
  "fencedToolCalls L text0 tools choice = fenced_loop L tools choice [] (fenced_matches text0)"

section \<open>Calls in ChatHub frames\<close>

text \<open>\<open>struct \{ Name string \}\<close>; a failed decode leaves the tool out.\<close>

definition native_tool_name :: "golib \<Rightarrow> chathub_tool \<Rightarrow> string" where
  "native_tool_name L t = (case unmarshal L (tool_Function t) of
      Some (JObj m) \<Rightarrow> (case decode_string (struct_field m ''name'') of Some n \<Rightarrow> n | None \<Rightarrow> [])
    | _ \<Rightarrow> [])"

definition native_allowed :: "golib \<Rightarrow> chathub_tool list \<Rightarrow> string set" where
  "native_allowed L tools = set (filter (\<lambda>n. n \<noteq> []) (map (native_tool_name L) tools))"

definition first_allowed :: "obj \<Rightarrow> string set \<Rightarrow> string list \<Rightarrow> string" where
  "first_allowed x allowed ks =
     (case find (\<lambda>k. case get x k of JStr s \<Rightarrow> s \<in> allowed | _ \<Rightarrow> False) ks of
        None \<Rightarrow> []
      | Some k \<Rightarrow> as_str (get x k))"

definition first_present :: "obj \<Rightarrow> string list \<Rightarrow> json" where
  "first_present x ks = (case find (\<lambda>k. lookup x k \<noteq> None) ks of None \<Rightarrow> JNull | Some k \<Rightarrow> get x k)"

definition argument_keys :: "string list" where
  "argument_keys = [''arguments'', ''args'', ''parameters'', ''input'', ''functionArguments'']"

function walkNative :: "golib \<Rightarrow> json \<Rightarrow> string set \<Rightarrow> detectedToolCall list" where
  "walkNative L (JArr xs) allowed = concat (map (\<lambda>y. walkNative L y allowed) xs)"
| "walkNative L (JObj x) allowed =
     (let name = first_allowed x allowed [''name'', ''toolName'', ''pluginName'', ''functionName'', ''id''];
          a = first_present x argument_keys
      in if name \<noteq> [] \<and> a \<noteq> JNull then
           [\<lparr>dc_ID = ''call_'' @ take 16 (sha256_hex L (name @ '':'' @ marshal L a)), dc_Type = [],
              dc_Name = name, dc_Arguments = marshal L a\<rparr>]
         else concat (map (\<lambda>(_, y). walkNative L y allowed) x))"
| "walkNative L JNull allowed = []"
| "walkNative L (JBool b) allowed = []"
| "walkNative L (JNum n) allowed = []"
| "walkNative L (JStr s) allowed = []"
  by pat_completeness auto
termination
  by (relation "measure (\<lambda>(L, v, allowed). size v)") (auto dest: size_entry size_element)

definition nativeToolCalls :: "golib \<Rightarrow> string list \<Rightarrow> chathub_tool list \<Rightarrow> detectedToolCall list" where
  "nativeToolCalls L events tools =
     concat (map (\<lambda>raw. case unmarshal L raw of
        None \<Rightarrow> []
      | Some v \<Rightarrow> walkNative L v (native_allowed L tools)) events)"

section \<open>The client's form of the calls\<close>

definition toolCallMap :: "detectedToolCall \<Rightarrow> json" where
  "toolCallMap c = JObj
     [(''id'', JStr (dc_ID c)),
      (''type'', JStr (if dc_Type c = [] then ''function'' else dc_Type c)),
      (''function'', JObj [(''name'', JStr (dc_Name c)), (''arguments'', JStr (dc_Arguments c))])]"

definition toolCallMaps :: "detectedToolCall list \<Rightarrow> json list" where
  "toolCallMaps calls = map toolCallMap calls"

section \<open>How many calls a turn may issue\<close>

definition toolLooksMutating :: "string \<Rightarrow> bool" where
  "toolLooksMutating name = list_ex (str_contains name)
     [''exec'', ''shell'', ''command'', ''write'', ''edit'', ''update'', ''delete'', ''remove'',
      ''move'', ''rename'', ''create'', ''patch'', ''apply'', ''install'', ''run'']"

definition toolLooksReadOnly :: "string \<Rightarrow> bool" where
  "toolLooksReadOnly name = list_ex (str_contains name)
     [''read'', ''list'', ''search'', ''find'', ''get'', ''fetch'', ''browser'', ''lookup'',
      ''inspect'', ''stat'', ''status'', ''describe'', ''info'']"

definition adaptiveToolCallLimit :: "detectedToolCall list \<Rightarrow> int \<Rightarrow> int" where
  "adaptiveToolCallLimit c configured =
     (if length c < 2 \<or> configured < 2 then 1
      else if list_ex (\<lambda>call.
          let name = to_lower (trim_space (dc_Name call))
          in name = [] \<or> toolLooksMutating name \<or> \<not> toolLooksReadOnly name) c
        then 1
      else configured)"

definition limitToolCalls :: "detectedToolCall list \<Rightarrow> int \<Rightarrow> detectedToolCall list" where
  "limitToolCalls c n0 =
     (let n = (if n0 < 1 then 1 else n0)
      in if int (length c) > n then take (nat n) c else c)"

text \<open>\<open>env\<close> is the value of \<open>M365_MAX_TOOL_CALLS_PER_TURN\<close>, if it is set.\<close>

definition configuredToolCallLimit :: "string option \<Rightarrow> int \<Rightarrow> int" where
  "configuredToolCallLimit env configured =
     (case env of
        Some raw \<Rightarrow> (case atoi (trim_space raw) of
            Some n \<Rightarrow> if 1 \<le> n \<and> n \<le> 64 then n else 1
          | None \<Rightarrow> 1)
      | None \<Rightarrow> configured)"

text \<open>What the handlers do with every list of detected calls.\<close>

definition issue_calls :: "detectedToolCall list \<Rightarrow> int \<Rightarrow> detectedToolCall list" where
  "issue_calls calls configured = limitToolCalls calls (adaptiveToolCallLimit calls configured)"

section \<open>The contract of a detector\<close>

text \<open>
  Three of the detectors see the client's tool list and tool choice.  What the handlers rely on is
  that each call they report names a declared tool that the choice allows; what follows for the
  calls a turn finally issues is proved once, from that contract.
\<close>

lemma issue_calls_subset: "set (issue_calls calls n) \<subseteq> set calls"
  by (auto simp: issue_calls_def limitToolCalls_def Let_def dest: in_set_takeD)

lemma adaptive_limit_bounds: "adaptiveToolCallLimit calls n \<le> max 1 n"
  by (auto simp: adaptiveToolCallLimit_def)

lemma issue_calls_length: "int (length (issue_calls calls n)) \<le> max 1 n"
  using adaptive_limit_bounds [of calls n]
  by (auto simp: issue_calls_def limitToolCalls_def Let_def)

lemma issue_calls_prefix: "\<exists>k. issue_calls calls n = take k calls"
proof (cases "int (length calls) > (if adaptiveToolCallLimit calls n < 1 then 1 else adaptiveToolCallLimit calls n)")
  case True
  then show ?thesis unfolding issue_calls_def limitToolCalls_def Let_def by auto
next
  case False
  then show ?thesis unfolding issue_calls_def limitToolCalls_def Let_def
    by (intro exI [of _ "length calls"]) auto
qed

lemma issue_calls_nonempty: "calls \<noteq> [] \<Longrightarrow> issue_calls calls n \<noteq> []"
  by (auto simp: issue_calls_def limitToolCalls_def Let_def)

locale call_detector =
  fixes detect :: "golib \<Rightarrow> string \<Rightarrow> obj list \<Rightarrow> json \<Rightarrow> detectedToolCall list"
  assumes detected_declared:
      "c \<in> set (detect L src tools choice) \<Longrightarrow> declared tools (dc_Name c)"
    and detected_chosen:
      "c \<in> set (detect L src tools choice) \<Longrightarrow> toolChoiceAllows choice (dc_Name c)"
begin

lemma none_detects_nothing: "detect L src tools (JStr ''none'') = []"
proof -
  have "\<not> toolChoiceAllows (JStr ''none'') n" for n by (simp add: toolChoiceAllows_def)
  then have "c \<notin> set (detect L src tools (JStr ''none''))" for c
    using detected_chosen [of c L src tools "JStr ''none''"] by blast
  then show ?thesis by (cases "detect L src tools (JStr ''none'')") auto
qed

lemma named_choice:
  "choice = JObj m \<Longrightarrow> get m ''function'' = JObj f \<Longrightarrow> c \<in> set (detect L src tools choice) \<Longrightarrow>
    dc_Name c = as_str (get f ''name'')"
  using detected_chosen [of c L src tools choice] by (simp add: toolChoiceAllows_def)

lemma issued_legal:
  assumes "c \<in> set (issue_calls (filterCompletedCalls L (detect L src tools choice) l) n)"
  shows "declared tools (dc_Name c)" and "toolChoiceAllows choice (dc_Name c)"
    and "\<not> hasCompleted L l (dc_Name c) (dc_Arguments c)"
proof -
  have c: "c \<in> set (filterCompletedCalls L (detect L src tools choice) l)"
    using assms issue_calls_subset by blast
  then have d: "c \<in> set (detect L src tools choice)" by (simp add: filterCompletedCalls_mem)
  show "declared tools (dc_Name c)" by (rule detected_declared [OF d])
  show "toolChoiceAllows choice (dc_Name c)" by (rule detected_chosen [OF d])
  show "\<not> hasCompleted L l (dc_Name c) (dc_Arguments c)" using c by (simp add: filterCompletedCalls_mem)
qed

end

lemma xml_item_legal:
  "c \<in> set (xml_item L tools choice i item) \<Longrightarrow>
    dc_Name c \<in> allowedToolNames tools \<and> toolChoiceAllows choice (dc_Name c)"
  by (auto simp: xml_item_def Let_def split: option.splits if_splits)

lemma xmlToolCalls_legal:
  assumes "c \<in> set (xmlToolCalls L src tools choice)"
  shows "dc_Name c \<in> allowedToolNames tools \<and> toolChoiceAllows choice (dc_Name c)"
proof -
  have "\<exists>i item. c \<in> set (xml_item L tools choice i item)"
    using assms
    by (auto simp: xmlToolCalls_def extractToolCalls_def Let_def split: option.splits if_splits)
  then show ?thesis by (auto simp: xml_item_legal)
qed

lemma accept_call_legal:
  "c \<in> set (accept_call L tools choice i d) \<Longrightarrow>
    (\<exists>fn args. toolFunction (dc_Name c) tools = Some fn \<and> schemaValid L args fn = Inr ()
      \<and> dc_Arguments c = marshal L (JObj args)) \<and> toolChoiceAllows choice (dc_Name c)"
  unfolding accept_call_def
  by (cases "toolFunction (call_Name d) tools"; cases "call_Arguments d")
    (auto simp: Let_def split: if_splits)

lemma parseModelToolDecision_mem:
  assumes "c \<in> set (fst (parseModelToolDecision L src tools choice))"
  obtains i d where "c \<in> set (accept_call L tools choice i d)"
  using assms that
  by (auto simp: parseModelToolDecision_def Let_def split: option.splits if_splits prod.splits)

lemma fenced_loop_legal:
  "(\<forall>c\<in>set out. dc_Name c \<in> allowedToolNames tools \<and> toolChoiceAllows choice (dc_Name c)) \<Longrightarrow>
    c \<in> set (fenced_loop L tools choice out ms) \<Longrightarrow>
    dc_Name c \<in> allowedToolNames tools \<and> toolChoiceAllows choice (dc_Name c)"
proof (induction ms arbitrary: out)
  case (Cons m ms)
  obtain name body where m: "m = (name, body)" by (cases m)
  show ?case
  proof (cases "name \<notin> allowedToolNames tools \<or> \<not> toolChoiceAllows choice name")
    case True
    with Cons show ?thesis by (simp add: m)
  next
    case False
    show ?thesis
    proof (cases "unmarshal L (trim_space body)")
      case None
      with Cons False show ?thesis by (simp add: m)
    next
      case (Some v)
      with Cons.prems(2) False show ?thesis
        using Cons.prems(1) by (intro Cons.IH [of "out @ [\<lparr>dc_ID = callID L name (marshal L v) (length out),
          dc_Type = toolType name tools, dc_Name = name, dc_Arguments = marshal L v\<rparr>]"])
          (auto simp: m Let_def)
    qed
  qed
qed simp

lemma fencedToolCalls_legal:
  "c \<in> set (fencedToolCalls L src tools choice) \<Longrightarrow>
    dc_Name c \<in> allowedToolNames tools \<and> toolChoiceAllows choice (dc_Name c)"
  unfolding fencedToolCalls_def by (rule fenced_loop_legal) simp_all

interpretation xml: call_detector xmlToolCalls
  by unfold_locales (auto dest: xmlToolCalls_legal allowed_declared)

interpretation fenced: call_detector fencedToolCalls
  by unfold_locales (auto dest: fencedToolCalls_legal allowed_declared)

interpretation router: call_detector "\<lambda>L src tools choice. fst (parseModelToolDecision L src tools choice)"
  by unfold_locales
    (auto elim!: parseModelToolDecision_mem dest!: accept_call_legal toolFunction_declared)

section \<open>Properties\<close>

text \<open>
  looking for a tool-call element never panics: whatever the text, the slice between the two
  tags is in range.
\<close>
theorem extractToolCalls_never_panics:
  "extractToolCalls L txt tools choice \<noteq> None"
  by (rule extractToolCalls_total)

text \<open>
  with the tool choice \<open>none\<close> no call is found in the model's text, by none of the three
  detectors that read text.
\<close>
theorem choice_none_issues_nothing:
  "xmlToolCalls L txt tools (JStr ''none'') = []
    \<and> fencedToolCalls L txt tools (JStr ''none'') = []
    \<and> fst (parseModelToolDecision L txt tools (JStr ''none'')) = []"
  by (simp add: xml.none_detects_nothing fenced.none_detects_nothing router.none_detects_nothing)

text \<open>
  C17: every call a turn issues from the router's decision names a declared tool that the tool
  choice allows, carries arguments accepted by that tool's schema, and, once the ledger has
  filtered the calls, repeats no completed call.
\<close>
theorem issued_router_call_is_legal:
  assumes "c \<in> set (issue_calls (filterCompletedCalls L (fst (parseModelToolDecision L txt tools choice)) l) n)"
  shows "declared tools (dc_Name c) \<and> toolChoiceAllows choice (dc_Name c)
    \<and> \<not> hasCompleted L l (dc_Name c) (dc_Arguments c)
    \<and> (\<exists>fn args. toolFunction (dc_Name c) tools = Some fn \<and> schemaValid L args fn = Inr ()
         \<and> dc_Arguments c = marshal L (JObj args))"
proof -
  have "c \<in> set (fst (parseModelToolDecision L txt tools choice))"
    using assms issue_calls_subset by (fastforce simp: filterCompletedCalls_def)
  then obtain i d where "c \<in> set (accept_call L tools choice i d)" by (rule parseModelToolDecision_mem)
  with accept_call_legal show ?thesis using router.issued_legal [OF assms] by blast
qed

text \<open>
  a turn issues a prefix of the detected calls, at least one when any was detected, and never
  more than the configured limit; it issues several only when every detected call has a name
  that looks read-only and not mutating.
\<close>
theorem issued_calls_are_limited:
  "(\<exists>k. issue_calls calls n = take k calls)
    \<and> (issue_calls calls n = [] \<longleftrightarrow> calls = [])
    \<and> int (length (issue_calls calls n)) \<le> max 1 n
    \<and> (length (issue_calls calls n) \<le> 1 \<or> list_all (\<lambda>c. toolLooksReadOnly (to_lower (trim_space (dc_Name c)))
         \<and> \<not> toolLooksMutating (to_lower (trim_space (dc_Name c)))) calls)"
proof -
  have "issue_calls calls n = [] \<longleftrightarrow> calls = []"
    using issue_calls_nonempty issue_calls_subset [of calls n] by auto
  moreover have "length (issue_calls calls n) \<le> 1 \<or> list_all (\<lambda>c. toolLooksReadOnly (to_lower (trim_space (dc_Name c)))
         \<and> \<not> toolLooksMutating (to_lower (trim_space (dc_Name c)))) calls"
    by (auto simp: issue_calls_def limitToolCalls_def adaptiveToolCallLimit_def Let_def list_all_iff list_ex_iff)
  ultimately show ?thesis using issue_calls_prefix issue_calls_length by simp
qed

text \<open>
  two calls of a tool named \<open>set_status\<close> are issued in the same turn when the limit allows
  it: the name contains \<open>stat\<close>, so the state-changing call passes for a read-only one.
\<close>
theorem status_writers_run_in_parallel:
  assumes "2 \<le> n"
  shows "issue_calls [\<lparr>dc_ID = ''a'', dc_Type = ''function'', dc_Name = ''set_status'', dc_Arguments = x\<rparr>,
      \<lparr>dc_ID = ''b'', dc_Type = ''function'', dc_Name = ''set_status'', dc_Arguments = y\<rparr>] n
    = [\<lparr>dc_ID = ''a'', dc_Type = ''function'', dc_Name = ''set_status'', dc_Arguments = x\<rparr>,
      \<lparr>dc_ID = ''b'', dc_Type = ''function'', dc_Name = ''set_status'', dc_Arguments = y\<rparr>]"
proof -
  have "to_lower (trim_space ''set_status'') = ''set_status''" by code_simp
  moreover have "\<not> toolLooksMutating ''set_status''" "toolLooksReadOnly ''set_status''" by code_simp+
  ultimately show ?thesis
    using assms by (simp add: issue_calls_def limitToolCalls_def adaptiveToolCallLimit_def Let_def)
qed

theorem status_writers_run_in_parallel_witness:
  "length (issue_calls [\<lparr>dc_ID = ''a'', dc_Type = ''function'', dc_Name = ''set_status'', dc_Arguments = ''{}''\<rparr>,
      \<lparr>dc_ID = ''b'', dc_Type = ''function'', dc_Name = ''set_status'', dc_Arguments = ''{}''\<rparr>] 4) = 2"
  using status_writers_run_in_parallel [of 4 "''{}''" "''{}''"] by simp

definition router_lib :: golib where
  "router_lib = \<lparr>marshal = (\<lambda>_. ''{}''),
     unmarshal = (\<lambda>s. Some (JObj [(''calls'', JArr [JObj [(''name'', JStr ''ls''), (''arguments'', JObj [])]])])),
     sprint_composite = (\<lambda>_. ''map[]''), sha256_hex = (\<lambda>s. s)\<rparr>"

definition ls_tools :: "obj list" where
  "ls_tools = [[(''type'', JStr ''function''), (''function'', JObj [(''name'', JStr ''ls'')])]]"

definition ls_call :: detectedToolCall where
  "ls_call = \<lparr>dc_ID = ''call_0:ls:{}'', dc_Type = ''function'', dc_Name = ''ls'', dc_Arguments = ''{}''\<rparr>"

lemma router_example:
  "issue_calls (filterCompletedCalls router_lib
     (fst (parseModelToolDecision router_lib ''{}'' ls_tools JNull)) empty_ledger) 1 = [ls_call]"
  by code_simp

theorem issued_router_call_is_legal_witness:
  "declared ls_tools ''ls'' \<and> toolChoiceAllows JNull ''ls''
    \<and> \<not> hasCompleted router_lib empty_ledger ''ls'' ''{}''"
proof -
  have "ls_call \<in> set (issue_calls (filterCompletedCalls router_lib
     (fst (parseModelToolDecision router_lib ''{}'' ls_tools JNull)) empty_ledger) 1)"
    by (simp add: router_example)
  from issued_router_call_is_legal [OF this] show ?thesis by (simp add: ls_call_def)
qed

end
