(* ===== verification/Prompts.thy ===== *)
theory Prompts
  imports ToolDecision
begin

text \<open>
  The text the gateway sends upstream: \<open>parseContent\<close> (src/internal/web/multimodal.go), which
  splits a message's content into text and attachments, \<open>flattenPromptMessages\<close> (prompt.go), which
  writes a conversation as one prompt, the evidence of the ledger (\<open>RouterContext\<close>,
  agent_ledger.go), the prompt of the tool router (model_tool_router.go), the fixed texts of
  \<open>openaiChat\<close> (server.go), and \<open>normalizeJSONText\<close> (json_format.go).

  \<open>json.Marshal\<close> of the ledger's evidence, a struct, is the field \<open>ledger_json\<close> of \<open>weblib\<close>.
\<close>

record weblib =
  base :: golib
  ledger_json :: "toolEvidence list \<Rightarrow> toolEvidence list \<Rightarrow> bool \<Rightarrow> string"

section \<open>Content\<close>

definition stringValue :: "obj \<Rightarrow> string list \<Rightarrow> string" where
  "stringValue m keys =
     (case find (\<lambda>k. case get m k of JStr v \<Rightarrow> trim_space v \<noteq> [] | _ \<Rightarrow> False) keys of
        None \<Rightarrow> []
      | Some k \<Rightarrow> as_str (get m k))"

definition image_file :: "string \<Rightarrow> attachment" where
  "image_file u = zero_attachment\<lparr>att_Type := ''image'', att_URL := u, att_MimeType := ''image/*''\<rparr>"

definition part_text :: "obj \<Rightarrow> string" where
  "part_text m =
     (case get m ''text'' of
        JStr v \<Rightarrow> if as_str (get m ''type'') \<in> {''text'', ''input_text'', ''output_text'', []} then v else []
      | _ \<Rightarrow> [])"

definition direct_image :: "obj \<Rightarrow> attachment list" where
  "direct_image m =
     (case get m ''image_url'' of JStr u \<Rightarrow> if u \<noteq> [] then [image_file u] else [] | _ \<Rightarrow> [])"

definition nested_image_url :: "obj \<Rightarrow> attachment list" where
  "nested_image_url m =
     (case get m ''image_url'' of
        JObj u \<Rightarrow> (case get u ''url'' of
            JStr v \<Rightarrow> [(image_file v)\<lparr>att_Detail := as_str (get u ''detail'')\<rparr>]
          | _ \<Rightarrow> [])
      | _ \<Rightarrow> [])"

definition input_image :: "obj \<Rightarrow> attachment list" where
  "input_image m =
     (let u0 = stringValue m [''image_url'', ''url'', ''source''];
          u1 = (case get m ''image_url'' of
                  JObj r \<Rightarrow> stringValue r [''url'', ''data'', ''image_url''] | _ \<Rightarrow> u0);
          u2 = (case get m ''source'' of
                  JObj r \<Rightarrow> if u1 = [] then stringValue r [''url'', ''data'', ''source''] else u1 | _ \<Rightarrow> u1)
      in if u2 \<noteq> [] then [image_file u2] else [])"

definition input_file :: "obj \<Rightarrow> attachment list" where
  "input_file m =
     (let u = stringValue m [''file_data'', ''file_url'', ''url'', ''source'', ''file_id'']
      in if u \<noteq> [] \<or> stringValue m [''filename'', ''name''] \<noteq> []
         then [zero_attachment\<lparr>att_Type := ''file'', att_URL := u,
                 att_Name := stringValue m [''filename'', ''name''],
                 att_MimeType := stringValue m [''mime_type'', ''mimeType'', ''content_type'']\<rparr>]
         else [])"

definition input_audio :: "obj \<Rightarrow> attachment list" where
  "input_audio m =
     (let u = stringValue m [''data'', ''audio_url'', ''url'', ''source'']
      in if u \<noteq> []
         then [zero_attachment\<lparr>att_Type := ''audio'', att_URL := u,
                 att_MimeType := stringValue m [''mime_type'', ''mimeType'', ''format'', ''content_type'']\<rparr>]
         else [])"

definition part_files :: "obj \<Rightarrow> attachment list" where
  "part_files m =
     direct_image m @
     (let typ = as_str (get m ''type'') in
      if typ = ''image_url'' then nested_image_url m
      else if typ \<in> {''input_image'', ''image''} then input_image m
      else if typ \<in> {''input_file'', ''file''} then input_file m
      else if typ \<in> {''input_audio'', ''audio''} then input_audio m
      else [])"

definition parts_of :: "json list \<Rightarrow> obj list" where
  "parts_of xs = concat (map (\<lambda>x. case x of JObj m \<Rightarrow> [m] | _ \<Rightarrow> []) xs)"

definition parseContent :: "golib \<Rightarrow> json \<Rightarrow> string \<times> attachment list" where
  "parseContent L c =
     (case c of
        JStr s \<Rightarrow> (s, [])
      | JArr parts \<Rightarrow>
          (concat (map part_text (parts_of parts)), concat (map part_files (parts_of parts)))
      | _ \<Rightarrow> (go_sprint L c, []))"

section \<open>The prompt\<close>

definition message_role :: "oaiMsg \<Rightarrow> string" where
  "message_role m = (let r = to_lower (trim_space (Role m)) in if r = [] then ''user'' else r)"

definition block :: "string \<Rightarrow> string \<Rightarrow> string" where
  "block heading body = line_feed @ ''['' @ heading @ '']'' @ line_feed @ body @ line_feed"

definition message_block :: "golib \<Rightarrow> oaiMsg \<Rightarrow> string" where
  "message_block L m =
     (let role = message_role m;
          txt = trim_space (fst (parseContent L (Content m)))
      in if ToolCalls m \<noteq> [] then
           (if txt \<noteq> [] then block role txt else [])
           @ block (role @ '' tool_calls'') (marshal L (JArr (map JObj (ToolCalls m))))
         else if role = ''tool'' then
           block (''tool result id='' @ ToolCallID m) (compactToolResult txt 4000)
         else if txt = [] then []
         else block role txt)"

definition flattenPromptMessages ::
    "golib \<Rightarrow> oaiMsg list \<Rightarrow> attachment list \<Rightarrow> string \<times> attachment list" where
  "flattenPromptMessages L ms atts =
     (trim_space (concat (map (message_block L) ms)),
      atts @ concat (map (\<lambda>m. snd (parseContent L (Content m))) ms))"

section \<open>Evidence, router, answer\<close>

definition RouterContext :: "weblib \<Rightarrow> agentLedger \<Rightarrow> string" where
  "RouterContext W l =
     ''Use only this compact evidence. A completed call is final evidence; do not issue the same name and arguments again.''
     @ (if RepeatedFailure l
        then '' The same call failed repeatedly; change strategy instead of retrying unchanged.'' else [])
     @ line_feed @ ''EVIDENCE_LEDGER: '' @ ledger_json W (Completed l) (Pending l) (RepeatedCall l)"

definition modelToolRouterPrompt :: "golib \<Rightarrow> string \<Rightarrow> obj list \<Rightarrow> json \<Rightarrow> string" where
  \<open>modelToolRouterPrompt L prompt tools choice =
     ''Return JSON only for the next tool action.'' @ line_feed
     @ ''Schema: {"calls":[{"name":"function_name","arguments":{}}]}'' @ line_feed
     @ ''Rules: names must come from FUNCTION_DEFINITIONS; arguments must satisfy schemas; ''
     @ ''use the multi-turn evidence; Completed evidence must not be repeated; ''
     @ ''if unfinished work remains, select the next applicable action; ''
     @ ''use [] when no external action is needed; MODE required must return a call; ''
     @ ''no markdown or commentary.'' @ line_feed
     @ ''MODE: '' @ normalizedToolChoiceMode choice @ line_feed
     @ ''FUNCTION_DEFINITIONS: '' @ marshal L (JArr (map JObj tools)) @ line_feed
     @ ''REQUEST_AND_EVIDENCE: '' @ prompt\<close>

text \<open>The Go literal has a backslash and an n where the text of the other path has a line feed.\<close>

definition repair_text :: "bool \<Rightarrow> string \<Rightarrow> string" where
  \<open>repair_text no_invention output =
     ''Repair this tool routing output into JSON only with shape {"calls":[{"name":"function_name","arguments":{}}]}. ''
     @ (if no_invention then ''Do not invent calls; use {"calls":[]} if unrecoverable. OUTPUT:'' @ line_feed
        else ''Use {"calls":[]} if no tool is needed. OUTPUT:'' @ [CHR 0x5C] @ ''n'')
     @ compactToolResult output 6000\<close>

definition retry_text :: "weblib \<Rightarrow> string \<Rightarrow> agentLedger \<Rightarrow> obj list \<Rightarrow> string" where
  \<open>retry_text W prompt l tools =
     ''Select at least one required next tool call from FUNCTION_DEFINITIONS. ''
     @ ''Validate every argument against its schema. ''
     @ ''Return JSON only as {"calls":[{"name":"function_name","arguments":{}}]}.'' @ line_feed
     @ ''APPLICATION_REQUEST_AND_EVIDENCE:'' @ line_feed
     @ prompt @ line_feed @ RouterContext W l @ line_feed @ ''FUNCTION_DEFINITIONS:'' @ line_feed
     @ marshal (base W) (JArr (map JObj tools))\<close>

definition stream_answer_text :: "weblib \<Rightarrow> string \<Rightarrow> agentLedger \<Rightarrow> string" where
  "stream_answer_text W prompt l =
     prompt @ line_feed @ RouterContext W l @ line_feed
     @ ''FINAL ANSWER RULE: Answer the user directly. If a tool is explicitly required, emit its structured call; otherwise return ordinary text.''"

definition answer_text :: "weblib \<Rightarrow> string \<Rightarrow> agentLedger \<Rightarrow> string" where
  "answer_text W prompt l =
     prompt @ line_feed @ RouterContext W l @ line_feed
     @ ''FINAL ANSWER RULE: Report only actions supported by completed tool results. If the goal is not fully verified, state exactly what remains unconfirmed.''"

definition normalizeJSONText :: "string \<Rightarrow> string" where
  "normalizeJSONText s0 =
     (let s = trim_space s0 in
      if has_prefix s fence then
        let s1 = (case str_index s line_feed of Some i \<Rightarrow> drop (i + 1) s | None \<Rightarrow> s)
        in if has_suffix s1 fence then trim_space (trim_suffix s1 fence) else s1
      else s)"

end
