(* ===== verification/OutboundPool.thy ===== *)
theory OutboundPool
  imports GoStrings
begin

text \<open>
  Outbound proxies, src/internal/outbound: the parsing of a proxy URL (\<open>New\<close>, proxy.go), the
  pool with its round-robin choice and failure back-off (\<open>NewPool\<close>, \<open>pick\<close>, \<open>mark\<close>, \<open>Remove\<close>,
  the sticky WebSocket dialer; pool.go), the health check (health.go) and the package's global
  state (\<open>Configure\<close>, \<open>ConfigurePool\<close>, \<open>AddProxy\<close>, \<open>RemoveProxy\<close>; proxy.go).

  \<open>url.Parse\<close> and the SOCKS5 constructor of golang.org/x/net are the fields of \<open>netlib\<close>; clock
  readings and the results of network calls are arguments.
\<close>

section \<open>Proxy URLs\<close>

record url =
  u_Scheme :: string
  u_Host :: string
  u_Path :: string
  u_RawQuery :: string
  u_Fragment :: string
  u_User :: "string option"

record netlib =
  url_parse :: "string \<Rightarrow> url option"
  socks5_error :: "url \<Rightarrow> string option"

text \<open>What a \<open>Clients\<close> value sends its connections through.\<close>

datatype transport = Direct | ViaHTTP url | ViaHTTPS url | ViaSOCKS5 url

datatype proxy_error =
    IncompleteURL
  | HasPathQueryOrFragment
  | SOCKS5Failed string
  | UnsupportedScheme string
  | InPool string proxy_error
  | ProxyNotFound string

definition New :: "netlib \<Rightarrow> string \<Rightarrow> proxy_error + transport" where
  "New N raw0 =
     (let raw = trim_space raw0 in
      if raw = [] then Inr Direct
      else case url_parse N raw of
        None \<Rightarrow> Inl IncompleteURL
      | Some u \<Rightarrow>
          if u_Host u = [] then Inl IncompleteURL
          else if u_Fragment u \<noteq> [] \<or> (u_Path u \<noteq> [] \<and> u_Path u \<noteq> ''/'') \<or> u_RawQuery u \<noteq> []
            then Inl HasPathQueryOrFragment
          else if to_lower (u_Scheme u) = ''http'' then Inr (ViaHTTP u)
          else if to_lower (u_Scheme u) = ''https'' then Inr (ViaHTTPS u)
          else if to_lower (u_Scheme u) = ''socks5'' then
            (case socks5_error N u of Some e \<Rightarrow> Inl (SOCKS5Failed e) | None \<Rightarrow> Inr (ViaSOCKS5 u))
          else Inl (UnsupportedScheme (u_Scheme u)))"

section \<open>The pool\<close>

record poolEntry =
  raw :: string
  clients :: transport
  failures :: int
  cooldown :: instant
  lastCheck :: instant
  latency :: duration
  lastError :: string
  health :: string

record pool =
  entries :: "poolEntry list"
  next_index :: nat

definition new_entry :: "string \<Rightarrow> transport \<Rightarrow> poolEntry" where
  "new_entry v c = \<lparr>raw = v, clients = c, failures = 0, cooldown = zero_time,
     lastCheck = zero_time, latency = 0, lastError = [], health = []\<rparr>"

fun new_entries :: "netlib \<Rightarrow> poolEntry list \<Rightarrow> string list \<Rightarrow> proxy_error + poolEntry list" where
  "new_entries N es [] = Inr es"
| "new_entries N es (v # vs) =
     (if v = [] \<or> v \<in> raw ` set es then new_entries N es vs
      else case New N v of
        Inl e \<Rightarrow> Inl (InPool v e)
      | Inr c \<Rightarrow> new_entries N (es @ [new_entry v c]) vs)"

definition NewPool :: "netlib \<Rightarrow> string list \<Rightarrow> proxy_error + pool" where
  "NewPool N raws = (case new_entries N [] raws of
      Inl e \<Rightarrow> Inl e
    | Inr es \<Rightarrow> Inr \<lparr>entries = es, next_index = 0\<rparr>)"

definition slot :: "pool \<Rightarrow> nat \<Rightarrow> nat" where
  "slot p i = (next_index p + i) mod length (entries p)"

definition pick :: "instant \<Rightarrow> pool \<Rightarrow> poolEntry option \<times> pool" where
  "pick now p =
     (let n = length (entries p) in
      if n = 0 then (None, p)
      else case find (\<lambda>i. \<not> now < cooldown (entries p ! slot p i)) [0..<n] of
        Some i \<Rightarrow> (Some (entries p ! slot p i), p\<lparr>next_index := (next_index p + i + 1) mod n\<rparr>)
      | None \<Rightarrow> (Some (entries p ! slot p 0), p\<lparr>next_index := (next_index p + 1) mod n\<rparr>))"

definition back_off :: "int \<Rightarrow> duration" where
  "back_off n = (let d = wrap64 (wrap64 (n * 2) * second)
     in if d > 2 * minute then 2 * minute else d)"

definition mark_entry :: "bool \<Rightarrow> instant \<Rightarrow> poolEntry \<Rightarrow> poolEntry" where
  "mark_entry failed now e =
     (if \<not> failed then e\<lparr>failures := 0, cooldown := zero_time\<rparr>
      else let n = wrap64 (failures e + 1)
           in e\<lparr>failures := n, cooldown := now + back_off n\<rparr>)"

definition mark :: "string \<Rightarrow> bool \<Rightarrow> instant \<Rightarrow> pool \<Rightarrow> pool" where
  "mark r failed now p =
     p\<lparr>entries := update_first (\<lambda>e. raw e = r) (mark_entry failed now) (entries p)\<rparr>"

definition setHealth :: "string \<Rightarrow> string \<Rightarrow> pool \<Rightarrow> pool" where
  "setHealth r status p =
     p\<lparr>entries := update_first (\<lambda>e. raw e = r) (\<lambda>e. e\<lparr>health := status\<rparr>) (entries p)\<rparr>"

fun remove_first :: "('a \<Rightarrow> bool) \<Rightarrow> 'a list \<Rightarrow> 'a list" where
  "remove_first q [] = []"
| "remove_first q (x # xs) = (if q x then xs else x # remove_first q xs)"

definition Remove :: "string \<Rightarrow> pool \<Rightarrow> pool" where
  "Remove r p = p\<lparr>entries := remove_first (\<lambda>e. raw e = r) (entries p)\<rparr>"

text \<open>
  One dial of the dialer that \<open>WebSocketDialer\<close> returns; \<open>sticky\<close> is its captured variable.
  The dialer only uses an entry's \<open>NetDialContext\<close>, which \<open>New\<close> sets for HTTPS and SOCKS5
  proxies: \<open>ws_route\<close> is the route such a dial takes.  The result holds the route taken and
  whether the dial failed.
\<close>

fun ws_route :: "transport \<Rightarrow> transport" where
  "ws_route Direct = Direct"
| "ws_route (ViaHTTP u) = Direct"
| "ws_route (ViaHTTPS u) = ViaHTTPS u"
| "ws_route (ViaSOCKS5 u) = ViaSOCKS5 u"

definition ws_dial ::
    "(transport \<Rightarrow> bool) \<Rightarrow> instant \<Rightarrow> poolEntry option \<Rightarrow> pool
      \<Rightarrow> transport \<times> bool \<times> poolEntry option \<times> pool" where
  "ws_dial dial_fails now sticky p =
     (let (e, p1) = (case sticky of Some e \<Rightarrow> (Some e, p) | None \<Rightarrow> pick now p)
      in case e of
           None \<Rightarrow> (Direct, dial_fails Direct, None, p1)
         | Some e \<Rightarrow>
             let failed = dial_fails (ws_route (clients e))
             in (ws_route (clients e), failed, if failed then None else Some e,
                 mark (raw e) failed now p1))"

text \<open>One request of an \<open>http.Client\<close> of the pool: the round tripper reports to its entry.\<close>

definition RoundTrip :: "(transport \<Rightarrow> bool) \<Rightarrow> instant \<Rightarrow> poolEntry \<Rightarrow> pool \<Rightarrow> bool \<times> pool" where
  "RoundTrip request_fails now e p =
     (let failed = request_fails (clients e) in (failed, mark (raw e) failed now p))"

section \<open>Health checks\<close>

datatype probe = BadRequest string | Unreachable string | Responded int string

definition Check :: "string \<Rightarrow> probe \<Rightarrow> duration \<Rightarrow> instant \<Rightarrow> pool \<Rightarrow> pool \<times> duration \<times> string option" where
  "Check r outcome lat now p =
     (if find (\<lambda>e. raw e = r) (entries p) = None
        then (p, 0, Some ''http: no Location header in response'')
      else case outcome of
        BadRequest err \<Rightarrow> (p, 0, Some err)
      | Unreachable err \<Rightarrow> (setHealth r ''unreachable'' (mark r True now p), lat, Some err)
      | Responded code status \<Rightarrow>
          let p1 = mark r False now p in
          if code \<ge> 500 then (setHealth r ''upstream_error'' p1, lat,
              Some (''proxy reachable; upstream returned '' @ status))
          else let p2 = setHealth r ''reachable'' p1 in
            if code \<ge> 400 then (p2, lat, Some (''proxy reachable; target returned '' @ status))
            else (p2, lat, None))"

definition note_check :: "string \<Rightarrow> instant \<Rightarrow> duration \<Rightarrow> string option \<Rightarrow> pool \<Rightarrow> pool" where
  "note_check r now lat err p =
     p\<lparr>entries := update_first (\<lambda>e. raw e = r)
        (\<lambda>e. e\<lparr>lastCheck := now, latency := lat,
           lastError := (case err of None \<Rightarrow> [] | Some m \<Rightarrow> m)\<rparr>) (entries p)\<rparr>"

text \<open>\<open>world\<close> gives the outcome, the latency and the time of the probe of each proxy.\<close>

definition check_one :: "(string \<Rightarrow> probe \<times> duration \<times> instant) \<Rightarrow> pool \<Rightarrow> string \<Rightarrow> pool" where
  "check_one world p r =
     (let (outcome, lat, now) = world r;
          (p1, lat1, err) = Check r outcome lat now p
      in note_check r now lat1 err p1)"

definition CheckAll :: "(string \<Rightarrow> probe \<times> duration \<times> instant) \<Rightarrow> pool \<Rightarrow> pool" where
  "CheckAll world p = foldl (check_one world) p (map raw (entries p))"

section \<open>The package's state\<close>

record outbound =
  ob_clients :: transport
  ob_pool :: "pool option"

definition Configure :: "netlib \<Rightarrow> string \<Rightarrow> outbound \<Rightarrow> proxy_error option \<times> outbound" where
  "Configure N r st = (case New N r of
      Inl e \<Rightarrow> (Some e, st)
    | Inr c \<Rightarrow> (None, st\<lparr>ob_clients := c, ob_pool := None\<rparr>))"

definition ConfigurePool :: "netlib \<Rightarrow> string list \<Rightarrow> outbound \<Rightarrow> proxy_error option \<times> outbound" where
  "ConfigurePool N raws st = (case NewPool N raws of
      Inl e \<Rightarrow> (Some e, st)
    | Inr p \<Rightarrow> (None, st\<lparr>ob_pool := Some p\<rparr>))"

definition is_pool_separator :: "char \<Rightarrow> bool" where
  "is_pool_separator c = (c = CHR 0x0A \<or> c = CHR 0x0D \<or> c = CHR '','')"

definition ConfigureFromEnv ::
    "netlib \<Rightarrow> string \<Rightarrow> string \<Rightarrow> outbound \<Rightarrow> proxy_error option \<times> outbound" where
  "ConfigureFromEnv N env_pool env_proxy st =
     (let r = trim_space env_pool in
      if r \<noteq> [] then ConfigurePool N (fields_func is_pool_separator r) st
      else Configure N env_proxy st)"

definition pool_urls :: "outbound \<Rightarrow> string list" where
  "pool_urls st = (case ob_pool st of None \<Rightarrow> [] | Some p \<Rightarrow> map raw (entries p))"

definition AddProxy :: "netlib \<Rightarrow> string \<Rightarrow> outbound \<Rightarrow> proxy_error option \<times> outbound" where
  "AddProxy N r st = (case ob_pool st of
      None \<Rightarrow> ConfigurePool N [r] st
    | Some p \<Rightarrow> ConfigurePool N (map raw (entries p) @ [r]) st)"

definition normal_url :: "string \<Rightarrow> string" where
  "normal_url r = trim_right_char (CHR ''/'') (trim_space r)"

definition RemoveProxy :: "netlib \<Rightarrow> string \<Rightarrow> outbound \<Rightarrow> proxy_error option \<times> outbound" where
  "RemoveProxy N r0 st =
     (let r = normal_url r0 in
      case ob_pool st of
        None \<Rightarrow> (None, st)
      | Some p \<Rightarrow>
          let items = filter (\<lambda>v. normal_url v \<noteq> r) (map raw (entries p));
              found = list_ex (\<lambda>v. normal_url v = r) (map raw (entries p))
          in if \<not> found then (Some (ProxyNotFound r), st) else ConfigurePool N items st)"

text \<open>The transport of the client that \<open>HTTPClient\<close> returns, and the entry it reports to.\<close>

definition HTTPClient :: "instant \<Rightarrow> outbound \<Rightarrow> transport \<times> string option \<times> outbound" where
  "HTTPClient now st = (case ob_pool st of
      None \<Rightarrow> (ob_clients st, None, st)
    | Some p \<Rightarrow> (case pick now p of
        (Some e, p1) \<Rightarrow> (clients e, Some (raw e), st\<lparr>ob_pool := Some p1\<rparr>)
      | (None, p1) \<Rightarrow> (Direct, None, st\<lparr>ob_pool := Some p1\<rparr>)))"

section \<open>The pool invariant\<close>

text \<open>Every entry was built by \<open>New\<close> from its own URL, and no URL occurs twice.\<close>

definition entry_ok :: "netlib \<Rightarrow> poolEntry \<Rightarrow> bool" where
  "entry_ok N e \<longleftrightarrow> raw e \<noteq> [] \<and> New N (raw e) = Inr (clients e)"

definition pool_ok :: "netlib \<Rightarrow> pool \<Rightarrow> bool" where
  "pool_ok N p \<longleftrightarrow> distinct (map raw (entries p)) \<and> list_all (entry_ok N) (entries p)"

lemma entry_fields [simp]:
  "raw (new_entry v c) = v" "clients (new_entry v c) = c"
  "raw (mark_entry f now e) = raw e" "clients (mark_entry f now e) = clients e"
  by (simp_all add: new_entry_def mark_entry_def Let_def)

lemma pool_ok_update [keeps_inv]:
  assumes "\<And>e. raw (f e) = raw e" and "\<And>e. clients (f e) = clients e" and "pool_ok N p"
  shows "pool_ok N (p\<lparr>entries := update_first q f (entries p)\<rparr>)"
proof -
  have "entry_ok N (f e) = entry_ok N e" for e by (simp add: entry_ok_def assms(1,2))
  then have "list_all (entry_ok N) (update_first q f es) = list_all (entry_ok N) es" for es
    by (induction es) simp_all
  moreover have "map raw (update_first q f es) = map raw es" for es
    by (rule map_update_first_same) (simp add: assms(1))
  ultimately show ?thesis using assms(3) by (simp add: pool_ok_def)
qed

lemma mark_ok [keeps_inv]: "pool_ok N p \<Longrightarrow> pool_ok N (mark r failed now p)"
  unfolding mark_def by (rule pool_ok_update) simp_all

lemma setHealth_ok [keeps_inv]: "pool_ok N p \<Longrightarrow> pool_ok N (setHealth r s p)"
  unfolding setHealth_def by (rule pool_ok_update) simp_all

lemma note_check_ok [keeps_inv]: "pool_ok N p \<Longrightarrow> pool_ok N (note_check r now lat err p)"
  unfolding note_check_def by (rule pool_ok_update) simp_all

lemma pick_entries [simp]: "entries (snd (pick now p)) = entries p"
  by (simp add: pick_def Let_def split: option.split)

lemma pick_ok [keeps_inv]: "pool_ok N p \<Longrightarrow> pool_ok N (snd (pick now p))"
  by (simp add: pool_ok_def)

lemma remove_first_subset: "set (remove_first q xs) \<subseteq> set xs"
  by (induction xs) auto

lemma remove_first_distinct: "distinct (map f xs) \<Longrightarrow> distinct (map f (remove_first q xs))"
proof (induction xs)
  case (Cons x xs)
  then show ?case using remove_first_subset [of q xs] by auto
qed simp

lemma Remove_ok [keeps_inv]: "pool_ok N p \<Longrightarrow> pool_ok N (Remove r p)"
  using remove_first_subset [of "\<lambda>e. raw e = r" "entries p"]
  by (auto simp: pool_ok_def Remove_def remove_first_distinct list_all_iff)

lemma Check_ok [keeps_inv]: "pool_ok N p \<Longrightarrow> pool_ok N (fst (Check r outcome lat now p))"
  by (auto simp: Check_def Let_def keeps_inv split: probe.split)

lemma check_one_ok [keeps_inv]:
  assumes "pool_ok N p"
  shows "pool_ok N (check_one world p r)"
proof -
  obtain outcome lat now where w: "world r = (outcome, lat, now)" by (metis prod.exhaust)
  obtain p1 lat1 err where c: "Check r outcome lat now p = (p1, lat1, err)" by (metis prod.exhaust)
  with Check_ok [OF assms, of r outcome lat now] have "pool_ok N p1" by simp
  with w c show ?thesis by (simp add: check_one_def note_check_ok)
qed

lemma CheckAll_ok [keeps_inv]: "pool_ok N p \<Longrightarrow> pool_ok N (CheckAll world p)"
proof -
  have "pool_ok N p \<Longrightarrow> pool_ok N (foldl (check_one world) p rs)" for rs
    by (induction rs arbitrary: p) (simp_all add: keeps_inv)
  then show "pool_ok N p \<Longrightarrow> pool_ok N (CheckAll world p)" by (simp add: CheckAll_def)
qed

lemma ws_dial_ok [keeps_inv]:
  assumes "pool_ok N p"
  shows "pool_ok N (snd (snd (snd (ws_dial fails now sticky p))))"
proof (cases sticky)
  case None
  obtain e p1 where pk: "pick now p = (e, p1)" by fastforce
  with pick_ok [OF assms, of now] have "pool_ok N p1" by simp
  with None pk show ?thesis by (simp add: ws_dial_def Let_def mark_ok split: option.split)
next
  case (Some e)
  with assms show ?thesis by (simp add: ws_dial_def Let_def mark_ok)
qed

lemma RoundTrip_ok [keeps_inv]: "pool_ok N p \<Longrightarrow> pool_ok N (snd (RoundTrip fails now e p))"
  by (simp add: RoundTrip_def Let_def keeps_inv)

lemma new_entries_ok:
  assumes "new_entries N es vs = Inr es'" and "distinct (map raw es)" and "list_all (entry_ok N) es"
  shows "distinct (map raw es') \<and> list_all (entry_ok N) es'"
  using assms
  by (induction N es vs arbitrary: es' rule: new_entries.induct)
    (auto split: if_splits sum.splits simp: entry_ok_def)

lemma NewPool_ok: "NewPool N raws = Inr p \<Longrightarrow> pool_ok N p"
  using new_entries_ok [of N "[]" raws]
  by (fastforce simp: NewPool_def pool_ok_def split: sum.splits)

lemma new_entries_app:
  "new_entries N es (vs @ ws) =
     (case new_entries N es vs of Inl e \<Rightarrow> Inl e | Inr es' \<Rightarrow> new_entries N es' ws)"
  by (induction N es vs rule: new_entries.induct) (auto split: sum.split)

text \<open>The URLs of a pool are the distinct non-empty ones given, in order of first occurrence.\<close>

fun first_occurrences :: "string list \<Rightarrow> string list \<Rightarrow> string list" where
  "first_occurrences seen [] = seen"
| "first_occurrences seen (v # vs) =
     (if v = [] \<or> v \<in> set seen then first_occurrences seen vs
      else first_occurrences (seen @ [v]) vs)"

lemma new_entries_urls:
  "new_entries N es vs = Inr es' \<Longrightarrow> map raw es' = first_occurrences (map raw es) vs"
  by (induction N es vs arbitrary: es' rule: new_entries.induct) (auto split: if_splits sum.splits)

lemma new_entries_total:
  "\<forall>v\<in>set vs. v \<noteq> [] \<longrightarrow> \<not> isl (New N v) \<Longrightarrow> \<not> isl (new_entries N es vs)"
  by (induction N es vs rule: new_entries.induct) (auto split: sum.split)

lemma first_occurrences_fresh:
  "distinct (seen @ vs) \<Longrightarrow> [] \<notin> set vs \<Longrightarrow> first_occurrences seen vs = seen @ vs"
  by (induction seen vs rule: first_occurrences.induct) auto

lemma NewPool_urls: "NewPool N raws = Inr p \<Longrightarrow> map raw (entries p) = first_occurrences [] raws"
  using new_entries_urls [of N "[]" raws] by (fastforce simp: NewPool_def split: sum.splits)

section \<open>The choice of an entry\<close>

definition available :: "instant \<Rightarrow> poolEntry \<Rightarrow> bool" where
  "available now e \<longleftrightarrow> \<not> now < cooldown e"

lemma pick_empty: "entries p = [] \<Longrightarrow> pick now p = (None, p)"
  by (simp add: pick_def)

lemma slot_mem: "entries p \<noteq> [] \<Longrightarrow> entries p ! slot p i \<in> set (entries p)"
  by (simp add: slot_def)

lemma slot_onto:
  assumes "e \<in> set (entries p)"
  shows "\<exists>i<length (entries p). entries p ! slot p i = e"
proof -
  let ?n = "length (entries p)"
  obtain k where k: "k < ?n" "entries p ! k = e" using assms by (auto simp: in_set_conv_nth)
  define i where "i = (k + (?n - next_index p mod ?n)) mod ?n"
  have "0 < ?n" using k by linarith
  then have lt: "next_index p mod ?n < ?n" by (rule mod_less_divisor)
  have "(next_index p + i) mod ?n = (next_index p mod ?n + (k + (?n - next_index p mod ?n))) mod ?n"
    unfolding i_def by (simp only: mod_add_left_eq mod_add_right_eq)
  also have "\<dots> = (k + ?n) mod ?n" using lt by simp
  also have "\<dots> = k" using k by simp
  finally have "slot p i = k" by (simp add: slot_def)
  moreover have "i < ?n" unfolding i_def using \<open>0 < ?n\<close> by (rule mod_less_divisor)
  ultimately show ?thesis using k by auto
qed

lemma pick_cases:
  assumes "entries p \<noteq> []"
  obtains (free) i where "i < length (entries p)" "available now (entries p ! slot p i)"
      "\<forall>j<i. \<not> available now (entries p ! slot p j)"
      "pick now p = (Some (entries p ! slot p i),
         p\<lparr>next_index := (next_index p + i + 1) mod length (entries p)\<rparr>)"
    | (cooling) "\<forall>e\<in>set (entries p). \<not> available now e"
      "pick now p = (Some (entries p ! slot p 0),
         p\<lparr>next_index := (next_index p + 1) mod length (entries p)\<rparr>)"
proof (cases "find (\<lambda>i. \<not> now < cooldown (entries p ! slot p i)) [0..<length (entries p)]")
  case None
  then have "\<not> available now (entries p ! slot p i)" if "i < length (entries p)" for i
    using that by (auto simp: find_None_iff available_def)
  then have "\<forall>e\<in>set (entries p). \<not> available now e" by (blast dest: slot_onto)
  with None assms show ?thesis by (intro cooling) (simp_all add: pick_def Let_def)
next
  case (Some i)
  then obtain k where k: "k < length (entries p)" "i = k"
      "\<not> now < cooldown (entries p ! slot p i)"
      "\<forall>j<k. now < cooldown (entries p ! slot p j)"
    by (auto simp: find_Some_iff)
  with Some assms show ?thesis
    by (intro free [of i]) (simp_all add: pick_def Let_def available_def)
qed

lemma pick_some:
  assumes "entries p \<noteq> []"
  shows "\<exists>e. fst (pick now p) = Some e \<and> e \<in> set (entries p)"
  by (rule pick_cases [OF assms, of now]) (simp_all add: slot_mem [OF assms])

lemma pick_available:
  assumes "pick now p = (Some e, p')" and "e' \<in> set (entries p)" and "available now e'"
  shows "available now e"
proof -
  have "entries p \<noteq> []" using assms(2) by auto
  then show ?thesis using assms by (cases rule: pick_cases [of p now]) auto
qed

text \<open>\<open>picks k\<close> is the result of \<open>k\<close> picks one after another at the same instant.\<close>

fun picks :: "instant \<Rightarrow> nat \<Rightarrow> pool \<Rightarrow> poolEntry list \<times> pool" where
  "picks now 0 p = ([], p)"
| "picks now (Suc k) p =
     (case pick now p of
        (None, p1) \<Rightarrow> ([], p1)
      | (Some e, p1) \<Rightarrow> (let (es, p2) = picks now k p1 in (e # es, p2)))"

lemma pick_all_available:
  assumes "entries p \<noteq> []" and "\<forall>e\<in>set (entries p). available now e"
  shows "pick now p = (Some (entries p ! (next_index p mod length (entries p))),
    p\<lparr>next_index := (next_index p + 1) mod length (entries p)\<rparr>)"
  using assms(1)
proof (cases rule: pick_cases [of p now])
  case (free i)
  then have "i = 0" using assms by (cases i) (auto simp: slot_mem)
  with free show ?thesis by (simp add: slot_def)
next
  case cooling
  then show ?thesis using assms by (auto simp: slot_def)
qed

lemma picks_rotate:
  assumes "entries p \<noteq> []" and "\<forall>e\<in>set (entries p). available now e"
  shows "fst (picks now k p) =
    map (\<lambda>i. entries p ! ((next_index p + i) mod length (entries p))) [0..<k]"
  using assms
proof (induction k arbitrary: p)
  case (Suc k)
  let ?n = "length (entries p)"
  let ?p = "p\<lparr>next_index := (next_index p + 1) mod ?n\<rparr>"
  have "fst (picks now (Suc k) p) = (entries p ! (next_index p mod ?n)) # fst (picks now k ?p)"
    by (simp add: pick_all_available [OF Suc.prems] split: prod.split)
  also have "fst (picks now k ?p) = map (\<lambda>i. entries p ! ((next_index p + Suc i) mod ?n)) [0..<k]"
    using Suc.IH [of ?p] Suc.prems by (simp add: mod_simps)
  also have "\<dots> = map (\<lambda>i. entries p ! ((next_index p + i) mod ?n)) [1..<Suc k]"
    by (simp add: map_Suc_upt [symmetric] del: upt_Suc)
  finally show ?case by (simp add: upt_conv_Cons del: upt_Suc)
qed simp

lemma mset_rotate: "mset (rotate k xs) = mset xs"
proof -
  have "mset (rotate k xs) = mset (drop (k mod length xs) xs) + mset (take (k mod length xs) xs)"
    by (simp add: rotate_drop_take)
  also have "\<dots> = mset (take (k mod length xs) xs @ drop (k mod length xs) xs)"
    by (simp only: mset_append add.commute)
  finally show ?thesis by simp
qed

lemma rotate_segment: "map (\<lambda>i. xs ! ((m + i) mod length xs)) [0..<length xs] = rotate m xs"
  by (rule nth_equalityI) (simp_all add: nth_rotate)

lemma picks_fair:
  assumes "entries p \<noteq> []" and "\<forall>e\<in>set (entries p). available now e"
  shows "mset (fst (picks now (length (entries p)) p)) = mset (entries p)"
  by (simp add: picks_rotate [OF assms] rotate_segment mset_rotate)

section \<open>Back-off\<close>

lemma back_off_exact:
  assumes "0 \<le> n" and "n \<le> 4611686018"
  shows "back_off n = min (n * 2 * second) (2 * minute)"
proof -
  have "wrap64 (n * 2) = n * 2" using assms by (intro wrap64_id) auto
  moreover have "wrap64 (n * 2 * second) = n * 2 * second"
    using assms by (intro wrap64_id) (auto simp: second_def)
  ultimately show ?thesis by (simp add: back_off_def Let_def)
qed

section \<open>The package's operations\<close>

lemma ConfigurePool_cases:
  "ConfigurePool N raws st = (err, st') \<Longrightarrow>
     (err = None \<and> (\<exists>p. NewPool N raws = Inr p \<and> st' = st\<lparr>ob_pool := Some p\<rparr>)) \<or> (err \<noteq> None \<and> st' = st)"
  by (auto simp: ConfigurePool_def split: sum.splits)

lemma pool_urls_ConfigurePool:
  "ConfigurePool N raws st = (None, st') \<Longrightarrow> pool_urls st' = first_occurrences [] raws"
  by (auto simp: ConfigurePool_def pool_urls_def NewPool_urls split: sum.splits)

definition outbound_ok :: "netlib \<Rightarrow> outbound \<Rightarrow> bool" where
  "outbound_ok N st \<longleftrightarrow> (case ob_pool st of None \<Rightarrow> True | Some p \<Rightarrow> pool_ok N p)"

text \<open>
  The operations of the running program on the package's state: configuration, the admin page's
  additions, removals and health checks, and the use of its clients.
\<close>

inductive outbound_step :: "netlib \<Rightarrow> outbound \<Rightarrow> outbound \<Rightarrow> bool" for N where
  step_configure: "outbound_step N st (snd (ConfigureFromEnv N env_pool env_proxy st))"
| step_add: "outbound_step N st (snd (AddProxy N r st))"
| step_remove: "outbound_step N st (snd (RemoveProxy N r st))"
| step_client: "outbound_step N st (snd (snd (HTTPClient now st)))"
| step_roundtrip: "ob_pool st = Some p \<Longrightarrow>
    outbound_step N st (st\<lparr>ob_pool := Some (snd (RoundTrip fails now e p))\<rparr>)"
| step_dial: "ob_pool st = Some p \<Longrightarrow>
    outbound_step N st (st\<lparr>ob_pool := Some (snd (snd (snd (ws_dial fails now sticky p))))\<rparr>)"
| step_check: "ob_pool st = Some p \<Longrightarrow> outbound_step N st (st\<lparr>ob_pool := Some (CheckAll world p)\<rparr>)"

lemma ConfigurePool_ok: "outbound_ok N st \<Longrightarrow> outbound_ok N (snd (ConfigurePool N raws st))"
  by (auto simp: ConfigurePool_def outbound_ok_def NewPool_ok split: sum.split)

lemma Configure_ok: "outbound_ok N st \<Longrightarrow> outbound_ok N (snd (Configure N r st))"
  by (simp add: Configure_def outbound_ok_def split: sum.split)

lemma HTTPClient_ok:
  assumes "outbound_ok N st"
  shows "outbound_ok N (snd (snd (HTTPClient now st)))"
proof (cases "ob_pool st")
  case None
  with assms show ?thesis by (simp add: HTTPClient_def)
next
  case (Some p)
  obtain e p1 where pk: "pick now p = (e, p1)" by fastforce
  have "pool_ok N p1" using assms Some pick_ok [of N p now] pk by (simp add: outbound_ok_def)
  with Some pk show ?thesis by (cases e) (simp_all add: HTTPClient_def outbound_ok_def)
qed

lemma outbound_step_ok: "outbound_step N st st' \<Longrightarrow> outbound_ok N st \<Longrightarrow> outbound_ok N st'"
proof (induction rule: outbound_step.induct)
  case (step_configure st env_pool env_proxy)
  then show ?case by (simp add: ConfigureFromEnv_def Let_def ConfigurePool_ok Configure_ok)
next
  case (step_add st r)
  then show ?case by (auto simp: AddProxy_def ConfigurePool_ok split: option.split)
next
  case (step_remove st r)
  then show ?case by (auto simp: RemoveProxy_def Let_def ConfigurePool_ok split: option.split)
next
  case (step_client st now)
  then show ?case by (rule HTTPClient_ok)
qed (simp_all add: outbound_ok_def keeps_inv)

section \<open>Properties\<close>

text \<open>
  C29: in every state the program reaches from a start without a pool, the pool's URLs are distinct
  and non-empty and each entry sends through the transport \<open>New\<close> builds from its own URL.
\<close>
theorem reachable_pool_ok:
  assumes "(outbound_step N)\<^sup>*\<^sup>* \<lparr>ob_clients = Direct, ob_pool = None\<rparr> st" and "ob_pool st = Some p"
  shows "distinct (map raw (entries p))
    \<and> list_all (\<lambda>e. raw e \<noteq> [] \<and> New N (raw e) = Inr (clients e)) (entries p)"
proof -
  have "outbound_ok N st"
    using assms(1) by (rule rtranclp_induct) (simp add: outbound_ok_def, rule outbound_step_ok)
  with assms(2) show ?thesis
    by (simp add: outbound_ok_def pool_ok_def entry_ok_def [abs_def])
qed

text \<open>
  as long as some proxy of the pool is not cooling down, the pool picks one that is not; an
  entry is picked whenever the pool has one.
\<close>
theorem pick_prefers_available:
  assumes "e' \<in> set (entries p)" and "\<not> now < cooldown e'"
  shows "\<exists>e. fst (pick now p) = Some e \<and> e \<in> set (entries p) \<and> \<not> now < cooldown e"
proof -
  have "entries p \<noteq> []" using assms(1) by auto
  from pick_some [OF this, of now] obtain e where "fst (pick now p) = Some e" "e \<in> set (entries p)"
    by blast
  with pick_available [of now p e "snd (pick now p)" e'] assms show ?thesis
    by (auto simp: available_def prod_eq_iff)
qed

text \<open>
  the choice is fair: while no proxy is cooling down, as many picks as there are proxies take
  each of them exactly once, wherever the round starts.
\<close>
theorem picks_are_fair:
  assumes "entries p \<noteq> []" and "list_all (\<lambda>e. \<not> now < cooldown e) (entries p)"
  shows "mset (fst (picks now (length (entries p)) p)) = mset (entries p)"
  using picks_fair [of p now] assms by (simp add: available_def list_all_iff)

text \<open>
  a failure reported for a proxy keeps it from being used for two seconds per failure since
  its last success, at most two minutes.
\<close>
theorem failure_backs_off:
  assumes "find (\<lambda>e. raw e = r) (entries p) = Some e" and "0 \<le> failures e" and "failures e < 4611686018"
  shows "\<exists>e'. find (\<lambda>e. raw e = r) (entries (mark r True now p)) = Some e'
    \<and> failures e' = failures e + 1
    \<and> cooldown e' = now + min ((failures e + 1) * 2 * second) (2 * minute)"
proof -
  obtain pre post where es: "entries p = pre @ e # post" "\<forall>y\<in>set pre. raw y \<noteq> r" "raw e = r"
    and up: "update_first (\<lambda>e. raw e = r) (mark_entry True now) (entries p) = pre @ mark_entry True now e # post"
    using update_first_find [OF assms(1)] by metis
  have "find (\<lambda>e. raw e = r) pre = None" using es(2) by (simp add: find_None_iff)
  moreover have "wrap64 (failures e + 1) = failures e + 1" using assms by (intro wrap64_id) auto
  moreover have "back_off (failures e + 1) = min ((failures e + 1) * 2 * second) (2 * minute)"
    using assms by (intro back_off_exact) auto
  moreover have "find q (xs @ ys) = (case find q xs of None \<Rightarrow> find q ys | Some x \<Rightarrow> Some x)"
    for q and xs ys :: "poolEntry list" by (induction xs) auto
  ultimately show ?thesis using es(3) by (simp add: mark_def up mark_entry_def Let_def)
qed

text \<open>
  adding a proxy URL that \<open>New\<close> accepts and that the pool does not hold yet appends it and
  keeps the others in order; removing that URL then restores the pool's URLs.
\<close>
theorem add_then_remove:
  assumes "outbound_ok N st" and "New N r = Inr c" and "r \<noteq> []"
    and "normal_url r \<notin> normal_url ` set (pool_urls st)"
  shows "fst (AddProxy N r st) = None
    \<and> pool_urls (snd (AddProxy N r st)) = pool_urls st @ [r]
    \<and> fst (RemoveProxy N r (snd (AddProxy N r st))) = None
    \<and> pool_urls (snd (RemoveProxy N r (snd (AddProxy N r st)))) = pool_urls st"
proof -
  let ?us = "pool_urls st"
  have us: "distinct ?us" "[] \<notin> set ?us" "\<forall>v\<in>set ?us. \<not> isl (New N v)"
    using assms(1) by (force simp: pool_urls_def outbound_ok_def pool_ok_def list_all_iff entry_ok_def
        split: option.splits)+
  have fresh: "r \<notin> set ?us" using assms(4) by blast
  have run: "\<exists>st'. ConfigurePool N vs s0 = (None, st') \<and> pool_urls st' = vs
      \<and> (\<exists>p. ob_pool st' = Some p \<and> map raw (entries p) = vs)"
    if vs: "distinct vs" "[] \<notin> set vs" "\<forall>v\<in>set vs. \<not> isl (New N v)" for vs s0
  proof -
    obtain p where p: "NewPool N vs = Inr p"
      using new_entries_total [of vs N "[]"] vs(3)
      by (cases "new_entries N [] vs") (auto simp: NewPool_def)
    then have "map raw (entries p) = vs"
      using NewPool_urls first_occurrences_fresh [of "[]" vs] vs by simp
    with p show ?thesis by (simp add: ConfigurePool_def pool_urls_def)
  qed
  have add: "AddProxy N r st = ConfigurePool N (?us @ [r]) st"
    by (simp add: AddProxy_def pool_urls_def split: option.split)
  obtain st1 p1 where st1: "ConfigurePool N (?us @ [r]) st = (None, st1)" "pool_urls st1 = ?us @ [r]"
      "ob_pool st1 = Some p1" "map raw (entries p1) = ?us @ [r]"
    using run [of "?us @ [r]" st] us fresh assms(2,3) by auto
  have "filter (\<lambda>v. normal_url v \<noteq> normal_url r) (?us @ [r]) = ?us"
  proof -
    have "\<forall>v\<in>set ?us. normal_url v \<noteq> normal_url r" using assms(4) by (metis image_eqI)
    then show ?thesis by simp
  qed
  then have rem: "RemoveProxy N r st1 = ConfigurePool N ?us st1"
    by (simp add: RemoveProxy_def st1(3,4) Let_def)
  obtain st2 where "ConfigurePool N ?us st1 = (None, st2)" "pool_urls st2 = ?us"
    using run [of ?us st1] us by blast
  with add st1 rem show ?thesis by simp
qed

text \<open>
  when the last proxy of the pool is removed, the clients the program hands out connect
  directly, even where a single outbound proxy is configured.
\<close>
theorem removing_last_proxy_goes_direct:
  assumes "ob_pool st = Some p" and "entries p = [e]"
  shows "fst (RemoveProxy N (raw e) st) = None
    \<and> fst (HTTPClient now (snd (RemoveProxy N (raw e) st))) = Direct
    \<and> ob_clients (snd (RemoveProxy N (raw e) st)) = ob_clients st"
  using assms
  by (simp add: RemoveProxy_def Let_def ConfigurePool_def NewPool_def HTTPClient_def pick_empty)

text \<open>
  a WebSocket dial through an entry whose URL has the \<open>http\<close> scheme opens a direct
  connection: only \<open>https\<close> and \<open>socks5\<close> entries route it through the proxy.
\<close>
theorem http_entry_dials_directly:
  assumes "pick now p = (Some e, p')" and "clients e = ViaHTTP u"
  shows "fst (ws_dial fails now None p) = Direct"
  using assms by (simp add: ws_dial_def Let_def)

definition any_url :: "string \<Rightarrow> url" where
  "any_url s = \<lparr>u_Scheme = ''http'', u_Host = s, u_Path = [], u_RawQuery = [], u_Fragment = [], u_User = None\<rparr>"

definition http_only :: netlib where
  "http_only = \<lparr>url_parse = (\<lambda>s. Some (any_url s)), socks5_error = (\<lambda>_. None)\<rparr>"

definition two_proxies :: pool where
  "two_proxies = \<lparr>entries = [(new_entry ''a'' (ViaHTTP (any_url ''a'')))\<lparr>failures := 3, cooldown := 9\<rparr>,
     new_entry ''b'' (ViaHTTP (any_url ''b''))], next_index = 0\<rparr>"

lemma two_proxies_fields:
  "entries two_proxies = [(new_entry ''a'' (ViaHTTP (any_url ''a'')))\<lparr>failures := 3, cooldown := 9\<rparr>,
     new_entry ''b'' (ViaHTTP (any_url ''b''))]"
  by (simp add: two_proxies_def)

theorem pick_prefers_available_witness:
  "\<exists>e. fst (pick 5 two_proxies) = Some e \<and> \<not> 5 < cooldown e"
  using pick_prefers_available [of "new_entry ''b'' (ViaHTTP (any_url ''b''))" two_proxies 5]
  by (auto simp: two_proxies_def new_entry_def zero_time_def)

theorem picks_are_fair_witness:
  "mset (map raw (fst (picks 10 2 two_proxies))) = {#''a'', ''b''#}"
proof -
  have "list_all (\<lambda>e. \<not> 10 < cooldown e) (entries two_proxies)" "entries two_proxies \<noteq> []"
    by (simp_all add: two_proxies_def new_entry_def zero_time_def)
  moreover have "length (entries two_proxies) = 2" by (simp add: two_proxies_def)
  ultimately have "mset (fst (picks 10 2 two_proxies)) = mset (entries two_proxies)"
    using picks_are_fair [of two_proxies 10] by simp
  then have "image_mset raw (mset (fst (picks 10 2 two_proxies))) = image_mset raw (mset (entries two_proxies))"
    by (rule arg_cong)
  then show ?thesis by (simp add: two_proxies_fields)
qed

theorem failure_backs_off_witness:
  "\<exists>e. find (\<lambda>e. raw e = ''a'') (entries (mark ''a'' True 100 two_proxies)) = Some e
     \<and> cooldown e = 100 + 8 * second"
  using failure_backs_off [of "''a''" two_proxies
      "(new_entry ''a'' (ViaHTTP (any_url ''a'')))\<lparr>failures := 3, cooldown := 9\<rparr>" 100]
  by (auto simp: two_proxies_def second_def minute_def)

lemma trim_http_a: "trim_space ''a'' = ''a''" "normal_url ''a'' = ''a''"
  by code_simp+

lemma New_http_a: "New http_only ''a'' = Inr (ViaHTTP (any_url ''a''))"
  by code_simp

theorem add_then_remove_witness:
  "pool_urls (snd (AddProxy http_only ''a'' \<lparr>ob_clients = Direct, ob_pool = None\<rparr>)) = [''a'']"
  using add_then_remove [OF _ New_http_a, of "\<lparr>ob_clients = Direct, ob_pool = None\<rparr>"]
  by (simp add: outbound_ok_def pool_urls_def)

theorem reachable_pool_ok_witness:
  "list_all (\<lambda>e. raw e \<noteq> [] \<and> New http_only (raw e) = Inr (clients e))
     [new_entry ''a'' (ViaHTTP (any_url ''a''))]"
proof -
  let ?p = "\<lparr>entries = [new_entry ''a'' (ViaHTTP (any_url ''a''))], next_index = 0\<rparr>"
  have "snd (AddProxy http_only ''a'' \<lparr>ob_clients = Direct, ob_pool = None\<rparr>)
      = \<lparr>ob_clients = Direct, ob_pool = Some ?p\<rparr>"
    by (simp add: AddProxy_def ConfigurePool_def NewPool_def New_http_a)
  then have "(outbound_step http_only)\<^sup>*\<^sup>* \<lparr>ob_clients = Direct, ob_pool = None\<rparr>
      \<lparr>ob_clients = Direct, ob_pool = Some ?p\<rparr>"
    using step_add [of http_only "\<lparr>ob_clients = Direct, ob_pool = None\<rparr>" "''a''"]
    by (metis r_into_rtranclp)
  from reachable_pool_ok [OF this, of ?p] show ?thesis by simp
qed

theorem removing_last_proxy_goes_direct_witness:
  "fst (HTTPClient 0 (snd (RemoveProxy http_only ''b''
     \<lparr>ob_clients = ViaHTTP (any_url ''c''),
      ob_pool = Some \<lparr>entries = [new_entry ''b'' (ViaHTTP (any_url ''b''))], next_index = 0\<rparr>\<rparr>))) = Direct"
  using removing_last_proxy_goes_direct [of "\<lparr>ob_clients = ViaHTTP (any_url ''c''),
      ob_pool = Some \<lparr>entries = [new_entry ''b'' (ViaHTTP (any_url ''b''))], next_index = 0\<rparr>\<rparr>"
      "\<lparr>entries = [new_entry ''b'' (ViaHTTP (any_url ''b''))], next_index = 0\<rparr>"
      "new_entry ''b'' (ViaHTTP (any_url ''b''))" http_only 0]
  by simp

theorem http_entry_dials_directly_witness:
  "fst (ws_dial (\<lambda>_. False) 10 None two_proxies) = Direct"
proof -
  have "pick 10 two_proxies = (Some ((new_entry ''a'' (ViaHTTP (any_url ''a'')))\<lparr>failures := 3, cooldown := 9\<rparr>),
      two_proxies\<lparr>next_index := 1\<rparr>)"
    using pick_all_available [of two_proxies 10]
    by (simp add: two_proxies_def available_def new_entry_def zero_time_def)
  from http_entry_dials_directly [OF this] show ?thesis by simp
qed

end
