(* ===== verification/ChatStream.thy ===== *)
theory ChatStream
  imports ToolDecision OutboundPool
begin

text \<open>
  The reading side of a ChatHub turn: the SignalR read loop of \<open>chatWithHandlers\<close>
  (src/internal/chathub/client.go), the tool and progress events it hands out
  (stream_events.go), the classification of the frames kept with a result (events.go) and the
  image URLs found in them (images.go).

  What \<open>ReadMessage\<close>, the context and the clock say at the top of each iteration is a list of
  \<open>read\<close>s; the caller's handlers are a record of their failures.  A Go map is visited in the
  order of its entry list.
\<close>

section \<open>Events\<close>

record stream_event =
  se_Kind :: string
  se_Text :: string
  se_MessageType :: string
  se_ContentType :: string
  se_ToolName :: string
  se_Arguments :: string
  se_Raw :: string

definition first_nonempty_str :: "obj \<Rightarrow> string list \<Rightarrow> string" where
  "first_nonempty_str m ks =
     (case find (\<lambda>k. as_str (get m k) \<noteq> []) ks of None \<Rightarrow> [] | Some k \<Rightarrow> as_str (get m k))"

definition first_marshalled :: "golib \<Rightarrow> obj \<Rightarrow> string list \<Rightarrow> string option" where
  "first_marshalled L m ks =
     (case find (\<lambda>k. lookup m k \<noteq> None \<and> marshal L (get m k) \<noteq> []) ks of
        None \<Rightarrow> None
      | Some k \<Rightarrow> Some (marshal L (get m k)))"

definition extractToolFields :: "golib \<Rightarrow> obj \<Rightarrow> string \<times> string" where
  "extractToolFields L m =
     (let name = first_nonempty_str m [''name'', ''toolName'', ''pluginName'', ''functionName'']
      in if name = [] then ([], [])
         else case first_marshalled L m [''arguments'', ''args'', ''parameters'', ''input'', ''functionArguments''] of
             Some b \<Rightarrow> (name, b)
           | None \<Rightarrow> ([], []))"

definition progress_message :: "string \<Rightarrow> string \<Rightarrow> bool" where
  "progress_message mt ct \<longleftrightarrow> mt = ''Progress'' \<or> ct \<in> {''SearchResults'', ''Code'', ''ToolCall''}"

definition classify_message :: "golib \<Rightarrow> json \<Rightarrow> stream_event list" where
  "classify_message L v = (case is_obj v of
      None \<Rightarrow> []
    | Some m \<Rightarrow>
        let t = as_str (get m ''text'');
            mt = as_str (get m ''messageType'');
            ct = as_str (get m ''contentType'');
            (name, args) = extractToolFields L m;
            kind = (if name \<noteq> [] \<and> args \<noteq> [] then ''tool''
                    else if progress_message mt ct then ''progress'' else ''text'')
        in if t = [] \<and> kind = ''text'' then []
           else [\<lparr>se_Kind = kind, se_Text = t, se_MessageType = mt, se_ContentType = ct,
                  se_ToolName = name, se_Arguments = args, se_Raw = []\<rparr>])"

definition classifyUpdateMessages :: "golib \<Rightarrow> json list \<Rightarrow> stream_event list" where
  "classifyUpdateMessages L msgs = concat (map (classify_message L) msgs)"

text \<open>The walk of \<open>extractToolEvents\<close>, with the calls seen so far in this turn.\<close>

definition tool_event :: "golib \<Rightarrow> obj \<Rightarrow> string set \<Rightarrow> stream_event list \<times> string set" where
  "tool_event L m seen =
     (let (name, args) = extractToolFields L m; key = name @ ''|'' @ args
      in if name \<noteq> [] \<and> args \<noteq> [] \<and> key \<notin> seen
         then ([\<lparr>se_Kind = ''tool'', se_Text = [], se_MessageType = [], se_ContentType = [],
                 se_ToolName = name, se_Arguments = args, se_Raw = marshal L (JObj m)\<rparr>], insert key seen)
         else ([], seen))"

fun then_walk :: "(string set \<Rightarrow> 'a list \<times> string set) \<Rightarrow> 'a list \<times> string set \<Rightarrow> 'a list \<times> string set" where
  "then_walk f (out, seen) = (let (out', seen') = f seen in (out @ out', seen'))"

function tool_walk :: "golib \<Rightarrow> json \<Rightarrow> string set \<Rightarrow> stream_event list \<times> string set" where
  "tool_walk L (JArr xs) seen = fold (\<lambda>x. then_walk (tool_walk L x)) xs ([], seen)"
| "tool_walk L (JObj m) seen = fold (\<lambda>(_, x). then_walk (tool_walk L x)) m (tool_event L m seen)"
| "tool_walk L JNull seen = ([], seen)"
| "tool_walk L (JBool b) seen = ([], seen)"
| "tool_walk L (JNum n) seen = ([], seen)"
| "tool_walk L (JStr s) seen = ([], seen)"
  by pat_completeness auto
termination
  by (relation "measure (\<lambda>(L, v, seen). size v)") (auto dest: size_entry size_element)

definition extractToolEvents :: "golib \<Rightarrow> json \<Rightarrow> string set \<Rightarrow> stream_event list \<times> string set" where
  "extractToolEvents L v seen = tool_walk L v seen"

section \<open>The state of a turn\<close>

record turn =
  deltas :: "string list"
  streamedText :: string
  emitted :: "string list"
  events_out :: "stream_event list"
  trail :: "stream_event list"
  final :: string
  throttling :: "json option"
  rawResult :: string
  raw_events :: "string list"
  seenStreamTools :: "string set"
  pongs :: nat

definition new_turn :: turn where
  "new_turn = \<lparr>deltas = [], streamedText = [], emitted = [], events_out = [], trail = [], final = [],
     throttling = None, rawResult = [], raw_events = [], seenStreamTools = {}, pongs = 0\<rparr>"

text \<open>
  The caller's handlers: whether there is one for deltas and one for events, and on which
  arguments they return an error.
\<close>

record handlers =
  has_delta :: bool
  delta_fails :: "string \<Rightarrow> bool"
  has_event :: bool
  event_fails :: "stream_event \<Rightarrow> bool"

datatype chat_error =
    Handler
  | ReadBeforeCompletion string
  | Context string
  | CompletionError obj
  | DeadlineExceeded

text \<open>
  Where the caller has one handler for both, \<open>trail\<close> is what it is handed, in order; a delta becomes
  a text event.
\<close>

definition delta_event :: "string \<Rightarrow> stream_event" where
  "delta_event d = \<lparr>se_Kind = ''text'', se_Text = d, se_MessageType = [], se_ContentType = [],
     se_ToolName = [], se_Arguments = [], se_Raw = []\<rparr>"

definition emitDelta :: "handlers \<Rightarrow> string \<Rightarrow> turn \<Rightarrow> chat_error + turn" where
  "emitDelta H d st =
     (if d = [] then Inr st
      else let st1 = st\<lparr>streamedText := streamedText st @ d\<rparr>
        in if \<not> has_delta H then Inr st1
           else if delta_fails H d then Inl Handler
           else Inr (st1\<lparr>emitted := emitted st1 @ [d], trail := trail st1 @ [delta_event d]\<rparr>))"

definition emitSnapshot :: "handlers \<Rightarrow> string \<Rightarrow> turn \<Rightarrow> chat_error + turn" where
  "emitSnapshot H snapshot st =
     (if snapshot = [] then Inr st
      else if streamedText st \<noteq> [] \<and> has_prefix snapshot (streamedText st)
        then emitDelta H (trim_prefix snapshot (streamedText st)) st
      else emitDelta H snapshot st)"

text \<open>Text that arrives, from the cursor or in a message, is kept and shown.\<close>

definition take_text :: "handlers \<Rightarrow> string \<Rightarrow> turn \<Rightarrow> chat_error + turn" where
  "take_text H t st = emitSnapshot H t (st\<lparr>deltas := deltas st @ [t]\<rparr>)"

definition send_event :: "handlers \<Rightarrow> stream_event \<Rightarrow> turn \<Rightarrow> chat_error + turn" where
  "send_event H ev st =
     (if event_fails H ev then Inl Handler else Inr (st\<lparr>events_out := events_out st @ [ev], trail := trail st @ [ev]\<rparr>))"

fun fold_steps :: "('a \<Rightarrow> 's \<Rightarrow> 'e + 's) \<Rightarrow> 'a list \<Rightarrow> 's \<Rightarrow> 'e + 's" where
  "fold_steps f [] s = Inr s"
| "fold_steps f (x # xs) s = (case f x s of Inl e \<Rightarrow> Inl e | Inr s1 \<Rightarrow> fold_steps f xs s1)"

section \<open>Frames\<close>

definition frame_events :: "golib \<Rightarrow> handlers \<Rightarrow> obj \<Rightarrow> turn \<Rightarrow> chat_error + turn" where
  "frame_events L H arg st =
     (if \<not> has_event H then Inr st
      else let (tools, seen) = extractToolEvents L (JObj arg) (seenStreamTools st);
               classified = map (\<lambda>ev. ev\<lparr>se_Raw := marshal L (JObj arg)\<rparr>)
                 (classifyUpdateMessages L (as_arr (get arg ''messages'')))
           in fold_steps (send_event H)
                (tools @ filter (\<lambda>ev. se_Kind ev \<noteq> ''text'') classified)
                (st\<lparr>seenStreamTools := seen\<rparr>))"

definition tool_frame :: "obj \<Rightarrow> bool" where
  "tool_frame arg = list_ex (\<lambda>mraw. let m = as_obj mraw
     in progress_message (as_str (get m ''messageType'')) (as_str (get m ''contentType'')))
     (as_arr (get arg ''messages''))"

definition bot_text :: "json \<Rightarrow> string" where
  "bot_text mraw = (case is_obj mraw of
      None \<Rightarrow> []
    | Some m \<Rightarrow> if as_str (get m ''author'') = ''bot'' \<and> as_str (get m ''messageType'') = []
        then as_str (get m ''text'') else [])"

definition frame_message :: "handlers \<Rightarrow> json \<Rightarrow> turn \<Rightarrow> chat_error + turn" where
  "frame_message H mraw st = (if bot_text mraw = [] then Inr st else take_text H (bot_text mraw) st)"

definition note_throttling :: "obj \<Rightarrow> turn \<Rightarrow> turn" where
  "note_throttling m st =
     (case lookup m ''throttling'' of Some thr \<Rightarrow> st\<lparr>throttling := Some thr\<rparr> | None \<Rightarrow> st)"

definition cursor_text :: "obj \<Rightarrow> string" where
  "cursor_text arg = (if tool_frame arg then [] else as_str (get arg ''writeAtCursor''))"

definition update_arg :: "golib \<Rightarrow> handlers \<Rightarrow> json \<Rightarrow> turn \<Rightarrow> chat_error + turn" where
  "update_arg L H v st = (case is_obj v of
      None \<Rightarrow> Inr st
    | Some arg \<Rightarrow>
        (case frame_events L H arg st of
           Inl e \<Rightarrow> Inl e
         | Inr st1 \<Rightarrow>
             (case (if cursor_text arg = [] then Inr st1 else take_text H (cursor_text arg) st1) of
                Inl e \<Rightarrow> Inl e
              | Inr st2 \<Rightarrow> fold_steps (frame_message H) (as_arr (get arg ''messages'')) (note_throttling arg st2))))"

definition result_frame :: "obj \<Rightarrow> turn \<Rightarrow> turn" where
  "result_frame obj st = (case is_obj (get obj ''item'') of
      None \<Rightarrow> st
    | Some item \<Rightarrow>
        let st1 = note_throttling item st in
        (case is_obj (get item ''result'') of
           None \<Rightarrow> st1
         | Some res \<Rightarrow>
             let st2 = st1\<lparr>rawResult := as_str (get res ''value'')\<rparr> in
             (case is_str (get res ''message'') of Some msg \<Rightarrow> st2\<lparr>final := msg\<rparr> | None \<Rightarrow> st2)))"

text \<open>The frame type: \<open>int(t)\<close> of \<open>obj["type"].(float64)\<close>, truncated toward zero.\<close>

definition frame_type :: "obj \<Rightarrow> int" where
  "frame_type obj = (case is_num (get obj ''type'') of
      Some (Finite r) \<Rightarrow> (if 0 \<le> r then \<lfloor>r\<rfloor> else - \<lfloor>- r\<rfloor>)
    | _ \<Rightarrow> 0)"

text \<open>What one frame leads to: the next state, the end of the turn, or an error.\<close>

datatype progress = Running turn | Finished turn | Aborted chat_error

definition frame_step :: "golib \<Rightarrow> handlers \<Rightarrow> string \<Rightarrow> turn \<Rightarrow> progress" where
  "frame_step L H part0 st =
     (let part = trim_space part0 in
      if part = [] then Running st
      else let st1 = st\<lparr>raw_events := raw_events st @ [part]\<rparr> in
        case (case unmarshal L part of Some (JObj m) \<Rightarrow> Some m | Some JNull \<Rightarrow> Some [] | _ \<Rightarrow> None) of
          None \<Rightarrow> Running st1
        | Some obj \<Rightarrow>
            if frame_type obj = 6 then Running (st1\<lparr>pongs := Suc (pongs st1)\<rparr>)
            else if frame_type obj = 1 \<and> as_str (get obj ''target'') = ''update'' then
              (case fold_steps (update_arg L H) (as_arr (get obj ''arguments'')) st1 of
                 Inl e \<Rightarrow> Aborted e
               | Inr st2 \<Rightarrow> Running st2)
            else if frame_type obj = 2 then Running (result_frame obj st1)
            else if frame_type obj = 3 then
              (case is_obj (get obj ''error'') of
                 Some e \<Rightarrow> Aborted (CompletionError e)
               | None \<Rightarrow> Finished st1)
            else Running st1)"

fun frames :: "golib \<Rightarrow> handlers \<Rightarrow> string list \<Rightarrow> turn \<Rightarrow> progress" where
  "frames L H [] st = Running st"
| "frames L H (part # parts) st = (case frame_step L H part st of
      Running st1 \<Rightarrow> frames L H parts st1
    | p \<Rightarrow> p)"

section \<open>The read loop\<close>

datatype read =
    Message string
  | ReadError string
  | Cancelled string
  | DeadlinePassed

definition record_separator :: char where
  "record_separator = CHR 0x1E"

text \<open>\<open>None\<close>: the loop is still waiting for what follows the given reads.\<close>

fun read_loop :: "golib \<Rightarrow> handlers \<Rightarrow> read list \<Rightarrow> turn \<Rightarrow> (chat_error + turn) option" where
  "read_loop L H [] st = None"
| "read_loop L H (DeadlinePassed # rs) st = Some (Inl DeadlineExceeded)"
| "read_loop L H (Cancelled e # rs) st = Some (Inl (Context e))"
| "read_loop L H (ReadError e # rs) st = Some (Inl (ReadBeforeCompletion e))"
| "read_loop L H (Message msg # rs) st =
     (case frames L H (str_split record_separator msg) st of
        Running st1 \<Rightarrow> read_loop L H rs st1
      | Finished st1 \<Rightarrow> Some (Inr st1)
      | Aborted e \<Rightarrow> Some (Inl e))"

definition result_text :: "turn \<Rightarrow> string" where
  "result_text st = (if final st = [] then concat (deltas st) else final st)"

section \<open>Classified frames\<close>

text \<open>
  \<open>normalize\<close> decodes a frame into a struct; a field of the wrong type keeps its zero value.  The
  error field is raw JSON, present as soon as the key is there.
\<close>

definition int_field :: "json \<Rightarrow> int" where
  "int_field v = (case v of JNum (Finite r) \<Rightarrow> if snd (quotient_of r) = 1 then \<lfloor>r\<rfloor> else 0 | _ \<Rightarrow> 0)"

definition has_field :: "obj \<Rightarrow> string \<Rightarrow> bool" where
  "has_field m k = list_ex (\<lambda>(k', _). equal_fold k' k) m"

definition normalize_kind :: "golib \<Rightarrow> string \<Rightarrow> string" where
  "normalize_kind L r =
     (let m = (case unmarshal L r of Some v \<Rightarrow> as_obj v | None \<Rightarrow> []);
          typ = int_field (struct_field m ''type'');
          target = as_str (struct_field m ''target'')
      in if typ = 6 then ''ping''
         else if typ = 1 \<and> target = ''update'' then ''update''
         else if typ = 2 then ''result''
         else if typ = 3 \<and> has_field m ''error'' then ''error''
         else if typ = 3 then ''complete''
         else if target \<noteq> [] then ''target''
         else ''unknown'')"

definition NormalizeEvents :: "golib \<Rightarrow> string list \<Rightarrow> string list" where
  "NormalizeEvents L rs = map (normalize_kind L) rs"

section \<open>Image URLs\<close>

text \<open>
  \<open>b64_ok\<close>: whether \<open>base64.StdEncoding\<close> decodes the string; the result \<open>None\<close> is the panic of
  an index out of range.
\<close>

definition after_comma :: "string \<Rightarrow> string option" where
  "after_comma s = (case str_index s '','' of None \<Rightarrow> None | Some i \<Rightarrow> Some (drop (i + 1) s))"

definition isImageURL :: "netlib \<Rightarrow> (string \<Rightarrow> bool) \<Rightarrow> string \<Rightarrow> bool option" where
  "isImageURL N b64_ok s =
     (if has_prefix s ''data:image/'' then map_option b64_ok (after_comma s)
      else case url_parse N s of
          None \<Rightarrow> Some False
        | Some u \<Rightarrow>
            if u_Scheme u \<noteq> ''https'' then Some False
            else let p = to_lower (u_Path u) in
              Some (str_contains p ''image'' \<or> list_ex (has_suffix p) [''.png'', ''.jpg'', ''.jpeg'', ''.webp'', ''.gif'']))"

definition image_key :: "string \<Rightarrow> bool" where
  "image_key k \<longleftrightarrow> to_lower k \<in> {''url'', ''imageurl'', ''thumbnailurl'', ''downloadurl'', ''src''}"

definition note_image :: "netlib \<Rightarrow> (string \<Rightarrow> bool) \<Rightarrow> string \<Rightarrow> string list \<Rightarrow> string list option" where
  "note_image N b64_ok s out = (case isImageURL N b64_ok s of
      None \<Rightarrow> None
    | Some ok \<Rightarrow> Some (if ok \<and> s \<notin> set out then out @ [s] else out))"

fun fold_opt :: "('a \<Rightarrow> 's \<Rightarrow> 's option) \<Rightarrow> 'a list \<Rightarrow> 's \<Rightarrow> 's option" where
  "fold_opt f [] s = Some s"
| "fold_opt f (x # xs) s = (case f x s of None \<Rightarrow> None | Some s1 \<Rightarrow> fold_opt f xs s1)"

lemma fold_opt_cong [fundef_cong]:
  "xs = ys \<Longrightarrow> s = t \<Longrightarrow> (\<And>x s. x \<in> set ys \<Longrightarrow> f x s = g x s) \<Longrightarrow> fold_opt f xs s = fold_opt g ys t"
  by (induction xs arbitrary: s t ys) (auto split: option.split)

function image_walk :: "netlib \<Rightarrow> (string \<Rightarrow> bool) \<Rightarrow> json \<Rightarrow> string list \<Rightarrow> string list option" where
  "image_walk N b (JArr xs) out = fold_opt (image_walk N b) xs out"
| "image_walk N b (JObj m) out =
     fold_opt (\<lambda>(k, e) out. case is_str e of
         Some s \<Rightarrow> if image_key k then note_image N b s out else Some out
       | None \<Rightarrow> image_walk N b e out) m out"
| "image_walk N b JNull out = Some out"
| "image_walk N b (JBool x) out = Some out"
| "image_walk N b (JNum n) out = Some out"
| "image_walk N b (JStr s) out = Some out"
  by pat_completeness auto
termination
  by (relation "measure (\<lambda>(N, b, v, out). size v)") (auto dest: size_entry size_element)

definition imageURLs :: "golib \<Rightarrow> netlib \<Rightarrow> (string \<Rightarrow> bool) \<Rightarrow> string list \<Rightarrow> string list option" where
  "imageURLs L N b rs =
     fold_opt (\<lambda>r out. case unmarshal L r of Some v \<Rightarrow> image_walk N b v out | None \<Rightarrow> Some out) rs []"

section \<open>The end of a turn\<close>

text \<open>A frame that ends the turn as a success: type 3, and no error object.\<close>

definition completion_frame :: "golib \<Rightarrow> string \<Rightarrow> bool" where
  "completion_frame L part \<longleftrightarrow> (\<exists>m. unmarshal L (trim_space part) = Some (JObj m) \<and> frame_type m = 3
     \<and> is_obj (get m ''error'') = None)"

lemma frame_type_Nil [simp]: "frame_type [] = 0"
  by (simp add: frame_type_def)

lemma frame_step_Finished: "frame_step L H part st = Finished st' \<Longrightarrow> completion_frame L part"
  by (auto simp: frame_step_def completion_frame_def Let_def
      split: if_splits option.splits json.splits sum.splits)

lemma frames_Finished:
  "frames L H parts st = Finished st' \<Longrightarrow> \<exists>part\<in>set parts. completion_frame L part"
  by (induction parts arbitrary: st) (auto split: progress.splits dest: frame_step_Finished)

lemma read_loop_Inr:
  "read_loop L H rs st = Some (Inr st') \<Longrightarrow>
    \<exists>msgs msg post part. rs = map Message msgs @ Message msg # post
      \<and> part \<in> set (str_split record_separator msg) \<and> completion_frame L part"
proof (induction L H rs st rule: read_loop.induct)
  case (5 L H msg rs st)
  show ?case
  proof (cases "frames L H (str_split record_separator msg) st")
    case (Running st1)
    with 5 obtain msgs m post part where "rs = map Message msgs @ Message m # post"
      "part \<in> set (str_split record_separator m)" "completion_frame L part" by auto
    then show ?thesis
      by (intro exI [of _ "msg # msgs"] exI [of _ m] exI [of _ post] exI [of _ part]) simp
  next
    case (Finished st1)
    from frames_Finished [OF this] obtain part where
      "part \<in> set (str_split record_separator msg)" "completion_frame L part" by blast
    then show ?thesis
      by (intro exI [of _ "[]"] exI [of _ msg] exI [of _ rs] exI [of _ part]) simp
  next
    case (Aborted e)
    with 5 show ?thesis by simp
  qed
qed simp_all

section \<open>What the client is shown\<close>

text \<open>The text handed to the delta handler is the text counted as streamed.\<close>

definition shown_ok :: "turn \<Rightarrow> bool" where
  "shown_ok st \<longleftrightarrow> concat (emitted st) = streamedText st"

named_theorems shown_keeps \<open>steps that keep the shown text and the streamed text equal\<close>

lemma shown_ok_cong:
  "emitted st' = emitted st \<Longrightarrow> streamedText st' = streamedText st \<Longrightarrow> shown_ok st \<Longrightarrow> shown_ok st'"
  by (simp add: shown_ok_def)

lemma emitDelta_shown: "has_delta H \<Longrightarrow> emitDelta H d st = Inr st' \<Longrightarrow> shown_ok st \<Longrightarrow> shown_ok st'"
  by (auto simp: emitDelta_def shown_ok_def Let_def split: if_splits)

lemma take_text_shown: "has_delta H \<Longrightarrow> take_text H t st = Inr st' \<Longrightarrow> shown_ok st \<Longrightarrow> shown_ok st'"
  by (auto simp: take_text_def emitSnapshot_def shown_ok_def Let_def emitDelta_def split: if_splits)

lemma fold_steps_keeps:
  assumes "\<And>x s s'. f x s = Inr s' \<Longrightarrow> P s \<Longrightarrow> P s'"
  shows "fold_steps f xs s = Inr s' \<Longrightarrow> P s \<Longrightarrow> P s'"
  by (induction xs arbitrary: s) (auto split: sum.splits dest: assms)

lemma send_event_shown: "send_event H ev st = Inr st' \<Longrightarrow> shown_ok st \<Longrightarrow> shown_ok st'"
  by (auto simp: send_event_def shown_ok_def split: if_splits)

lemma frame_events_shown:
  assumes "frame_events L H arg st = Inr st'" and "shown_ok st"
  shows "shown_ok st'"
proof (cases "has_event H")
  case True
  obtain tools seen where "extractToolEvents L (JObj arg) (seenStreamTools st) = (tools, seen)" by fastforce
  with assms(1) True obtain evs where
    "fold_steps (send_event H) evs (st\<lparr>seenStreamTools := seen\<rparr>) = Inr st'"
    by (auto simp: frame_events_def Let_def)
  moreover have "shown_ok (st\<lparr>seenStreamTools := seen\<rparr>)" using assms(2) by (simp add: shown_ok_def)
  ultimately show ?thesis
    by (rule fold_steps_keeps [where P = shown_ok, rotated]) (rule send_event_shown)
next
  case False
  with assms show ?thesis by (simp add: frame_events_def)
qed

lemma update_arg_shown:
  assumes "has_delta H" and "update_arg L H v st = Inr st'" and "shown_ok st"
  shows "shown_ok st'"
proof (cases "is_obj v")
  case None
  with assms show ?thesis by (simp add: update_arg_def)
next
  case (Some arg)
  with assms(2) obtain st1 st2 where
    1: "frame_events L H arg st = Inr st1" and
    2: "(if cursor_text arg = [] then Inr st1 else take_text H (cursor_text arg) st1) = Inr st2" and
    3: "fold_steps (frame_message H) (as_arr (get arg ''messages'')) (note_throttling arg st2) = Inr st'"
    by (auto simp: update_arg_def split: sum.splits)
  have "shown_ok st1" using frame_events_shown [OF 1 assms(3)] .
  then have "shown_ok st2" using 2 take_text_shown [OF assms(1)] by (auto split: if_splits)
  then have "shown_ok (note_throttling arg st2)"
    by (simp add: note_throttling_def shown_ok_def split: option.split)
  with 3 show ?thesis
    by (rule fold_steps_keeps [where P = shown_ok, rotated])
      (auto simp: frame_message_def split: if_splits dest: take_text_shown [OF assms(1)])
qed

lemma result_frame_shown: "shown_ok (result_frame obj st) = shown_ok st"
  by (simp add: result_frame_def note_throttling_def shown_ok_def Let_def split: option.split)

lemma frame_step_shown:
  assumes H: "has_delta H" and "shown_ok st" and step: "frame_step L H part st = p"
  shows "case p of Running st' \<Rightarrow> shown_ok st' | Finished st' \<Rightarrow> shown_ok st' | Aborted e \<Rightarrow> True"
proof -
  define st1 where "st1 = st\<lparr>raw_events := raw_events st @ [trim_space part]\<rparr>"
  have ok1: "shown_ok st1" using assms(2) by (simp add: st1_def shown_ok_def)
  have args: "shown_ok st2" if "fold_steps (update_arg L H) xs st1 = Inr st2" for xs st2
    using that ok1 by (rule fold_steps_keeps [where P = shown_ok, rotated]) (rule update_arg_shown [OF H])
  have pong: "shown_ok (st1\<lparr>pongs := Suc (pongs st1)\<rparr>)" using ok1 by (simp add: shown_ok_def)
  from step show ?thesis
    using assms(2) ok1 args pong
    by (auto simp: frame_step_def Let_def result_frame_shown st1_def [symmetric]
        split: if_splits option.splits json.splits sum.splits)
qed

lemma frames_shown:
  assumes "has_delta H" and "shown_ok st"
  shows "case frames L H parts st of Running st' \<Rightarrow> shown_ok st' | Finished st' \<Rightarrow> shown_ok st' | Aborted e \<Rightarrow> True"
  using assms(2)
proof (induction parts arbitrary: st)
  case (Cons part parts)
  from frame_step_shown [OF assms(1) Cons.prems refl, of L part] Cons.IH show ?case
    by (cases "frame_step L H part st") auto
qed simp

lemma read_loop_shown:
  "read_loop L H rs st = Some (Inr st') \<Longrightarrow> has_delta H \<Longrightarrow> shown_ok st \<Longrightarrow> shown_ok st'"
proof (induction L H rs st rule: read_loop.induct)
  case (5 L H msg rs st)
  from frames_shown [OF "5.prems"(2,3), of L "str_split record_separator msg"] 5 show ?case
    by (cases "frames L H (str_split record_separator msg) st") auto
qed simp_all

section \<open>Properties\<close>

text \<open>
  C21: a turn ends as a success only after a completion frame: a SignalR frame of type 3 without
  an error object has arrived in a message, and no read error, cancellation or deadline came
  before it.
\<close>
theorem success_needs_completion_frame:
  assumes "read_loop L H rs new_turn = Some (Inr st)"
  shows "\<exists>msgs msg post part m. rs = map Message msgs @ Message msg # post
    \<and> part \<in> set (str_split record_separator msg)
    \<and> unmarshal L (trim_space part) = Some (JObj m) \<and> frame_type m = 3
    \<and> is_obj (get m ''error'') = None"
  using read_loop_Inr [OF assms] unfolding completion_frame_def by blast

text \<open>
  the deltas handed to the client's handler are, in order, exactly the text the turn counts
  as streamed: nothing is shown twice or left out of the count.
\<close>
theorem shown_text_is_streamed_text:
  assumes "read_loop L H rs new_turn = Some (Inr st)" and "has_delta H"
  shows "concat (emitted st) = streamedText st"
  using read_loop_shown [OF assms] by (simp add: shown_ok_def new_turn_def)

text \<open>
  a completion frame that reports its error as a string, the form SignalR defines, ends the
  turn as a success.
\<close>
theorem string_error_counts_as_success:
  assumes "unmarshal L (trim_space part) = Some (JObj m)" and "trim_space part \<noteq> []"
    and "frame_type m = 3" and "get m ''error'' = JStr e"
  shows "frame_step L H part st = Finished (st\<lparr>raw_events := raw_events st @ [trim_space part]\<rparr>)"
  using assms by (simp add: frame_step_def Let_def)

lemma take_text_next:
  assumes "\<And>d. \<not> delta_fails H d"
  shows "\<exists>st'. take_text H t st = Inr st' \<and> deltas st' = deltas st @ [t] \<and> final st' = final st
    \<and> (has_prefix t (streamedText st) \<longrightarrow> streamedText st' = t)"
  using assms
  by (auto simp: take_text_def emitSnapshot_def emitDelta_def Let_def has_prefix_iff split: if_splits)

lemma cumulative_run:
  assumes "\<And>d. \<not> delta_fails H d" and "sorted_wrt (\<lambda>a b. has_prefix b a) ts"
    and "\<forall>t\<in>set ts. has_prefix t (streamedText st)"
  shows "\<exists>st'. fold_steps (take_text H) ts st = Inr st' \<and> deltas st' = deltas st @ ts \<and> final st' = final st
    \<and> streamedText st' = (if ts = [] then streamedText st else last ts)"
  using assms(2,3)
proof (induction ts arbitrary: st)
  case (Cons t ts)
  from take_text_next [OF assms(1), where t = t and st = st] Cons.prems obtain st1 where
    st1: "take_text H t st = Inr st1" "deltas st1 = deltas st @ [t]" "final st1 = final st" "streamedText st1 = t"
    by auto
  with Cons.IH [of st1] Cons.prems show ?case by auto
qed simp

text \<open>
  when the texts of a turn are snapshots that grow, the client is shown the last snapshot
  once; but with no final message the result of the turn is all the snapshots one after another.
\<close>
theorem snapshots_streamed_once_but_joined:
  assumes "has_delta H" and "\<And>d. \<not> delta_fails H d" and "ts \<noteq> []"
    and "sorted_wrt (\<lambda>a b. has_prefix b a) ts"
  shows "\<exists>st. fold_steps (take_text H) ts new_turn = Inr st \<and> concat (emitted st) = last ts
    \<and> result_text st = concat ts"
proof -
  from cumulative_run [OF assms(2,4), of new_turn] assms(3) obtain st where
    st: "fold_steps (take_text H) ts new_turn = Inr st" "deltas st = ts" "final st = []" "streamedText st = last ts"
    by (auto simp: new_turn_def)
  have "shown_ok st"
    using st(1) by (rule fold_steps_keeps [where P = shown_ok, rotated])
      (auto simp: shown_ok_def new_turn_def dest: take_text_shown [OF assms(1), unfolded shown_ok_def])
  with st show ?thesis by (simp add: shown_ok_def result_text_def)
qed

text \<open>
  a delta that repeats the whole text streamed so far is taken for a snapshot, and is not
  shown: two equal first deltas reach the client as one.
\<close>
theorem repeated_delta_is_lost:
  assumes "streamedText st = t" and "t \<noteq> []"
  shows "take_text H t st = Inr (st\<lparr>deltas := deltas st @ [t]\<rparr>)"
  using assms by (simp add: take_text_def emitSnapshot_def emitDelta_def trim_prefix_def)

lemma then_walk_grows: "\<exists>more seen'. fold (\<lambda>x. then_walk (f x)) xs (out, seen) = (out @ more, seen')"
proof (induction xs arbitrary: out seen)
  case (Cons x xs)
  obtain out' seen' where "f x seen = (out', seen')" by fastforce
  with Cons [of "out @ out'" seen'] show ?case by auto
qed simp

lemma tool_walk_obj: "\<exists>more seen'. tool_walk L (JObj m) seen = (fst (tool_event L m seen) @ more, seen')"
  using then_walk_grows [of "\<lambda>(k, x). tool_walk L x" m "fst (tool_event L m seen)" "snd (tool_event L m seen)"]
  by (simp add: case_prod_unfold)

definition one_message :: "obj \<Rightarrow> obj" where
  "one_message m = [(''messages'', JArr [JObj m])]"

lemma tool_walk_one:
  "\<exists>more seen'. tool_walk L (JObj (one_message m)) seen = (fst (tool_event L m seen) @ more, seen')"
proof -
  have none: "tool_event L (one_message m) seen = ([], seen)"
    by (simp add: tool_event_def extractToolFields_def first_nonempty_str_def one_message_def)
  obtain more seen' where "tool_walk L (JObj m) seen = (fst (tool_event L m seen) @ more, seen')"
    using tool_walk_obj by blast
  then show ?thesis unfolding one_message_def using none by (simp add: one_message_def)
qed

lemma send_all:
  assumes "\<And>ev. \<not> event_fails H ev"
  shows "fold_steps (send_event H) evs st = Inr (st\<lparr>events_out := events_out st @ evs, trail := trail st @ evs\<rparr>)"
  by (induction evs arbitrary: st) (simp_all add: send_event_def assms)

text \<open>
  a tool call that ChatHub puts into a message is handed to the event handler twice, once by
  the walk of the whole update and once by the classification of its messages.
\<close>
theorem tool_call_in_message_reported_twice:
  assumes "has_event H" and "\<And>ev. \<not> event_fails H ev"
    and "extractToolFields L m = (name, args)" and "name \<noteq> []" and "args \<noteq> []"
    and "name @ ''|'' @ args \<notin> seenStreamTools st"
  shows "\<exists>st'. frame_events L H (one_message m) st = Inr st'
    \<and> 2 \<le> length (filter (\<lambda>ev. se_Kind ev = ''tool'' \<and> se_ToolName ev = name \<and> se_Arguments ev = args)
          (drop (length (events_out st)) (events_out st')))"
proof -
  obtain more seen' where walk:
    "tool_walk L (JObj (one_message m)) (seenStreamTools st) =
      (fst (tool_event L m (seenStreamTools st)) @ more, seen')" using tool_walk_one by blast
  define c where "c = map (\<lambda>ev. ev\<lparr>se_Raw := marshal L (JObj (one_message m))\<rparr>)
    (classifyUpdateMessages L (as_arr (get (one_message m) ''messages'')))"
  define evs where "evs = (fst (tool_event L m (seenStreamTools st)) @ more) @ filter (\<lambda>ev. se_Kind ev \<noteq> ''text'') c"
  have st': "frame_events L H (one_message m) st =
      Inr (st\<lparr>seenStreamTools := seen', events_out := events_out st @ evs, trail := trail st @ evs\<rparr>)"
    using assms(1) walk send_all [OF assms(2)]
    by (simp add: frame_events_def extractToolEvents_def evs_def c_def Let_def)
  let ?hit = "\<lambda>ev. se_Kind ev = ''tool'' \<and> se_ToolName ev = name \<and> se_Arguments ev = args"
  have "length (filter ?hit (fst (tool_event L m (seenStreamTools st)))) = 1"
    using assms(3-6) by (simp add: tool_event_def)
  moreover have "length (filter ?hit (filter (\<lambda>ev. se_Kind ev \<noteq> ''text'') c)) = 1"
    using assms(3-5)
    by (simp add: c_def classifyUpdateMessages_def one_message_def classify_message_def Let_def)
  ultimately have "2 \<le> length (filter ?hit evs)" by (simp add: evs_def)
  with st' show ?thesis by simp
qed

text \<open>
  collecting the image URLs of a turn panics exactly on a \<open>data:image/\<close> URL without a comma:
  \<open>isImageURL\<close> has no value for it, and has one for every other string.
\<close>
theorem image_url_without_comma_panics:
  "isImageURL N b64 s = None \<longleftrightarrow> has_prefix s ''data:image/'' \<and> \<not> str_contains s '',''"
  by (auto simp: isImageURL_def after_comma_def str_contains_def Let_def split: option.split)

section \<open>Witnesses\<close>

definition frame_lib :: golib where
  "frame_lib = \<lparr>marshal = (\<lambda>_. ''{}''),
     unmarshal = (\<lambda>s. if s = ''done'' then Some (JObj [(''type'', JNum (Finite 3))])
       else if s = ''err'' then Some (JObj [(''type'', JNum (Finite 3)), (''error'', JStr ''boom'')])
       else if s = ''hi'' then Some (JObj [(''type'', JNum (Finite 1)), (''target'', JStr ''update''),
         (''arguments'', JArr [JObj [(''writeAtCursor'', JStr ''hi'')]])])
       else None),
     sprint_composite = (\<lambda>_. []), sha256_hex = (\<lambda>s. s)\<rparr>"

definition quiet :: handlers where
  "quiet = \<lparr>has_delta = True, delta_fails = (\<lambda>_. False), has_event = True, event_fails = (\<lambda>_. False)\<rparr>"

definition hi_turn :: turn where
  "hi_turn = new_turn\<lparr>deltas := [''hi''], streamedText := ''hi'', emitted := [''hi''],
     trail := [delta_event ''hi''], raw_events := [''hi'', ''done'']\<rparr>"

lemma hi_run: "read_loop frame_lib quiet [Message ''hi'', Message ''done''] new_turn = Some (Inr hi_turn)"
proof -
  have t: "trim_space ''hi'' = ''hi''" "trim_space ''done'' = ''done''" by code_simp+
  have sp: "str_split record_separator ''hi'' = [''hi'']" "str_split record_separator ''done'' = [''done'']"
    by code_simp+
  show ?thesis
    by (simp add: sp frame_step_def t frame_lib_def frame_type_def update_arg_def frame_events_def quiet_def
        extractToolEvents_def tool_event_def extractToolFields_def first_nonempty_str_def
        classifyUpdateMessages_def cursor_text_def tool_frame_def take_text_def emitSnapshot_def
        emitDelta_def delta_event_def new_turn_def hi_turn_def note_throttling_def Let_def)
qed

theorem success_needs_completion_frame_witness:
  "\<exists>m. unmarshal frame_lib ''done'' = Some (JObj m) \<and> frame_type m = 3
    \<and> (\<exists>msgs msg post. [Message ''hi'', Message ''done''] = map Message msgs @ Message msg # post)"
  using success_needs_completion_frame [OF hi_run] by (auto simp: frame_lib_def frame_type_def)

theorem shown_text_is_streamed_text_witness: "concat (emitted hi_turn) = ''hi''"
  using shown_text_is_streamed_text [OF hi_run] by (simp add: quiet_def hi_turn_def)

theorem string_error_counts_as_success_witness:
  "frame_step frame_lib quiet ''err'' new_turn = Finished (new_turn\<lparr>raw_events := [''err'']\<rparr>)"
proof -
  have "trim_space ''err'' = ''err''" by code_simp
  then show ?thesis
    using string_error_counts_as_success [of frame_lib "''err''"
        "[(''type'', JNum (Finite 3)), (''error'', JStr ''boom'')]" "''boom''" quiet new_turn]
    by (simp add: frame_lib_def frame_type_def new_turn_def)
qed

theorem snapshots_streamed_once_but_joined_witness:
  "\<exists>st. fold_steps (take_text quiet) [''Hel'', ''Hello''] new_turn = Inr st
    \<and> concat (emitted st) = ''Hello'' \<and> result_text st = ''HelHello''"
  using snapshots_streamed_once_but_joined [of quiet "[''Hel'', ''Hello'']"]
  by (simp add: quiet_def has_prefix_def)

theorem repeated_delta_is_lost_witness:
  "take_text quiet ''hi'' hi_turn = Inr (hi_turn\<lparr>deltas := [''hi'', ''hi'']\<rparr>)"
  using repeated_delta_is_lost [of hi_turn "''hi''" quiet] by (simp add: hi_turn_def)

theorem tool_call_in_message_reported_twice_witness:
  "\<exists>st'. frame_events frame_lib quiet (one_message [(''name'', JStr ''ls''), (''arguments'', JObj [])]) new_turn
     = Inr st' \<and> 2 \<le> length (filter (\<lambda>ev. se_ToolName ev = ''ls'') (events_out st'))"
proof -
  have "extractToolFields frame_lib [(''name'', JStr ''ls''), (''arguments'', JObj [])] = (''ls'', ''{}'')"
    by code_simp
  from tool_call_in_message_reported_twice [OF _ _ this, of quiet new_turn] obtain st' where
    st': "frame_events frame_lib quiet (one_message [(''name'', JStr ''ls''), (''arguments'', JObj [])]) new_turn = Inr st'"
    "2 \<le> length (filter (\<lambda>ev. se_Kind ev = ''tool'' \<and> se_ToolName ev = ''ls'' \<and> se_Arguments ev = ''{}'') (events_out st'))"
    by (auto simp: quiet_def new_turn_def)
  note st'(2)
  also have "length (filter (\<lambda>ev. se_Kind ev = ''tool'' \<and> se_ToolName ev = ''ls'' \<and> se_Arguments ev = ''{}'') (events_out st'))
      \<le> length (filter (\<lambda>ev. se_ToolName ev = ''ls'') (events_out st'))"
    by (rule length_filter_weaken) simp
  finally show ?thesis using st'(1) by blast
qed

end
