(* ===== verification/StreamGate.thy ===== *)
theory StreamGate
  imports ChatStream
begin

text \<open>
  The text a streaming chat completion shows while the model is still writing: the event handler
  and the end of the streaming path of \<open>openaiChat\<close> (src/internal/web/server.go).  The last
  runes are held back, so that a fenced tool call can be recognised before any part of it has
  been sent.
\<close>

section \<open>The handler of upstream events\<close>

record gate =
  sent :: "string list"
  pending :: string
  all_text :: string
  streamedTools :: "detectedToolCall list"

definition new_gate :: gate where
  "new_gate = \<lparr>sent = [], pending = [], all_text = [], streamedTools = []\<rparr>"

definition emitText :: "string \<Rightarrow> gate \<Rightarrow> gate" where
  "emitText part st = (if part = [] then st else st\<lparr>sent := sent st @ [part]\<rparr>)"

text \<open>
  The positions at which the runes of a string begin.  The text comes out of \<open>json.Unmarshal\<close>, so
  it is valid UTF-8 and every byte that is not a continuation byte begins a rune.
\<close>

definition continuation_byte :: "char \<Rightarrow> bool" where
  "continuation_byte c \<longleftrightarrow> 128 \<le> (of_char c :: nat) \<and> (of_char c :: nat) < 192"

definition rune_starts :: "string \<Rightarrow> nat list" where
  "rune_starts v = filter (\<lambda>i. \<not> continuation_byte (v ! i)) [0..<length v]"

definition held_back :: nat where
  "held_back = 8"

definition gate_text :: "string \<Rightarrow> gate \<Rightarrow> gate" where
  "gate_text t st =
     (let v = pending st @ t;
          st1 = st\<lparr>all_text := all_text st @ t\<rparr>;
          n = length (rune_starts v)
      in case str_index v fence of
           Some i \<Rightarrow> (emitText (take i v) st1)\<lparr>pending := drop i v\<rparr>
         | None \<Rightarrow>
             if n > held_back then
               (let cut = rune_starts v ! (n - held_back)
                in (emitText (take cut v) st1)\<lparr>pending := drop cut v\<rparr>)
             else st1\<lparr>pending := v\<rparr>)"

text \<open>\<open>fresh_id\<close> is the random id of a streamed call.\<close>

definition gate_event :: "string \<Rightarrow> stream_event \<Rightarrow> gate \<Rightarrow> gate" where
  "gate_event fresh_id ev st =
     (if se_Kind ev = ''tool'' \<and> se_ToolName ev \<noteq> [] \<and> se_Arguments ev \<noteq> [] then
        st\<lparr>streamedTools := streamedTools st @
          [\<lparr>dc_ID = ''call_'' @ fresh_id, dc_Type = [], dc_Name = se_ToolName ev, dc_Arguments = se_Arguments ev\<rparr>]\<rparr>
      else if se_Kind ev \<noteq> ''text'' \<or> se_Text ev = [] then st
      else gate_text (se_Text ev) st)"

definition gate_run :: "(string \<times> stream_event) list \<Rightarrow> gate \<Rightarrow> gate" where
  "gate_run evs st = fold (\<lambda>(i, ev). gate_event i ev) evs st"

section \<open>The end of the stream\<close>

datatype stream_reply = IssueCalls "detectedToolCall list" | TextDone

definition recover_text :: "string \<Rightarrow> gate \<Rightarrow> gate" where
  "recover_text res_text st =
     (if all_text st = [] \<and> trim_space res_text \<noteq> []
      then st\<lparr>all_text := res_text, pending := pending st @ res_text\<rparr> else st)"

definition stream_finish ::
    "golib \<Rightarrow> obj list \<Rightarrow> json \<Rightarrow> int \<Rightarrow> string \<Rightarrow> gate \<Rightarrow> stream_reply \<times> gate" where
  "stream_finish L tools choice configured res_text st =
     (let st1 = recover_text res_text st;
          calls = (if streamedTools st1 = [] then fencedToolCalls L (all_text st1) tools choice
                   else streamedTools st1)
      in if calls \<noteq> [] then (IssueCalls (issue_calls calls configured), st1)
         else (TextDone, emitText (pending st1) st1))"

section \<open>Nothing is lost\<close>

lemma emitText_fields [simp]:
  "concat (sent (emitText p st)) = concat (sent st) @ p" "all_text (emitText p st) = all_text st"
  "pending (emitText p st) = pending st" "streamedTools (emitText p st) = streamedTools st"
  by (simp_all add: emitText_def)

definition gate_complete :: "gate \<Rightarrow> bool" where
  "gate_complete st \<longleftrightarrow> concat (sent st) @ pending st = all_text st"

lemma gate_text_complete: "gate_complete st \<Longrightarrow> gate_complete (gate_text t st)"
  by (auto simp: gate_complete_def gate_text_def Let_def simp del: take_append drop_append split: option.split)

lemma gate_event_complete: "gate_complete st \<Longrightarrow> gate_complete (gate_event i ev st)"
  by (simp add: gate_event_def gate_text_complete) (simp add: gate_complete_def)

lemma gate_run_complete: "gate_complete st \<Longrightarrow> gate_complete (gate_run evs st)"
  unfolding gate_run_def
proof (induction evs arbitrary: st)
  case (Cons e evs)
  then show ?case by (cases e) (simp add: gate_event_complete)
qed simp

section \<open>No fence is sent\<close>

text \<open>A fence in the text so far begins no earlier than what is held back.\<close>

definition gate_safe :: "gate \<Rightarrow> bool" where
  "gate_safe st \<longleftrightarrow>
     (\<forall>j. has_prefix (drop j (concat (sent st) @ pending st)) fence \<longrightarrow> length (concat (sent st)) \<le> j)
     \<and> (sent st = [] \<or> 2 \<le> length (pending st))"

lemma prefix_window:
  assumes "has_prefix (drop j (s @ t)) p" and "j + length p \<le> length s"
  shows "has_prefix (drop j s) p"
  using assms by (simp add: has_prefix_def)

lemma fence_length [simp]: "length fence = 3"
  by (simp add: fence_def)

lemma rune_cut:
  assumes "n = length (rune_starts v)" and "n > held_back"
  shows "rune_starts v ! (n - held_back) + 2 \<le> length v"
proof -
  have s: "sorted_wrt (<) (rune_starts v)"
    unfolding rune_starts_def by (intro sorted_wrt_filter) simp
  have "n - 8 < n - 7" "n - 7 < length (rune_starts v)" using assms by (auto simp: held_back_def)
  from sorted_wrt_nth_less [OF s this]
  have "rune_starts v ! (n - 8) < rune_starts v ! (n - 7)" .
  moreover have "rune_starts v ! (n - 7) \<in> set (rune_starts v)"
    using assms by (intro nth_mem) (auto simp: held_back_def)
  then have "rune_starts v ! (n - 7) < length v" by (simp add: rune_starts_def)
  ultimately show ?thesis by (simp add: held_back_def)
qed

lemma gate_text_safe:
  assumes "gate_safe st"
  shows "gate_safe (gate_text t st)"
proof -
  let ?S = "concat (sent st)" and ?v = "pending st @ t"
  have late: "length ?S \<le> j" if occ: "has_prefix (drop j (?S @ ?v)) fence" for j
  proof (cases "j + 3 \<le> length (?S @ pending st)")
    case True
    from prefix_window [of j "?S @ pending st" t fence] occ True
    have "has_prefix (drop j (?S @ pending st)) fence" by simp
    with assms show ?thesis by (simp add: gate_safe_def del: drop_append)
  next
    case False
    with assms show ?thesis by (cases "sent st = []") (auto simp: gate_safe_def)
  qed
  have sent_safe: "gate_safe (st'\<lparr>pending := drop k ?v\<rparr>)"
    if st': "concat (sent st') = ?S @ take k ?v" and k: "k \<le> length ?v" "2 \<le> length (drop k ?v)"
      and none: "\<forall>i<k. \<not> has_prefix (drop i ?v) fence" for st' k
  proof -
    have "length ?S + k \<le> j" if occ: "has_prefix (drop j (?S @ ?v)) fence" for j
    proof (rule ccontr)
      assume "\<not> length ?S + k \<le> j"
      then have "j - length ?S < k" using late [OF occ] by simp
      moreover have "has_prefix (drop (j - length ?S) ?v) fence" using occ late [OF occ] by simp
      ultimately show False using none by blast
    qed
    with st' k show ?thesis by (simp add: gate_safe_def del: take_append drop_append)
  qed
  show ?thesis
  proof (cases "str_index ?v fence")
    case (Some i)
    from str_index_Some [OF Some] have i: "has_prefix (drop i ?v) fence" "i \<le> length ?v" by auto
    from has_prefix_length [OF i(1)] have "2 \<le> length (drop i ?v)" by simp
    moreover have "\<forall>j<i. \<not> has_prefix (drop j ?v) fence" using str_index_least [OF Some] by blast
    ultimately show ?thesis
      using sent_safe [of "emitText (take i ?v) (st\<lparr>all_text := all_text st @ t\<rparr>)" i] i Some
      by (simp add: gate_text_def Let_def del: take_append drop_append)
  next
    case None
    then have none: "\<not> has_prefix (drop j ?v) fence" if "j \<le> length ?v" for j
      using that by (simp add: str_index_None)
    show ?thesis
    proof (cases "length (rune_starts ?v) > held_back")
      case True
      let ?cut = "rune_starts ?v ! (length (rune_starts ?v) - held_back)"
      from rune_cut [OF refl True] have "?cut \<le> length ?v" "2 \<le> length (drop ?cut ?v)" by auto
      then show ?thesis
        using sent_safe [of "emitText (take ?cut ?v) (st\<lparr>all_text := all_text st @ t\<rparr>)" ?cut] none None True
        by (simp add: gate_text_def Let_def del: take_append drop_append)
    next
      case False
      with None late assms show ?thesis by (auto simp: gate_text_def gate_safe_def Let_def simp del: take_append drop_append)
    qed
  qed
qed

lemma gate_event_safe: "gate_safe st \<Longrightarrow> gate_safe (gate_event i ev st)"
  by (simp add: gate_event_def gate_text_safe) (simp add: gate_safe_def)

lemma gate_run_safe: "gate_safe st \<Longrightarrow> gate_safe (gate_run evs st)"
  unfolding gate_run_def
proof (induction evs arbitrary: st)
  case (Cons e evs)
  then show ?case by (cases e) (simp add: gate_event_safe)
qed simp

lemma gate_safe_sent: "gate_safe st \<Longrightarrow> \<not> str_contains (concat (sent st)) fence"
proof
  assume safe: "gate_safe st" and "str_contains (concat (sent st)) fence"
  then obtain a b where "concat (sent st) = a @ fence @ b" by (auto simp: str_contains_iff)
  then have "has_prefix (drop (length a) (concat (sent st) @ pending st)) fence"
      "length a < length (concat (sent st))" by (simp_all add: has_prefix_def)
  with safe show False by (auto simp: gate_safe_def simp del: drop_append)
qed

lemma new_gate_ok: "gate_complete new_gate" "gate_safe new_gate"
  by (simp_all add: gate_complete_def gate_safe_def new_gate_def)

section \<open>Properties\<close>

text \<open>
  C20: while the model writes, what has been sent to the client followed by what is held back is
  the whole text received, and no code fence, hence no part of a fenced tool call, has been sent.
\<close>
theorem stream_holds_back_fences:
  "concat (sent (gate_run evs new_gate)) @ pending (gate_run evs new_gate) = all_text (gate_run evs new_gate)
   \<and> \<not> str_contains (concat (sent (gate_run evs new_gate))) fence"
  using gate_run_complete [OF new_gate_ok(1)] gate_safe_sent [OF gate_run_safe [OF new_gate_ok(2)]]
  by (simp add: gate_complete_def)

text \<open>
  a streamed answer without tool calls has sent the complete text when it ends: all that was
  received, or the result's text when no text event came.
\<close>
theorem streamed_answer_is_complete:
  assumes "stream_finish L tools choice n res_text (gate_run evs new_gate) = (TextDone, st)"
  shows "concat (sent st) =
    (if all_text (gate_run evs new_gate) = [] \<and> trim_space res_text \<noteq> [] then res_text
     else all_text (gate_run evs new_gate))"
  using assms gate_run_complete [OF new_gate_ok(1), of evs]
  by (auto simp: stream_finish_def recover_text_def gate_complete_def Let_def split: if_splits)

text \<open>
  a call that ChatHub reports as an event is issued to the client whatever tools the client
  declared and whatever its tool choice is, \<open>none\<close> included.
\<close>
theorem streamed_call_ignores_tool_choice:
  assumes "streamedTools st = [c]"
  shows "fst (stream_finish L tools choice n res_text st) = IssueCalls [c]"
proof -
  have "streamedTools (recover_text res_text st) = [c]"
    using assms by (simp add: recover_text_def)
  moreover have "issue_calls [c] n = [c]"
    by (simp add: issue_calls_def adaptiveToolCallLimit_def limitToolCalls_def)
  ultimately show ?thesis by (simp add: stream_finish_def Let_def)
qed

section \<open>Witnesses\<close>

definition text_event :: "string \<Rightarrow> string \<times> stream_event" where
  "text_event t = ([], \<lparr>se_Kind = ''text'', se_Text = t, se_MessageType = [], se_ContentType = [],
     se_ToolName = [], se_Arguments = [], se_Raw = []\<rparr>)"

definition hello_events :: "(string \<times> stream_event) list" where
  "hello_events = [text_event ''Hello, '', text_event ''world and more'']"

lemma hello_gate: "sent (gate_run hello_events new_gate) = [''Hello, world '']"
    "pending (gate_run hello_events new_gate) = ''and more''"
    "all_text (gate_run hello_events new_gate) = ''Hello, world and more''"
  by code_simp+

lemma hello_finish:
  "fst (stream_finish frame_lib [] JNull 1 [] (gate_run hello_events new_gate)) = TextDone"
  by code_simp

theorem streamed_answer_is_complete_witness:
  "concat (sent (snd (stream_finish frame_lib [] JNull 1 [] (gate_run hello_events new_gate))))
    = ''Hello, world and more''"
proof -
  let ?r = "stream_finish frame_lib [] JNull 1 [] (gate_run hello_events new_gate)"
  have "?r = (TextDone, snd ?r)" using hello_finish by (metis prod.collapse)
  from streamed_answer_is_complete [OF this] show ?thesis by (simp add: hello_gate)
qed

theorem streamed_call_ignores_tool_choice_witness:
  "fst (stream_finish frame_lib [] (JStr ''none'') 1 [] (new_gate\<lparr>streamedTools := [ls_call]\<rparr>)) = IssueCalls [ls_call]"
  by (rule streamed_call_ignores_tool_choice) (simp add: new_gate_def)

end
