(* ===== verification/ToolAnswer.thy ===== *)
theory ToolAnswer
  imports Prompts StreamGate
begin

text \<open>
  How tool calls are answered to the client: the summary of what is about to happen and the chat
  completion that carries the calls, as one JSON body or as server-sent events
  (src/internal/web/tool_response.go), with the metadata of compat_metadata.go.
\<close>

section \<open>The summary\<close>

definition plan_nothing :: string where
  "plan_nothing = utf8 [0x6211, 0x5C06, 0x6574, 0x7406, 0x5F53, 0x524D, 0x8BF7, 0x6C42, 0x5E76, 0x7EE7, 0x7EED,
     0x5904, 0x7406, 0x3002]"

definition plan_invoke :: string where
  "plan_invoke = utf8 [0x8C03, 0x7528, 0x20]"

definition plan_information :: string where
  "plan_information = utf8 [0x83B7, 0x53D6, 0x8BE5, 0x5DE5, 0x5177, 0x8FD4, 0x56DE, 0x7684, 0x4FE1, 0x606F]"

definition plan_command :: string where
  "plan_command = utf8 [0x6267, 0x884C, 0x5DE5, 0x4F5C, 0x533A, 0x547D, 0x4EE4]"

definition plan_command_purpose :: string where
  "plan_command_purpose = utf8 [0x8BFB, 0x53D6, 0x9879, 0x76EE, 0x72B6, 0x6001, 0x3001, 0x8FD0, 0x884C, 0x68C0, 0x67E5,
     0x6216, 0x5B8C, 0x6210, 0x7528, 0x6237, 0x6307, 0x5B9A, 0x7684, 0x547D, 0x4EE4]"

definition plan_read :: string where
  "plan_read = utf8 [0x8BFB, 0x53D6, 0x6587, 0x4EF6, 0x5185, 0x5BB9]"

definition plan_read_purpose :: string where
  "plan_read_purpose = utf8 [0x68C0, 0x67E5, 0x6587, 0x4EF6, 0x5185, 0x5BB9, 0x5E76, 0x636E, 0x6B64, 0x7EE7, 0x7EED,
     0x5904, 0x7406]"

definition plan_edit :: string where
  "plan_edit = utf8 [0x4FEE, 0x6539, 0x9879, 0x76EE, 0x6587, 0x4EF6]"

definition plan_edit_purpose :: string where
  "plan_edit_purpose = utf8 [0x5E94, 0x7528, 0x8BF7, 0x6C42, 0x7684, 0x53D8, 0x66F4, 0x5E76, 0x4FDD, 0x7559, 0x73B0,
     0x6709, 0x903B, 0x8F91]"

definition plan_search :: string where
  "plan_search = utf8 [0x67E5, 0x8BE2, 0x5916, 0x90E8, 0x4FE1, 0x606F]"

definition plan_search_purpose :: string where
  "plan_search_purpose = utf8 [0x83B7, 0x53D6, 0x76F8, 0x5173, 0x8D44, 0x6599, 0x5E76, 0x7528, 0x4E8E, 0x5F53, 0x524D,
     0x56DE, 0x7B54]"

definition plan_intro :: string where
  "plan_intro = utf8 [0x6211, 0x5C06, 0x6267, 0x884C, 0xFF1A]"

definition plan_colon :: string where
  "plan_colon = utf8 [0xFF1A]"

definition plan_aim :: string where
  "plan_aim = utf8 [0x3002, 0xA, 0xA, 0x76EE, 0x7684, 0xFF1A]"

definition plan_end :: string where
  "plan_end = utf8 [0x3002, 0xA, 0xA, 0x9884, 0x671F, 0xFF1A, 0x8FD4, 0x56DE, 0x7ED3, 0x679C, 0x540E, 0x7EE7,
     0x7EED, 0x5904, 0x7406, 0x3002]"

definition ellipsis_rune :: string where
  "ellipsis_rune = utf8 [0x2026]"

definition plan_keys :: "string list" where
  "plan_keys = [''command'', ''cmd'', ''path'', ''query'', ''url'', ''input'', ''prompt'']"

definition contains_any :: "string \<Rightarrow> string list \<Rightarrow> bool" where
  "contains_any s ws = list_ex (str_contains s) ws"

definition plan_kind :: "string \<Rightarrow> string \<times> string" where
  "plan_kind name =
     (if contains_any name [''shell'', ''exec'', ''command''] then (plan_command, plan_command_purpose)
      else if contains_any name [''read'', ''file''] then (plan_read, plan_read_purpose)
      else if contains_any name [''write'', ''edit'', ''update''] then (plan_edit, plan_edit_purpose)
      else if contains_any name [''search'', ''browser'', ''fetch''] then (plan_search, plan_search_purpose)
      else (plan_invoke @ name, plan_information))"

text \<open>At most 180 runes of the target are shown; \<open>json.Unmarshal\<close> makes it valid UTF-8.\<close>

definition plan_target :: "golib \<Rightarrow> string \<Rightarrow> string" where
  "plan_target L arguments =
     (let args = (case unmarshal L arguments of Some (JObj m) \<Rightarrow> m | _ \<Rightarrow> []);
          target = trim_space (stringValue args plan_keys);
          starts = rune_starts target
      in if length starts > 180 then take (starts ! 180) target @ ellipsis_rune else target)"

definition toolPlanFor :: "golib \<Rightarrow> string \<Rightarrow> string \<Rightarrow> string" where
  "toolPlanFor L name arguments =
     (let (verb, purpose) = plan_kind name;
          target = plan_target L arguments
      in if target \<noteq> [] then plan_intro @ verb @ plan_colon @ target @ plan_aim @ purpose @ plan_end
         else plan_intro @ verb @ plan_aim @ purpose @ plan_end)"

definition toolPlan :: "golib \<Rightarrow> detectedToolCall \<Rightarrow> string" where
  "toolPlan L c = toolPlanFor L (dc_Name c) (dc_Arguments c)"

definition toolPlanSummary :: "golib \<Rightarrow> detectedToolCall list \<Rightarrow> string" where
  "toolPlanSummary L calls =
     (if calls = [] then plan_nothing
      else str_join (line_feed @ line_feed) (map (toolPlan L) calls))"

text \<open>The same from the client's form of the calls.\<close>

definition call_of_map :: "json \<Rightarrow> detectedToolCall" where
  "call_of_map v =
     (let fn = as_obj (get (as_obj v) ''function'')
      in \<lparr>dc_ID = [], dc_Type = [], dc_Name = as_str (get fn ''name''),
          dc_Arguments = as_str (get fn ''arguments'')\<rparr>)"

definition toolPlanSummaryFromMaps :: "golib \<Rightarrow> json list \<Rightarrow> string" where
  "toolPlanSummaryFromMaps L calls = toolPlanSummary L (map call_of_map calls)"

section \<open>Answers\<close>

text \<open>What \<open>chathub.Result\<close> holds of a turn, as far as the handlers use it.\<close>

record chat_result =
  res_Text :: string
  res_ConversationID :: string
  res_SessionID :: string
  res_RequestID :: string
  res_Throttling :: json
  res_RawResult :: string
  res_Events :: "string list"
  res_Images :: "string list"

definition text_result :: "string \<Rightarrow> chat_result" where
  "text_result t = \<lparr>res_Text = t, res_ConversationID = [], res_SessionID = [], res_RequestID = [],
     res_Throttling = JNull, res_RawResult = [], res_Events = [], res_Images = []\<rparr>"

text \<open>A line of an event stream: a comment, a JSON payload, or the end marker.\<close>

datatype sse = Comment string | Data obj | StreamDone

datatype http_reply =
    JsonReply obj
  | EventStream "sse list"

text \<open>\<open>include_events\<close> is \<open>M365_INCLUDE_UPSTREAM_EVENTS\<close>; an event is raw JSON.\<close>

definition compatM365Metadata :: "golib \<Rightarrow> bool \<Rightarrow> chat_result \<Rightarrow> obj" where
  "compatM365Metadata L include_events res =
     [(''conversationId'', JStr (res_ConversationID res)), (''sessionId'', JStr (res_SessionID res)),
      (''requestId'', JStr (res_RequestID res)),
      (''usage_source'', JStr ''unavailable_from_chathub'')]
     @ (if include_events
        then [(''events'', JArr (map (\<lambda>e. case unmarshal L e of Some v \<Rightarrow> v | None \<Rightarrow> JNull) (res_Events res)))]
        else [])"

definition env_true :: "string \<Rightarrow> bool" where
  "env_true v = (to_lower (trim_space v) \<in> {''1'', ''true'', ''yes'', ''on''})"

definition jnat :: "nat \<Rightarrow> json" where
  "jnat n = JNum (Finite (of_nat n))"

definition chunk :: "string \<Rightarrow> int \<Rightarrow> string \<Rightarrow> obj \<Rightarrow> json \<Rightarrow> obj" where
  "chunk cid created model delta finish =
     [(''id'', JStr cid), (''object'', JStr ''chat.completion.chunk''),
      (''created'', JNum (Finite (of_int created))), (''model'', JStr model),
      (''choices'', JArr [JObj [(''index'', jnat 0), (''delta'', JObj delta), (''finish_reason'', finish)]])]"

definition call_delta :: "nat \<Rightarrow> detectedToolCall \<Rightarrow> obj" where
  "call_delta i tc =
     [(''tool_calls'', JArr [JObj
        [(''index'', jnat i), (''id'', JStr (dc_ID tc)),
         (''type'', JStr (if dc_Type tc = [] then ''function'' else dc_Type tc)),
         (''function'', JObj [(''name'', JStr (dc_Name tc)), (''arguments'', JStr (dc_Arguments tc))])]])]"

text \<open>\<open>created i\<close> is the clock when the \<open>i\<close>-th payload is written.\<close>

definition tool_stream ::
    "golib \<Rightarrow> string \<Rightarrow> (nat \<Rightarrow> int) \<Rightarrow> string \<Rightarrow> detectedToolCall list \<Rightarrow> bool \<Rightarrow> sse list" where
  "tool_stream L cid created model calls preamble_sent =
     (let summary = toolPlanSummary L calls in
      (if preamble_sent then []
       else [Data (chunk cid (created 0) model
         [(''role'', JStr ''assistant''), (''content'', JStr summary), (''reasoning_content'', JStr summary)] JNull)])
      @ map (\<lambda>(i, tc). Data (chunk cid (created (i + 1)) model (call_delta i tc) JNull)) (enumerate 0 calls)
      @ [Data (chunk cid (created (length calls + 1)) model [] (JStr ''tool_calls'')), StreamDone])"

definition tool_json ::
    "golib \<Rightarrow> bool \<Rightarrow> string \<Rightarrow> string \<Rightarrow> detectedToolCall list \<Rightarrow> chat_result \<Rightarrow> obj" where
  "tool_json L include_events cid model calls res =
     (let summary = toolPlanSummary L calls;
          msg = [(''role'', JStr ''assistant''), (''content'', JStr summary),
                 (''reasoning_content'', JStr summary), (''tool_calls'', JArr (toolCallMaps calls))]
      in [(''id'', JStr cid), (''object'', JStr ''chat.completion''), (''model'', JStr model),
          (''choices'', JArr [JObj [(''index'', jnat 0), (''message'', JObj msg),
             (''finish_reason'', JStr ''tool_calls'')]]),
          (''m365'', JObj (compatM365Metadata L include_events res))])"

definition writeToolResponse ::
    "golib \<Rightarrow> bool \<Rightarrow> string \<Rightarrow> (nat \<Rightarrow> int) \<Rightarrow> string \<Rightarrow> bool \<Rightarrow> detectedToolCall list \<Rightarrow> chat_result \<Rightarrow> bool \<Rightarrow> http_reply" where
  "writeToolResponse L include_events cid created model stream calls res preamble_sent =
     (if stream then EventStream (tool_stream L cid created model calls preamble_sent)
      else JsonReply (tool_json L include_events cid model calls res))"


section \<open>The two forms carry the same calls\<close>

text \<open>The calls a client collects from the chunks of a stream, and from the body of an answer.\<close>

definition choice_of :: "obj \<Rightarrow> obj" where
  "choice_of c = (case as_arr (get c ''choices'') of [] \<Rightarrow> [] | v # _ \<Rightarrow> as_obj v)"

definition without_index :: "json \<Rightarrow> json" where
  "without_index v = (case v of JObj m \<Rightarrow> JObj (filter (\<lambda>(k, _). k \<noteq> ''index'') m) | _ \<Rightarrow> v)"

fun collected :: "sse list \<Rightarrow> json list" where
  "collected [] = []"
| "collected (Data c # es) =
     map without_index (as_arr (get (as_obj (get (choice_of c) ''delta'')) ''tool_calls'')) @ collected es"
| "collected (_ # es) = collected es"

definition body_calls :: "obj \<Rightarrow> json list" where
  "body_calls b = as_arr (get (as_obj (get (choice_of b) ''message'')) ''tool_calls'')"

lemma collected_append [simp]: "collected (xs @ ys) = collected xs @ collected ys"
  by (induction xs rule: collected.induct) simp_all

lemma choice_of_chunk [simp]:
  "choice_of (chunk cid t model delta fin) =
     [(''index'', jnat 0), (''delta'', JObj delta), (''finish_reason'', fin)]"
  by (simp add: choice_of_def chunk_def)

lemma collected_calls:
  "collected (map (\<lambda>(i, tc). Data (chunk cid (created i) model (call_delta i tc) JNull)) (enumerate n calls))
     = toolCallMaps calls"
  by (induction calls arbitrary: n)
    (simp_all add: call_delta_def toolCallMaps_def toolCallMap_def without_index_def)

text \<open>
  the server-sent events of a tool answer carry, call by call and in order, exactly the calls of
  the JSON answer to the same request, whether a preamble was sent before or not.
\<close>
theorem stream_and_body_carry_the_same_calls:
  "collected (tool_stream L cid created model calls preamble_sent)
     = body_calls (tool_json L include_events cid' model calls res)"
proof -
  have "body_calls (tool_json L include_events cid' model calls res) = toolCallMaps calls"
    by (simp add: body_calls_def tool_json_def choice_of_def Let_def)
  then show ?thesis
    using collected_calls [of cid "\<lambda>i. created (i + 1)" model 0 calls]
    by (simp add: tool_stream_def Let_def)
qed

end
