(* ===== verification/AuthTokens.thy ===== *)
theory AuthTokens
  imports GoJson
begin

text \<open>
  Token responses, src/internal/auth: what the token endpoint's answer becomes
  (\<open>requestToken\<close> and \<open>decodeJWTClaims\<close> of token.go) and the device-code flow (device.go).  The
  decoding of a JSON body and of base64 are the record \<open>tokenlib\<close>; the answer of the network call
  and the clock are arguments.
\<close>

record TokenSet =
  AccessToken :: string
  RefreshToken :: string
  IDToken :: string
  TokenType :: string
  Scope :: string
  ExpiresIn :: int
  ExpiresAt :: instant
  Email :: string
  DisplayName :: string
  HomeOID :: string
  TenantID :: string

record tokenResponse =
  tr_AccessToken :: string
  tr_RefreshToken :: string
  tr_IDToken :: string
  tr_TokenType :: string
  tr_Scope :: string
  tr_ExpiresIn :: int
  tr_Error :: string
  tr_ErrorDesc :: string

record deviceCodeResponse =
  dr_UserCode :: string
  dr_DeviceCode :: string
  dr_VerificationURI :: string
  dr_Message :: string
  dr_ExpiresIn :: int
  dr_Interval :: int
  dr_Error :: string
  dr_ErrorDesc :: string

text \<open>
  \<open>decode_token\<close> and \<open>decode_device\<close> are \<open>json.Unmarshal\<close> into the two structs, \<open>decode_claims\<close>
  into a map; \<open>base64_decode\<close> is \<open>base64.RawURLEncoding.DecodeString\<close>.
\<close>

record tokenlib =
  decode_token :: "string \<Rightarrow> tokenResponse option"
  decode_device :: "string \<Rightarrow> deviceCodeResponse option"
  base64_decode :: "string \<Rightarrow> string option"
  decode_claims :: "string \<Rightarrow> obj option"

text \<open>The answer of a form post: a transport error, or a status and a body.\<close>

datatype answer = NoAnswer string | Answer int string

datatype token_error =
    Transport string
  | BadResponse
  | EndpointError string string
  | BadStatus int string
  | EmptyAccessToken string

section \<open>Claims\<close>

definition string_claims :: "obj \<Rightarrow> string \<Rightarrow> string" where
  "string_claims m k = as_str (get m k)"

text \<open>The claims of a JWT that are strings, \<open>[]\<close> for a claim that is absent.\<close>

definition decodeJWTClaims :: "tokenlib \<Rightarrow> string \<Rightarrow> (string \<Rightarrow> string) option" where
  "decodeJWTClaims K token =
     (let parts = str_split (CHR ''.'') token in
      if length parts < 2 then None
      else case base64_decode K (parts ! 1) of
          None \<Rightarrow> None
        | Some raw \<Rightarrow> map_option string_claims (decode_claims K raw))"

definition access_claims :: "(string \<Rightarrow> string) \<Rightarrow> TokenSet \<Rightarrow> TokenSet" where
  "access_claims claims s =
     (let email = firstNonEmpty [claims ''unique_name'', claims ''upn'', claims ''preferred_username'', claims ''email'']
      in s\<lparr>Email := email,
           DisplayName := firstNonEmpty [claims ''name'', email],
           HomeOID := firstNonEmpty [claims ''oid'', claims ''sub''],
           TenantID := firstNonEmpty [claims ''tid'', claims ''tenant_id'']\<rparr>)"

definition id_claims :: "(string \<Rightarrow> string) \<Rightarrow> TokenSet \<Rightarrow> TokenSet" where
  "id_claims claims s =
     (let s1 = (if Email s = [] then
          (let email = firstNonEmpty [claims ''preferred_username'', claims ''email'', claims ''upn'']
           in s\<lparr>Email := email,
                DisplayName := firstNonEmpty [claims ''name'', email],
                HomeOID := firstNonEmpty [claims ''oid'', claims ''sub'', HomeOID s]\<rparr>)
        else s)
      in s1\<lparr>TenantID := firstNonEmpty [TenantID s1, claims ''tid'', claims ''tenant_id'']\<rparr>)"

definition token_set :: "tokenlib \<Rightarrow> instant \<Rightarrow> tokenResponse \<Rightarrow> TokenSet" where
  "token_set K now tr =
     (let s0 = \<lparr>AccessToken = tr_AccessToken tr, RefreshToken = tr_RefreshToken tr,
          IDToken = tr_IDToken tr, TokenType = tr_TokenType tr, Scope = tr_Scope tr,
          ExpiresIn = tr_ExpiresIn tr, ExpiresAt = now + wrap64 (tr_ExpiresIn tr * second),
          Email = [], DisplayName = [], HomeOID = [], TenantID = []\<rparr>;
          s1 = (case decodeJWTClaims K (tr_AccessToken tr) of Some c \<Rightarrow> access_claims c s0 | None \<Rightarrow> s0)
      in if tr_IDToken tr \<noteq> [] then
           (case decodeJWTClaims K (tr_IDToken tr) of Some c \<Rightarrow> id_claims c s1 | None \<Rightarrow> s1)
         else s1)"

section \<open>The token endpoint\<close>

definition requestToken :: "tokenlib \<Rightarrow> instant \<Rightarrow> answer \<Rightarrow> token_error + TokenSet" where
  "requestToken K now ans = (case ans of
      NoAnswer e \<Rightarrow> Inl (Transport e)
    | Answer status body \<Rightarrow>
        (case decode_token K body of
           None \<Rightarrow> Inl BadResponse
         | Some tr \<Rightarrow>
             if tr_Error tr \<noteq> [] then Inl (EndpointError (tr_Error tr) (tr_ErrorDesc tr))
             else if status < 200 \<or> 300 \<le> status then Inl (BadStatus status (trim_space body))
             else if tr_AccessToken tr = [] then Inl (EmptyAccessToken body)
             else Inr (token_set K now tr)))"

definition token_valid :: "instant \<Rightarrow> TokenSet \<Rightarrow> bool" where
  "token_valid now t \<longleftrightarrow> AccessToken t \<noteq> [] \<and> now < ExpiresAt t - 30 * second"

section \<open>The device-code flow\<close>

record DeviceCode =
  dc_UserCode :: string
  dc_DeviceCode :: string
  dc_VerificationURI :: string
  dc_Message :: string
  dc_ExpiresIn :: int
  dc_Interval :: int
  dc_ExpiresAt :: instant

definition StartDeviceCode :: "tokenlib \<Rightarrow> instant \<Rightarrow> answer \<Rightarrow> token_error + DeviceCode" where
  "StartDeviceCode K now ans = (case ans of
      NoAnswer e \<Rightarrow> Inl (Transport e)
    | Answer status body \<Rightarrow>
        (case decode_device K body of
           None \<Rightarrow> Inl BadResponse
         | Some dr \<Rightarrow>
             if dr_Error dr \<noteq> [] then Inl (EndpointError (dr_Error dr) (dr_ErrorDesc dr))
             else if dr_DeviceCode dr = [] \<or> dr_UserCode dr = [] then Inl (EmptyAccessToken body)
             else Inr \<lparr>dc_UserCode = dr_UserCode dr, dc_DeviceCode = dr_DeviceCode dr,
               dc_VerificationURI = dr_VerificationURI dr, dc_Message = dr_Message dr,
               dc_ExpiresIn = dr_ExpiresIn dr,
               dc_Interval = (if dr_Interval dr \<le> 0 then 5 else dr_Interval dr),
               dc_ExpiresAt = now + wrap64 (dr_ExpiresIn dr * second)\<rparr>))"

text \<open>\<open>Inr None\<close>: the user has not signed in yet.\<close>

definition PollDeviceCode :: "tokenlib \<Rightarrow> instant \<Rightarrow> answer \<Rightarrow> token_error + TokenSet option" where
  "PollDeviceCode K now ans = (case ans of
      NoAnswer e \<Rightarrow> Inl (Transport e)
    | Answer status body \<Rightarrow>
        (case decode_token K body of
           None \<Rightarrow> Inl BadResponse
         | Some tr \<Rightarrow>
             let failed = Inl (EndpointError (tr_Error tr) (tr_ErrorDesc tr));
                 finish = (if tr_AccessToken tr = [] then Inl (EmptyAccessToken body)
                           else Inr (Some (token_set K now tr)))
             in if tr_Error tr = [] then finish
                else if tr_Error tr \<in> {''authorization_pending'', ''slow_down''} then Inr None
                else if tr_Error tr \<in> {''expired_token'', ''authorization_declined'', ''bad_verification_code''}
                  then failed
                else if tr_AccessToken tr = [] then failed
                else finish))"

section \<open>What a token set holds\<close>

lemma token_set_fields:
  "AccessToken (token_set K now tr) = tr_AccessToken tr"
  "RefreshToken (token_set K now tr) = tr_RefreshToken tr"
  "ExpiresAt (token_set K now tr) = now + wrap64 (tr_ExpiresIn tr * second)"
  by (simp_all add: token_set_def access_claims_def id_claims_def Let_def split: option.split)

lemma requestToken_ok:
  "requestToken K now ans = Inr t \<Longrightarrow> AccessToken t \<noteq> []
    \<and> (\<exists>status body tr. ans = Answer status body \<and> 200 \<le> status \<and> status < 300
        \<and> decode_token K body = Some tr \<and> tr_Error tr = [] \<and> t = token_set K now tr)"
  by (auto simp: requestToken_def token_set_fields split: answer.splits option.splits if_splits)

end
