(* ===== verification/Storage.thy ===== *)
theory Storage
  imports Prelude
begin

text \<open>
  The interface of the program's stores: a value in memory and a file that a restart loads it
  from.  The stores of API keys (src/internal/web/keys.go), accounts (src/internal/auth/cache.go)
  and settings (src/internal/web/settings.go) write the whole value after each change.
  \<open>durable\<close> is what a caller may rely on when an operation reports success; \<open>write_through\<close> adds
  that a failed operation leaves the memory alone.
\<close>

text \<open>
  What writing a file does: it is replaced by the new contents, or the write fails and the file
  holds whatever is left (\<open>os.WriteFile\<close> truncates before it writes).
\<close>

datatype 'f save_outcome = Saved | SaveFailed 'f

fun written :: "'f save_outcome \<Rightarrow> 'f \<Rightarrow> 'f" where
  "written Saved new = new"
| "written (SaveFailed left) new = left"

definition save_ok :: "'f save_outcome \<Rightarrow> bool" where
  "save_ok out = (case out of Saved \<Rightarrow> True | SaveFailed _ \<Rightarrow> False)"

lemma save_ok_simps [simp]: "save_ok Saved" "\<not> save_ok (SaveFailed f)"
  by (simp_all add: save_ok_def)

lemma written_ok: "save_ok out \<Longrightarrow> written out new = new"
  by (cases out) simp_all

locale durable =
  fixes memory :: "'st \<Rightarrow> 'm" and on_disk :: "'st \<Rightarrow> 'f" and load :: "'f \<Rightarrow> 'm"
    and exec :: "'op \<Rightarrow> 'st \<Rightarrow> bool \<times> 'st"
  assumes reported: "exec op st = (True, st') \<Longrightarrow> load (on_disk st) = memory st \<Longrightarrow>
      load (on_disk st') = memory st'"
begin

fun exec_all :: "'op list \<Rightarrow> 'st \<Rightarrow> bool list \<times> 'st" where
  "exec_all [] st = ([], st)"
| "exec_all (op # ops) st =
     (let (ok, st1) = exec op st; (oks, st2) = exec_all ops st1 in (ok # oks, st2))"

definition synced :: "'st \<Rightarrow> bool" where
  "synced st \<longleftrightarrow> load (on_disk st) = memory st"

lemma exec_synced: "exec op st = (True, st') \<Longrightarrow> synced st \<Longrightarrow> synced st'"
  unfolding synced_def by (rule reported)

lemma exec_all_synced:
  "exec_all ops st = (oks, st') \<Longrightarrow> list_all (\<lambda>ok. ok) oks \<Longrightarrow> synced st \<Longrightarrow> synced st'"
proof (induction ops arbitrary: st oks)
  case (Cons op ops)
  obtain ok st1 where 1: "exec op st = (ok, st1)" by fastforce
  obtain oks' st2 where 2: "exec_all ops st1 = (oks', st2)" by fastforce
  from Cons.prems 1 2 have "ok" "list_all (\<lambda>ok. ok) oks'" "st' = st2" by auto
  with 1 2 Cons.IH [of st1 oks'] exec_synced [of op st st1] Cons.prems(3) show ?case by simp
qed simp

lemma exec_all_last:
  "exec_all ops st = (oks, st') \<Longrightarrow> list_all (\<lambda>ok. ok) oks \<Longrightarrow> ops \<noteq> [] \<Longrightarrow>
    \<exists>st1. exec (last ops) st1 = (True, st')"
proof (induction ops arbitrary: st oks)
  case (Cons op ops)
  obtain ok st1 where 1: "exec op st = (ok, st1)" by fastforce
  obtain oks' st2 where 2: "exec_all ops st1 = (oks', st2)" by fastforce
  from Cons.prems 1 2 have 3: "ok" "list_all (\<lambda>ok. ok) oks'" "st' = st2" by auto
  show ?case
  proof (cases "ops = []")
    case True
    with 1 2 3 show ?thesis by auto
  next
    case False
    with Cons.IH [of st1 oks'] 2 3 show ?thesis by simp
  qed
qed simp

end

locale write_through = durable memory on_disk load exec
  for memory :: "'st \<Rightarrow> 'm" and on_disk :: "'st \<Rightarrow> 'f" and load :: "'f \<Rightarrow> 'm"
    and exec :: "'op \<Rightarrow> 'st \<Rightarrow> bool \<times> 'st" +
  assumes failed: "exec op st = (False, st') \<Longrightarrow> memory st' = memory st"
begin

lemma failed_run_keeps_memory:
  "exec_all ops st = (oks, st') \<Longrightarrow> list_all Not oks \<Longrightarrow> memory st' = memory st"
proof (induction ops arbitrary: st oks)
  case (Cons op ops)
  obtain ok st1 where 1: "exec op st = (ok, st1)" by fastforce
  obtain oks' st2 where 2: "exec_all ops st1 = (oks', st2)" by fastforce
  from Cons.prems 1 2 have ok: "\<not> ok" "list_all Not oks'" "st' = st2" by auto
  with 2 Cons.IH have "memory st' = memory st1" by blast
  with failed [of op st st1] 1 ok show ?case by simp
qed simp

end

end
