(* ===== verification/AuthStore.thy ===== *)
theory AuthStore
  imports AuthTokens Storage "HOL-Library.AList"
begin

text \<open>
  The account store of src/internal/auth/cache.go and the sign-in flow of
  src/internal/web/server.go (\<open>startPKCE\<close>, \<open>pkceStatus\<close>, \<open>callbackPKCE\<close>).  \<open>EnsureValid\<close> takes the
  store's lock in separate steps around the network call, so it is modelled as two operations,
  \<open>ensure_check\<close> and \<open>ensure_finish\<close>, that other operations may come between.
\<close>

section \<open>Accounts\<close>

record AccountToken =
  at_ID :: string
  at_Email :: string
  at_DisplayName :: string
  at_Status :: string
  at_AccessToken :: string
  at_RefreshToken :: string
  at_ExpiresAt :: instant
  at_UpdatedAt :: instant
  at_OID :: string
  at_TID :: string
  at_ClientID :: string

record account_store =
  accounts :: "AccountToken list"
  account_file :: "AccountToken list"

type_synonym account_save = "AccountToken list save_outcome"

definition normalize_account :: "AccountToken \<Rightarrow> AccountToken" where
  "normalize_account a0 =
     (let a = (if at_OID a0 = [] then a0\<lparr>at_OID := at_ID a0\<rparr> else a0)
      in if at_ID a = [] then a\<lparr>at_ID := at_OID a\<rparr> else a)"

text \<open>\<open>OpenStore\<close> on a readable cache file\<close>

definition OpenStore :: "AccountToken list \<Rightarrow> account_store" where
  "OpenStore f = \<lparr>accounts = map normalize_account f, account_file = f\<rparr>"

definition saveLocked :: "account_save \<Rightarrow> account_store \<Rightarrow> account_store" where
  "saveLocked out s = s\<lparr>account_file := written out (accounts s)\<rparr>"

text \<open>\<open>stamp\<close>: the time of day that names an account without an identity.\<close>

definition account_of :: "string \<Rightarrow> instant \<Rightarrow> string \<Rightarrow> TokenSet \<Rightarrow> AccountToken" where
  "account_of stamp now client tok =
     (let aid = (if HomeOID tok \<noteq> [] then HomeOID tok
                 else if Email tok \<noteq> [] then Email tok else ''account-'' @ stamp)
      in \<lparr>at_ID = aid, at_Email = Email tok, at_DisplayName = DisplayName tok, at_Status = ''online'',
          at_AccessToken = AccessToken tok, at_RefreshToken = RefreshToken tok,
          at_ExpiresAt = ExpiresAt tok, at_UpdatedAt = now, at_OID = firstNonEmpty [HomeOID tok, aid],
          at_TID = TenantID tok, at_ClientID = client\<rparr>)"

definition same_account :: "AccountToken \<Rightarrow> AccountToken \<Rightarrow> bool" where
  "same_account acc existing \<longleftrightarrow>
     at_ID existing = at_ID acc \<or> (at_Email acc \<noteq> [] \<and> at_Email existing = at_Email acc)"

definition merge_account :: "AccountToken \<Rightarrow> AccountToken \<Rightarrow> AccountToken" where
  "merge_account acc existing =
     acc\<lparr>at_RefreshToken := (if at_RefreshToken acc = [] then at_RefreshToken existing else at_RefreshToken acc),
         at_TID := (if at_TID acc = [] then at_TID existing else at_TID acc),
         at_OID := (if at_OID acc = [] then at_OID existing else at_OID acc)\<rparr>"

definition Upsert ::
    "string \<Rightarrow> instant \<Rightarrow> string \<Rightarrow> account_save \<Rightarrow> TokenSet \<Rightarrow> account_store
      \<Rightarrow> (AccountToken \<times> bool) \<times> account_store" where
  "Upsert stamp now client out tok s =
     (let acc = account_of stamp now client tok in
      case find (same_account acc) (accounts s) of
        Some existing \<Rightarrow>
          let acc' = merge_account acc existing
          in ((acc', save_ok out),
              saveLocked out (s\<lparr>accounts := update_first (same_account acc) (\<lambda>_. acc') (accounts s)\<rparr>))
      | None \<Rightarrow> ((acc, save_ok out), saveLocked out (s\<lparr>accounts := accounts s @ [acc]\<rparr>)))"

definition Delete :: "string \<Rightarrow> account_save \<Rightarrow> account_store \<Rightarrow> bool \<times> account_store" where
  "Delete aid out s =
     (save_ok out, saveLocked out (s\<lparr>accounts := filter (\<lambda>a. at_ID a \<noteq> aid) (accounts s)\<rparr>))"

definition Get :: "string \<Rightarrow> account_store \<Rightarrow> AccountToken option" where
  "Get aid s = find (\<lambda>a. at_ID a = aid \<or> at_OID a = aid \<or> at_Email a = aid) (accounts s)"

definition First :: "account_store \<Rightarrow> AccountToken option" where
  "First s = (case accounts s of [] \<Rightarrow> None | a # _ \<Rightarrow> Some a)"

section \<open>Keeping a token valid\<close>

datatype ensure_error = NotExist | TokenExpired | RefreshFailed token_error | SaveError

text \<open>What the first part finds: the answer, or the account whose token is to be refreshed.\<close>

datatype ensure_plan =
    Answered "ensure_error + AccountToken"
  | NeedsRefresh AccountToken

definition expire :: "AccountToken \<Rightarrow> account_save \<Rightarrow> account_store \<Rightarrow> account_store" where
  "expire acc out s =
     (if find (\<lambda>a. at_ID a = at_ID acc) (accounts s) = None then s
      else saveLocked out (s\<lparr>accounts :=
        update_first (\<lambda>a. at_ID a = at_ID acc) (\<lambda>_. acc\<lparr>at_Status := ''expired''\<rparr>) (accounts s)\<rparr>))"

definition ensure_check :: "string \<Rightarrow> instant \<Rightarrow> account_save \<Rightarrow> account_store \<Rightarrow> ensure_plan \<times> account_store" where
  "ensure_check aid now out s = (case Get aid s of
      None \<Rightarrow> (Answered (Inl NotExist), s)
    | Some acc \<Rightarrow>
        if now < at_ExpiresAt acc - 30 * second then (Answered (Inr acc), s)
        else if at_RefreshToken acc = [] then (Answered (Inl TokenExpired), expire acc out s)
        else (NeedsRefresh acc, s))"

definition refreshed_token :: "AccountToken \<Rightarrow> TokenSet \<Rightarrow> TokenSet" where
  "refreshed_token acc tok =
     tok\<lparr>Email := (if Email tok = [] then at_Email acc else Email tok),
         DisplayName := (if DisplayName tok = [] then at_DisplayName acc else DisplayName tok),
         HomeOID := (if HomeOID tok = [] then firstNonEmpty [at_OID acc, at_ID acc] else HomeOID tok),
         TenantID := (if TenantID tok = [] then at_TID acc else TenantID tok)\<rparr>"

definition ensure_finish ::
    "AccountToken \<Rightarrow> (token_error + TokenSet) \<Rightarrow> string \<Rightarrow> instant \<Rightarrow> string \<Rightarrow> account_save
      \<Rightarrow> account_store \<Rightarrow> (ensure_error + AccountToken) \<times> account_store" where
  "ensure_finish acc refreshed stamp now client out s = (case refreshed of
      Inl e \<Rightarrow> (Inl (RefreshFailed e), expire acc out s)
    | Inr tok \<Rightarrow>
        let ((acc', ok), s') = Upsert stamp now client out (refreshed_token acc tok) s
        in (if ok then Inr acc' else Inl SaveError, s'))"

text \<open>\<open>refresh\<close> is the token endpoint's answer to a refresh token.\<close>

definition EnsureValid ::
    "(string \<Rightarrow> token_error + TokenSet) \<Rightarrow> string \<Rightarrow> string \<Rightarrow> instant \<Rightarrow> string \<Rightarrow> account_save
      \<Rightarrow> account_store \<Rightarrow> (ensure_error + AccountToken) \<times> account_store" where
  "EnsureValid refresh aid stamp now client out s = (case ensure_check aid now out s of
      (Answered r, s1) \<Rightarrow> (r, s1)
    | (NeedsRefresh acc, s1) \<Rightarrow> ensure_finish acc (refresh (at_RefreshToken acc)) stamp now client out s1)"

datatype resolve_error = NoAccounts | Ensure ensure_error

definition resolveAccount ::
    "(string \<Rightarrow> token_error + TokenSet) \<Rightarrow> string \<Rightarrow> string \<Rightarrow> instant \<Rightarrow> string \<Rightarrow> account_save
      \<Rightarrow> account_store \<Rightarrow> (resolve_error + AccountToken) \<times> account_store" where
  "resolveAccount refresh aid stamp now client out s =
     (case (if aid = [] then map_option at_ID (First s) else Some aid) of
        None \<Rightarrow> (Inl NoAccounts, s)
      | Some i \<Rightarrow> (case EnsureValid refresh i stamp now client out s of
            (Inl e, s1) \<Rightarrow> (Inl (Ensure e), s1)
          | (Inr acc, s1) \<Rightarrow> (Inr acc, s1)))"

section \<open>Signing in\<close>

record pendingPKCE =
  pk_Verifier :: string
  pk_Created :: instant
  pk_Status :: string
  pk_Account :: "AccountToken option"
  pk_Error :: "ensure_error option"

record signin =
  pkce :: "(string \<times> pendingPKCE) list"
  tokens :: account_store

definition pkce_lifetime :: duration where
  "pkce_lifetime = 10 * minute"

text \<open>\<open>verifier\<close> and \<open>st\<close> are the random strings, \<open>None\<close> where the random source fails.\<close>

definition startPKCE :: "string option \<Rightarrow> string option \<Rightarrow> instant \<Rightarrow> signin \<Rightarrow> string option \<times> signin" where
  "startPKCE verifier st now s = (case (verifier, st) of
      (Some v, Some state) \<Rightarrow>
        (Some state, s\<lparr>pkce := AList.update state
          \<lparr>pk_Verifier = v, pk_Created = now, pk_Status = ''pending'', pk_Account = None, pk_Error = None\<rparr>
          (pkce s)\<rparr>)
    | _ \<Rightarrow> (None, s))"

datatype pkce_view = MissingState | Expired | Status string "AccountToken option" "ensure_error option"

definition pkceStatus :: "string \<Rightarrow> instant \<Rightarrow> signin \<Rightarrow> pkce_view \<times> signin" where
  "pkceStatus state now s =
     (if state = [] then (MissingState, s)
      else case map_of (pkce s) state of
          None \<Rightarrow> (Expired, s)
        | Some p \<Rightarrow>
            if time_sub now (pk_Created p) > pkce_lifetime
            then (Expired, s\<lparr>pkce := AList.delete state (pkce s)\<rparr>)
            else (Status (pk_Status p) (pk_Account p) (pk_Error p), s))"

datatype callback_reply =
    MissingStateOrCode
  | InvalidState
  | ExchangeFailed token_error
  | StoreFailed
  | SignedIn AccountToken

text \<open>
  The state and code of a callback: given directly, or taken from a pasted URL, whose query
  \<open>pasted\<close> holds as code and state (\<open>None\<close> if there is no such parameter or it does not parse).
\<close>

definition callback_params :: "string \<Rightarrow> string \<Rightarrow> (string \<times> string) option \<Rightarrow> string \<times> string" where
  "callback_params state code pasted =
     (if code = [] then
        (case pasted of
           Some (c, st) \<Rightarrow> (if state = [] then st else state, c)
         | None \<Rightarrow> (state, code))
      else (state, code))"

text \<open>
  \<open>exchange\<close> is the token endpoint's answer to a code and a verifier.  The handler reads the
  pending entry, makes its calls and writes its copy of the entry back.
\<close>

definition callbackPKCE ::
    "(string \<Rightarrow> string \<Rightarrow> token_error + TokenSet) \<Rightarrow> string \<Rightarrow> string \<Rightarrow> (string \<times> string) option
      \<Rightarrow> string \<Rightarrow> instant \<Rightarrow> string \<Rightarrow> account_save \<Rightarrow> signin \<Rightarrow> callback_reply \<times> signin" where
  "callbackPKCE exchange state0 code0 pasted stamp now client out s =
     (let (state, code) = callback_params state0 code0 pasted in
      if state = [] \<or> code = [] then (MissingStateOrCode, s)
      else case map_of (pkce s) state of
          None \<Rightarrow> (InvalidState, s)
        | Some p \<Rightarrow>
            if time_sub now (pk_Created p) > pkce_lifetime then (InvalidState, s)
            else (case exchange code (pk_Verifier p) of
                Inl e \<Rightarrow> (ExchangeFailed e, s\<lparr>pkce := AList.update state
                  (p\<lparr>pk_Status := ''error'', pk_Error := Some (RefreshFailed e)\<rparr>) (pkce s)\<rparr>)
              | Inr tok \<Rightarrow>
                  let ((acc, ok), ts) = Upsert stamp now client out tok (tokens s);
                      s1 = s\<lparr>tokens := ts\<rparr>
                  in if ok then (SignedIn acc, s1\<lparr>pkce := AList.update state
                       (p\<lparr>pk_Status := ''authenticated'', pk_Account := Some acc\<rparr>) (pkce s1)\<rparr>)
                     else (StoreFailed, s1\<lparr>pkce := AList.update state
                       (p\<lparr>pk_Status := ''error'', pk_Error := Some SaveError\<rparr>) (pkce s1)\<rparr>)))"

section \<open>What the operations do to the list\<close>

lemma normalize_account_idem [simp]: "normalize_account (normalize_account a) = normalize_account a"
  by (simp add: normalize_account_def Let_def)

lemma saveLocked_fields [simp]:
  "accounts (saveLocked out s) = accounts s" "account_file (saveLocked out s) = written out (accounts s)"
  by (simp_all add: saveLocked_def)

lemma merge_account_fields [simp]:
  "at_ID (merge_account acc e) = at_ID acc" "at_Email (merge_account acc e) = at_Email acc"
  "at_AccessToken (merge_account acc e) = at_AccessToken acc"
  "at_ExpiresAt (merge_account acc e) = at_ExpiresAt acc"
  "at_Status (merge_account acc e) = at_Status acc"
  by (simp_all add: merge_account_def)

lemma account_of_fields [simp]:
  "at_AccessToken (account_of stamp now client tok) = AccessToken tok"
  "at_RefreshToken (account_of stamp now client tok) = RefreshToken tok"
  "at_ExpiresAt (account_of stamp now client tok) = ExpiresAt tok"
  "at_Status (account_of stamp now client tok) = ''online''"
  by (simp_all add: account_of_def Let_def)

lemma Upsert_cases:
  assumes "Upsert stamp now client out tok s = ((acc', ok), s')"
  obtains (replaced) pre old post where
      "accounts s = pre @ old # post" "accounts s' = pre @ acc' # post"
      "same_account (account_of stamp now client tok) old"
      "\<forall>a\<in>set pre. \<not> same_account (account_of stamp now client tok) a"
      "acc' = merge_account (account_of stamp now client tok) old"
    | (added) "accounts s' = accounts s @ [acc']" "acc' = account_of stamp now client tok"
      "\<forall>a\<in>set (accounts s). \<not> same_account acc' a"
proof (cases "find (same_account (account_of stamp now client tok)) (accounts s)")
  case None
  with assms show ?thesis by (intro added) (auto simp: Upsert_def Let_def find_None_iff)
next
  case (Some old)
  let ?acc = "account_of stamp now client tok"
  from update_first_find [OF Some, of "\<lambda>_. merge_account ?acc old"] obtain pre post where
    "accounts s = pre @ old # post" "\<forall>a\<in>set pre. \<not> same_account ?acc a" "same_account ?acc old"
    "update_first (same_account ?acc) (\<lambda>_. merge_account ?acc old) (accounts s)
       = pre @ merge_account ?acc old # post" by blast
  with Some assms show ?thesis by (intro replaced [of pre old post]) (auto simp: Upsert_def Let_def)
qed

lemma Upsert_ok: "fst (Upsert stamp now client out tok s) = (acc', ok) \<Longrightarrow> ok = save_ok out"
  by (auto simp: Upsert_def Let_def split: option.splits)

lemma Upsert_file: "account_file (snd (Upsert stamp now client out tok s)) =
    written out (accounts (snd (Upsert stamp now client out tok s)))"
  by (simp add: Upsert_def Let_def split: option.split)

datatype account_op = Put string instant string account_save TokenSet | Drop string account_save

fun account_exec :: "account_op \<Rightarrow> account_store \<Rightarrow> bool \<times> account_store" where
  "account_exec (Put stamp now client out tok) s =
     (snd (fst (Upsert stamp now client out tok s)), snd (Upsert stamp now client out tok s))"
| "account_exec (Drop aid out) s = Delete aid out s"

interpretation accounts: durable "\<lambda>s. map normalize_account (accounts s)" account_file
    "\<lambda>f. accounts (OpenStore f)" account_exec
proof unfold_locales
  fix op s s'
  assume ex: "account_exec op s = (True, s')"
  have "account_file s' = accounts s'"
  proof (cases op)
    case (Put stamp now client out tok)
    obtain acc' ok where u: "fst (Upsert stamp now client out tok s) = (acc', ok)" by fastforce
    from Upsert_ok [OF u] ex Put u have "save_ok out" by simp
    with ex Put Upsert_file [of stamp now client out tok s] show ?thesis by (auto simp: written_ok)
  next
    case (Drop aid out)
    with ex show ?thesis by (auto simp: Delete_def written_ok)
  qed
  then show "accounts (OpenStore (account_file s')) = map normalize_account (accounts s')"
    by (simp add: OpenStore_def)
qed

lemma expire_finds:
  assumes "a \<in> set (accounts s)" and "at_ID a = at_ID acc"
  shows "find (\<lambda>a. at_ID a = at_ID acc) (accounts (expire acc out s)) = Some (acc\<lparr>at_Status := ''expired''\<rparr>)"
proof -
  have "find (\<lambda>a. at_ID a = at_ID acc) xs \<noteq> None \<Longrightarrow>
      find (\<lambda>a. at_ID a = at_ID acc) (update_first (\<lambda>a. at_ID a = at_ID acc) (\<lambda>_. acc\<lparr>at_Status := ''expired''\<rparr>) xs)
        = Some (acc\<lparr>at_Status := ''expired''\<rparr>)" for xs
    by (induction xs) auto
  moreover have "find (\<lambda>a. at_ID a = at_ID acc) (accounts s) \<noteq> None"
    using assms by (auto simp: find_None_iff)
  ultimately show ?thesis by (simp add: expire_def)
qed

section \<open>Properties\<close>

text \<open>
  C27: when \<open>EnsureValid\<close> answers with an account, either the stored token is good for more than
  another 30 seconds and nothing changed, or the account carries the token the endpoint gave for
  the stored refresh token, and it is in the store and on disk.
\<close>
theorem ensure_valid_returns_live_token:
  assumes "EnsureValid refresh aid stamp now client out s = (Inr acc, s')"
  shows "(Get aid s = Some acc \<and> now < at_ExpiresAt acc - 30 * second \<and> s' = s)
    \<or> (\<exists>old tok. Get aid s = Some old \<and> refresh (at_RefreshToken old) = Inr tok
         \<and> at_AccessToken acc = AccessToken tok \<and> at_Status acc = ''online''
         \<and> acc \<in> set (accounts s') \<and> account_file s' = accounts s')"
proof (cases "Get aid s")
  case None
  with assms show ?thesis by (simp add: EnsureValid_def ensure_check_def)
next
  case (Some old)
  show ?thesis
  proof (cases "now < at_ExpiresAt old - 30 * second \<or> at_RefreshToken old = []")
    case True
    with assms Some show ?thesis by (auto simp: EnsureValid_def ensure_check_def split: if_splits)
  next
    case False
    with assms Some have fin: "ensure_finish old (refresh (at_RefreshToken old)) stamp now client out s = (Inr acc, s')"
      by (simp add: EnsureValid_def ensure_check_def)
    then obtain tok where tok: "refresh (at_RefreshToken old) = Inr tok"
      by (cases "refresh (at_RefreshToken old)") (auto simp: ensure_finish_def)
    obtain acc' ok s1 where up: "Upsert stamp now client out (refreshed_token old tok) s = ((acc', ok), s1)"
      by (metis prod.exhaust)
    with fin tok have ok: "ok" "acc' = acc" "s1 = s'" by (auto simp: ensure_finish_def split: if_splits)
    from up Upsert_ok [of stamp now client out "refreshed_token old tok" s acc' ok] ok have "save_ok out" by simp
    with Upsert_file [of stamp now client out "refreshed_token old tok" s] up ok
    have "account_file s' = accounts s'" by (simp add: written_ok)
    moreover have "acc \<in> set (accounts s') \<and> at_AccessToken acc = AccessToken tok \<and> at_Status acc = ''online''"
      using up [unfolded ok] by (cases rule: Upsert_cases) (auto simp: refreshed_token_def)
    ultimately show ?thesis using Some tok by blast
  qed
qed

text \<open>
  of two refreshes of one account that overlap, a failure discards a success: once both have
  read the account, the one that fails puts the old tokens back, marked expired, over those the
  other one has stored.
\<close>
theorem failed_refresh_discards_success:
  assumes "ensure_check aid now out s = (NeedsRefresh acc, s)"
    and "ensure_finish acc (Inr tok) stamp now client out s = (Inr acc1, s1)"
    and "at_ID acc1 = at_ID acc"
  shows "find (\<lambda>a. at_ID a = at_ID acc) (accounts (snd (ensure_finish acc (Inl e) stamp now client out' s1)))
    = Some (acc\<lparr>at_Status := ''expired''\<rparr>)"
proof -
  obtain acc' ok s' where up: "Upsert stamp now client out (refreshed_token acc tok) s = ((acc', ok), s')"
    by (metis prod.exhaust)
  with assms(2) have "acc' = acc1" "s' = s1" by (auto simp: ensure_finish_def split: if_splits)
  with up have "acc1 \<in> set (accounts s1)" by (cases rule: Upsert_cases) auto
  from expire_finds [OF this assms(3)] show ?thesis by (simp add: ensure_finish_def)
qed

text \<open>
  storing a token changes one account only: it replaces the first account with the same id
  or e-mail address, keeping that account's refresh token when the new set brings none, or is
  appended when there is none.
\<close>
theorem upsert_changes_one_account:
  assumes "Upsert stamp now client out tok s = ((acc, ok), s')"
  shows "at_AccessToken acc = AccessToken tok \<and>
    ((\<exists>pre old post. accounts s = pre @ old # post \<and> accounts s' = pre @ acc # post
        \<and> (at_ID old = at_ID acc \<or> at_Email old = at_Email acc)
        \<and> at_RefreshToken acc = (if RefreshToken tok = [] then at_RefreshToken old else RefreshToken tok))
     \<or> (accounts s' = accounts s @ [acc] \<and> at_ID acc \<notin> at_ID ` set (accounts s)))"
  using assms
proof (cases rule: Upsert_cases)
  case (replaced pre old post)
  then have "at_ID old = at_ID acc \<or> at_Email old = at_Email acc"
    by (auto simp: same_account_def)
  with replaced show ?thesis by (auto simp: merge_account_def)
next
  case added
  then show ?thesis by (auto simp: same_account_def)
qed

text \<open>
  C28: a sign-in ends with an account only for a state the program issued at most ten minutes ago,
  by exchanging the code with the verifier kept for that state; the account is then stored on
  disk and the state reports it.
\<close>
theorem sign_in_uses_pending_verifier:
  assumes "callbackPKCE exchange state0 code0 pasted stamp now client out s = (SignedIn acc, s')"
  shows "\<exists>state code p tok. callback_params state0 code0 pasted = (state, code) \<and> state \<noteq> [] \<and> code \<noteq> []
    \<and> map_of (pkce s) state = Some p \<and> time_sub now (pk_Created p) \<le> 10 * minute
    \<and> exchange code (pk_Verifier p) = Inr tok \<and> at_AccessToken acc = AccessToken tok
    \<and> acc \<in> set (accounts (tokens s')) \<and> account_file (tokens s') = accounts (tokens s')
    \<and> map_of (pkce s') state = Some (p\<lparr>pk_Status := ''authenticated'', pk_Account := Some acc\<rparr>)"
proof -
  obtain state code where sc: "callback_params state0 code0 pasted = (state, code)" by fastforce
  with assms have ne: "state \<noteq> []" "code \<noteq> []" by (auto simp: callbackPKCE_def split: if_splits)
  with sc assms obtain p where p: "map_of (pkce s) state = Some p" "\<not> time_sub now (pk_Created p) > pkce_lifetime"
    by (auto simp: callbackPKCE_def split: option.splits if_splits)
  with sc ne assms obtain tok where tok: "exchange code (pk_Verifier p) = Inr tok"
    by (auto simp: callbackPKCE_def split: sum.splits)
  obtain acc' ok ts where up: "Upsert stamp now client out tok (tokens s) = ((acc', ok), ts)"
    by (metis prod.exhaust)
  from assms sc ne p tok up have ok: "ok" "acc' = acc"
      "s' = s\<lparr>tokens := ts, pkce := AList.update state
         (p\<lparr>pk_Status := ''authenticated'', pk_Account := Some acc\<rparr>) (pkce s)\<rparr>"
    by (auto simp: callbackPKCE_def Let_def split: if_splits)
  from up Upsert_ok [of stamp now client out tok "tokens s" acc' ok] ok have "save_ok out" by simp
  with Upsert_file [of stamp now client out tok "tokens s"] up have "account_file ts = accounts ts"
    by (simp add: written_ok)
  moreover have "acc \<in> set (accounts ts) \<and> at_AccessToken acc = AccessToken tok"
    using up [unfolded ok(2)] by (cases rule: Upsert_cases) auto
  ultimately show ?thesis
    using sc ne p tok ok by (intro exI conjI) (auto simp: update_conv' pkce_lifetime_def)
qed

text \<open>
  after changes of the account list that all reported success, a restart finds the accounts
  that were in memory.
\<close>
theorem reported_accounts_survive_restart:
  assumes "accounts.exec_all ops (OpenStore f) = (oks, s)" and "list_all (\<lambda>ok. ok) oks"
  shows "accounts (OpenStore (account_file s)) = map normalize_account (accounts s)"
proof -
  have "accounts.synced (OpenStore f)"
    unfolding accounts.synced_def by (simp add: OpenStore_def normalize_account_idem comp_def)
  from accounts.exec_all_synced [OF assms(1,2) this] show ?thesis unfolding accounts.synced_def .
qed

section \<open>Witnesses\<close>

definition no_tokens :: TokenSet where
  "no_tokens = \<lparr>AccessToken = ''A1'', RefreshToken = ''R1'', IDToken = [], TokenType = [], Scope = [],
     ExpiresIn = 3600, ExpiresAt = 9000, Email = ''u'', DisplayName = [], HomeOID = ''o'', TenantID = []\<rparr>"

definition old_account :: AccountToken where
  "old_account = \<lparr>at_ID = ''o'', at_Email = ''u'', at_DisplayName = [], at_Status = ''online'',
     at_AccessToken = ''A0'', at_RefreshToken = ''R0'', at_ExpiresAt = 0, at_UpdatedAt = 0,
     at_OID = ''o'', at_TID = [], at_ClientID = []\<rparr>"

definition one_account :: account_store where
  "one_account = \<lparr>accounts = [old_account], account_file = [old_account]\<rparr>"

definition new_account :: AccountToken where
  "new_account = merge_account (account_of ''t'' 5 ''c'' no_tokens) old_account"

definition refreshed_store :: account_store where
  "refreshed_store = \<lparr>accounts = [new_account], account_file = [new_account]\<rparr>"

lemma needs_refresh: "ensure_check ''o'' 5 Saved one_account = (NeedsRefresh old_account, one_account)"
  by (simp add: ensure_check_def Get_def one_account_def old_account_def second_def)

lemma refresh_succeeds:
  "ensure_finish old_account (Inr no_tokens) ''t'' 5 ''c'' Saved one_account = (Inr new_account, refreshed_store)"
  by code_simp

theorem ensure_valid_returns_live_token_witness:
  "at_AccessToken new_account = ''A1''"
proof -
  have "EnsureValid (\<lambda>r. Inr no_tokens) ''o'' ''t'' 5 ''c'' Saved one_account = (Inr new_account, refreshed_store)"
    by (simp add: EnsureValid_def needs_refresh refresh_succeeds)
  from ensure_valid_returns_live_token [OF this] show ?thesis
    by (auto simp: Get_def one_account_def old_account_def second_def new_account_def no_tokens_def)
qed

theorem failed_refresh_discards_success_witness:
  "find (\<lambda>a. at_ID a = ''o'')
     (accounts (snd (ensure_finish old_account (Inl BadResponse) ''t'' 6 ''c'' Saved refreshed_store)))
   = Some (old_account\<lparr>at_Status := ''expired''\<rparr>)"
proof -
  have "at_ID new_account = at_ID old_account" by code_simp
  from failed_refresh_discards_success [OF needs_refresh refresh_succeeds this] show ?thesis
    by (simp add: old_account_def ensure_finish_def)
qed

theorem upsert_changes_one_account_witness:
  "accounts (snd (Upsert ''t'' 5 ''c'' Saved no_tokens one_account)) = [new_account]"
proof -
  have up: "Upsert ''t'' 5 ''c'' Saved no_tokens one_account = ((new_account, True), refreshed_store)"
    by code_simp
  from upsert_changes_one_account [OF up] have "at_AccessToken new_account = ''A1''"
    by (simp add: no_tokens_def)
  with up show ?thesis by (simp add: refreshed_store_def)
qed

definition one_signin :: signin where
  "one_signin = \<lparr>pkce = [(''st'', \<lparr>pk_Verifier = ''v'', pk_Created = 1, pk_Status = ''pending'',
     pk_Account = None, pk_Error = None\<rparr>)], tokens = one_account\<rparr>"

theorem sign_in_uses_pending_verifier_witness:
  "at_AccessToken new_account = ''A1'' \<and>
   fst (callbackPKCE (\<lambda>c v. if v = ''v'' then Inr no_tokens else Inl BadResponse) ''st'' ''code'' None ''t'' 5 ''c'' Saved one_signin)
     = SignedIn new_account"
proof -
  let ?r = "callbackPKCE (\<lambda>c v. if v = ''v'' then Inr no_tokens else Inl BadResponse) ''st'' ''code'' None ''t'' 5 ''c'' Saved one_signin"
  have f: "fst ?r = SignedIn new_account" by code_simp
  then have "?r = (SignedIn new_account, snd ?r)" by (metis prod.collapse)
  from sign_in_uses_pending_verifier [OF this] f show ?thesis
    by (auto simp: no_tokens_def split: if_splits)
qed

lemma put_one: "account_exec (Put ''t'' 5 ''c'' Saved no_tokens) (OpenStore [old_account]) = (True, refreshed_store)"
  by code_simp

theorem reported_accounts_survive_restart_witness:
  "accounts (OpenStore (account_file refreshed_store)) = map normalize_account (accounts refreshed_store)"
proof -
  have "accounts.exec_all [Put ''t'' 5 ''c'' Saved no_tokens] (OpenStore [old_account]) = ([True], refreshed_store)"
    by (simp add: accounts.exec_all.simps put_one del: account_exec.simps)
  from reported_accounts_survive_restart [OF this] show ?thesis by simp
qed

end
