(* ===== verification/Sessions.thy ===== *)
theory Sessions
  imports GoStrings Storage "HOL-Library.AList"
begin

text \<open>
  Which upstream conversation a client's session continues: the store of
  src/internal/web/sessions.go and its endpoints in conversations.go.  The Go map is an association
  list with distinct keys.  The store ignores a failing write, so that memory and file may differ
  then; \<open>synced\<close> is what the writes that worked guarantee.
\<close>

section \<open>The store\<close>

record conversation =
  cv_ID :: string
  cv_AccountID :: string
  cv_ConversationID :: string
  cv_SessionID :: string
  cv_Title :: string
  cv_CreatedAt :: instant
  cv_UpdatedAt :: instant

type_synonym session_map = "(string \<times> conversation) list"

record sessionStore =
  ss_data :: session_map
  ss_file :: session_map

text \<open>A missing or malformed file is the empty map.\<close>

definition openSessionStore :: "session_map \<Rightarrow> sessionStore" where
  "openSessionStore f = \<lparr>ss_data = f, ss_file = f\<rparr>"

definition save_sessions :: "session_map save_outcome \<Rightarrow> sessionStore \<Rightarrow> sessionStore" where
  "save_sessions out s = s\<lparr>ss_file := written out (ss_data s)\<rparr>"

definition session_list :: "sessionStore \<Rightarrow> conversation list" where
  "session_list s = map snd (ss_data s)"

definition session_get :: "string \<Rightarrow> sessionStore \<Rightarrow> conversation option" where
  "session_get sid s = map_of (ss_data s) sid"

definition session_upsert ::
    "string \<Rightarrow> instant \<Rightarrow> session_map save_outcome \<Rightarrow> conversation \<Rightarrow> sessionStore
      \<Rightarrow> conversation \<times> sessionStore" where
  "session_upsert uuid now out v0 s =
     (let v1 = (if cv_ID v0 = [] then v0\<lparr>cv_ID := uuid\<rparr> else v0);
          v2 = (if cv_CreatedAt v1 = zero_time then v1\<lparr>cv_CreatedAt := now\<rparr> else v1);
          v = v2\<lparr>cv_UpdatedAt := now\<rparr>
      in (v, save_sessions out (s\<lparr>ss_data := AList.update (cv_ID v) v (ss_data s)\<rparr>)))"

definition session_delete ::
    "string \<Rightarrow> session_map save_outcome \<Rightarrow> sessionStore \<Rightarrow> bool \<times> sessionStore" where
  "session_delete sid out s =
     (if session_get sid s = None then (False, s)
      else (True, save_sessions out (s\<lparr>ss_data := AList.delete sid (ss_data s)\<rparr>)))"

section \<open>Endpoints\<close>

datatype session_reply = Listed "conversation list" | Deleted | SessionError nat string

definition conversations :: "string \<Rightarrow> sessionStore \<Rightarrow> session_reply" where
  "conversations http_method s =
     (if http_method \<noteq> ''GET'' then SessionError 405 ''method not allowed'' else Listed (session_list s))"

text \<open>\<open>body\<close> is the decoded \<open>id\<close>, \<open>None\<close> where decoding fails.\<close>

definition deleteConversation ::
    "string \<Rightarrow> string option \<Rightarrow> session_map save_outcome \<Rightarrow> sessionStore \<Rightarrow> session_reply \<times> sessionStore" where
  "deleteConversation http_method body out s =
     (if http_method \<noteq> ''POST'' then (SessionError 405 ''method not allowed'', s)
      else case body of
        None \<Rightarrow> (SessionError 400 ''bad json'', s)
      | Some sid \<Rightarrow>
          if sid = [] then (SessionError 400 ''bad json'', s)
          else (case session_delete sid out s of
              (False, s1) \<Rightarrow> (SessionError 404 ''conversation not found'', s1)
            | (True, s1) \<Rightarrow> (Deleted, s1)))"

section \<open>Operations and their invariant\<close>

text \<open>Every entry is stored under its own id, once.\<close>

definition sessions_ok :: "sessionStore \<Rightarrow> bool" where
  "sessions_ok s \<longleftrightarrow> distinct (map fst (ss_data s)) \<and> list_all (\<lambda>(k, v). k = cv_ID v \<and> k \<noteq> []) (ss_data s)"

lemma list_all_update:
  "list_all P xs \<Longrightarrow> P (k, v) \<Longrightarrow> list_all P (AList.update k v xs)"
  by (induction xs) auto

lemma list_all_delete: "list_all P xs \<Longrightarrow> list_all P (AList.delete k xs)"
  by (simp add: AList.delete_eq list_all_iff)

lemma save_sessions_fields [simp]:
  "ss_data (save_sessions out s) = ss_data s" "ss_file (save_sessions out s) = written out (ss_data s)"
  by (simp_all add: save_sessions_def)

lemma session_upsert_result:
  assumes "session_upsert uuid now out v s = (v', s')"
  shows "cv_ID v' = (if cv_ID v = [] then uuid else cv_ID v)" and "cv_UpdatedAt v' = now"
    and "cv_AccountID v' = cv_AccountID v" and "cv_ConversationID v' = cv_ConversationID v"
    and "cv_SessionID v' = cv_SessionID v"
    and "ss_data s' = AList.update (cv_ID v') v' (ss_data s)" and "ss_file s' = written out (ss_data s')"
  using assms by (auto simp: session_upsert_def Let_def)

lemma session_upsert_ok [keeps_inv]:
  "sessions_ok s \<Longrightarrow> uuid \<noteq> [] \<Longrightarrow> sessions_ok (snd (session_upsert uuid now out v s))"
  by (auto simp: sessions_ok_def session_upsert_def Let_def distinct_update intro!: list_all_update)

lemma session_delete_ok [keeps_inv]: "sessions_ok s \<Longrightarrow> sessions_ok (snd (session_delete sid out s))"
  by (auto simp: sessions_ok_def session_delete_def distinct_delete intro!: list_all_delete)

datatype session_op =
    Put string instant "session_map save_outcome" conversation
  | Drop string "session_map save_outcome"

text \<open>An operation and whether the write it made worked.\<close>

fun session_exec :: "session_op \<Rightarrow> sessionStore \<Rightarrow> bool \<times> sessionStore" where
  "session_exec (Put uuid now out v) s = (save_ok out, snd (session_upsert uuid now out v s))"
| "session_exec (Drop sid out) s =
     (session_get sid s = None \<or> save_ok out, snd (session_delete sid out s))"

interpretation sessions: durable ss_data ss_file "\<lambda>f. ss_data (openSessionStore f)" session_exec
proof unfold_locales
  fix op s s'
  assume "session_exec op s = (True, s')" and "ss_data (openSessionStore (ss_file s)) = ss_data s"
  then show "ss_data (openSessionStore (ss_file s')) = ss_data s'"
    by (cases op) (auto simp: openSessionStore_def session_upsert_def session_delete_def Let_def
        written_ok split: if_splits)
qed

section \<open>Properties\<close>

text \<open>
  a session that a turn has updated is found under its key with the upstream ids of that turn, the
  other sessions are untouched, and a deleted session is found no more.
\<close>
theorem session_store_lookup:
  assumes "session_upsert uuid now out v s = (v', s')" and "cv_ID v \<noteq> []"
  shows "session_get (cv_ID v) s' = Some v' \<and> cv_ConversationID v' = cv_ConversationID v
    \<and> cv_SessionID v' = cv_SessionID v \<and> cv_AccountID v' = cv_AccountID v
    \<and> (\<forall>k. k \<noteq> cv_ID v \<longrightarrow> session_get k s' = session_get k s)
    \<and> session_get (cv_ID v) (snd (session_delete (cv_ID v) out' s')) = None"
  using assms(2) session_upsert_result [OF assms(1)]
  by (simp add: session_get_def session_delete_def update_conv' delete_conv')

text \<open>
  every update of a session by a completed turn, which names no creation time, sets the creation
  time to the present: the time at which the session was created is lost.
\<close>
theorem update_resets_creation_time:
  assumes "cv_CreatedAt v = zero_time" and "cv_ID v \<noteq> []"
  shows "map_option cv_CreatedAt (session_get (cv_ID v) (snd (session_upsert uuid now out v s))) = Some now"
  using assms by (simp add: session_upsert_def session_get_def Let_def update_conv')

text \<open>
  after updates and deletions whose writes worked, a restart finds the same sessions.
\<close>
theorem written_sessions_survive_restart:
  assumes "sessions.exec_all ops (openSessionStore f) = (oks, s)" and "list_all (\<lambda>ok. ok) oks"
  shows "openSessionStore (ss_file s) = s"
proof -
  have "sessions.synced (openSessionStore f)"
    unfolding sessions.synced_def by (simp add: openSessionStore_def)
  from sessions.exec_all_synced [OF assms this] show ?thesis
    unfolding sessions.synced_def by (simp add: openSessionStore_def)
qed

definition first_turn :: conversation where
  "first_turn = \<lparr>cv_ID = ''k'', cv_AccountID = ''a'', cv_ConversationID = ''c1'', cv_SessionID = ''s1'',
     cv_Title = ''t'', cv_CreatedAt = zero_time, cv_UpdatedAt = zero_time\<rparr>"

definition one_session :: sessionStore where
  "one_session = snd (session_upsert ''u'' 5 Saved first_turn (openSessionStore []))"

lemma one_session_data:
  "one_session = \<lparr>ss_data = [(''k'', first_turn\<lparr>cv_CreatedAt := 5, cv_UpdatedAt := 5\<rparr>)],
     ss_file = [(''k'', first_turn\<lparr>cv_CreatedAt := 5, cv_UpdatedAt := 5\<rparr>)]\<rparr>"
  by code_simp

theorem session_store_lookup_witness:
  "session_get ''k'' (snd (session_delete ''k'' Saved one_session)) = None"
proof -
  have "session_upsert ''u'' 5 Saved first_turn (openSessionStore []) =
      (fst (session_upsert ''u'' 5 Saved first_turn (openSessionStore [])), one_session)"
    by (simp add: one_session_def)
  from session_store_lookup [OF this, of Saved] show ?thesis by (simp add: first_turn_def)
qed

theorem update_resets_creation_time_witness:
  "map_option cv_CreatedAt (session_get ''k'' one_session) = Some 5
   \<and> map_option cv_CreatedAt (session_get ''k'' (snd (session_upsert ''u'' 9 Saved first_turn one_session))) = Some 9"
  using update_resets_creation_time [of first_turn "''u''" 9 Saved one_session]
  by (simp add: first_turn_def one_session_data session_get_def)

theorem written_sessions_survive_restart_witness: "openSessionStore (ss_file one_session) = one_session"
proof -
  have "sessions.exec_all [Put ''u'' 5 Saved first_turn] (openSessionStore []) = ([True], one_session)"
    by (simp add: sessions.exec_all.simps one_session_def)
  from written_sessions_survive_restart [OF this] show ?thesis by simp
qed

end
