(* ===== verification/ChatAccess.thy ===== *)
theory ChatAccess
  imports ToolAnswer AuthStore Sessions
begin

text \<open>
  What the chat endpoints share: the account and the upstream conversation a request uses, and one
  ChatHub turn (\<open>s.chat\<close>).  The two plain endpoints \<open>chatOnce\<close> (src/internal/web/server.go) and
  \<open>chatStream\<close> (stream.go) are here too.

  \<open>world\<close> holds what the process cannot compute: the answers of ChatHub, of the token endpoint,
  the clock, random ids, and the outcome of file writes.  \<open>upstream i req\<close> is what the \<open>i\<close>-th turn
  made for a request brings: the events handed to the caller's handler, each with the random id
  the handler would draw for it, and then the result or an error.
\<close>

section \<open>The world and the server\<close>

record chat_request =
  cr_Text :: string
  cr_Tone :: string
  cr_ConversationID :: string
  cr_SessionID :: string
  cr_Attachments :: "attachment list"
  cr_Tools :: "chathub_tool list"
  cr_ToolChoice :: json

definition plain_request :: "string \<Rightarrow> string \<Rightarrow> attachment list \<Rightarrow> chat_request" where
  "plain_request t tone atts = \<lparr>cr_Text = t, cr_Tone = tone, cr_ConversationID = [], cr_SessionID = [],
     cr_Attachments = atts, cr_Tools = [], cr_ToolChoice = JNull\<rparr>"

record world =
  upstream :: "nat \<Rightarrow> chat_request \<Rightarrow> (string \<times> stream_event) list \<times> (string + chat_result)"
  token_refresh :: "string \<Rightarrow> token_error + TokenSet"
  client_id :: string
  time_stamp :: string
  clock :: instant
  unix_clock :: "nat \<Rightarrow> int"
  uuid :: string
  account_write :: account_save
  session_write :: "session_map save_outcome"

record server =
  sv_accounts :: account_store
  sv_sessions :: sessionStore
  sv_turns :: "(AccountToken \<times> chat_request) list"

text \<open>A turn; \<open>sv_turns\<close> remembers which turns were made, and for which account.\<close>

definition chat_turn ::
    "world \<Rightarrow> AccountToken \<Rightarrow> chat_request \<Rightarrow> server
      \<Rightarrow> ((string \<times> stream_event) list \<times> (string + chat_result)) \<times> server" where
  "chat_turn w acc req s =
     (upstream w (length (sv_turns s)) req, s\<lparr>sv_turns := sv_turns s @ [(acc, req)]\<rparr>)"

definition Chat ::
    "world \<Rightarrow> AccountToken \<Rightarrow> chat_request \<Rightarrow> server \<Rightarrow> (string + chat_result) \<times> server" where
  "Chat w acc req s = (case chat_turn w acc req s of (r, s1) \<Rightarrow> (snd r, s1))"

section \<open>The account and the session\<close>

definition extractOIDTID :: "tokenlib \<Rightarrow> string \<Rightarrow> string \<times> string" where
  "extractOIDTID K token =
     (let parts = str_split (CHR ''.'') token in
      if length parts < 2 then ([], [])
      else case base64_decode K (parts ! 1) of
          None \<Rightarrow> ([], [])
        | Some bytes \<Rightarrow>
            (case decode_claims K bytes of
               None \<Rightarrow> ([], [])
             | Some m \<Rightarrow> (as_str (get m ''oid''), as_str (get m ''tid''))))"

text \<open>\<open>account_id\<close>, \<open>conversation_id\<close>, \<open>session_id\<close> of the request, completed from its session.\<close>

definition join_session ::
    "string \<Rightarrow> string \<times> string \<times> string \<Rightarrow> server \<Rightarrow> string \<times> string \<times> string" where
  "join_session key ids s =
     (if key = [] then ids
      else case session_get key (sv_sessions s) of
          None \<Rightarrow> ids
        | Some v \<Rightarrow>
            (case ids of (a, c, i) \<Rightarrow>
               (firstNonEmpty [a, cv_AccountID v], firstNonEmpty [c, cv_ConversationID v],
                firstNonEmpty [i, cv_SessionID v])))"

datatype access_error = AccountError resolve_error | MissingIDs

definition with_ids :: "tokenlib \<Rightarrow> AccountToken \<Rightarrow> AccountToken" where
  "with_ids K acc =
     (if at_OID acc = [] \<or> at_TID acc = [] then
        (case extractOIDTID K (at_AccessToken acc) of
           (o1, t1) \<Rightarrow> if o1 \<noteq> [] then acc\<lparr>at_OID := o1, at_TID := t1\<rparr> else acc)
      else acc)"

definition pick_account ::
    "tokenlib \<Rightarrow> world \<Rightarrow> string \<Rightarrow> server \<Rightarrow> (access_error + AccountToken) \<times> server" where
  "pick_account K w aid s =
     (case resolveAccount (token_refresh w) aid (time_stamp w) (clock w) (client_id w) (account_write w)
        (sv_accounts s) of
        (Inl e, st) \<Rightarrow> (Inl (AccountError e), s\<lparr>sv_accounts := st\<rparr>)
      | (Inr acc0, st) \<Rightarrow>
          let acc = with_ids K acc0 in
          (if at_OID acc = [] \<or> at_TID acc = [] then Inl MissingIDs else Inr acc,
           s\<lparr>sv_accounts := st\<rparr>))"

text \<open>What the handlers store after a turn; the creation time is not set.\<close>

definition remember_session ::
    "world \<Rightarrow> string \<Rightarrow> AccountToken \<Rightarrow> chat_result \<Rightarrow> string \<Rightarrow> server \<Rightarrow> server" where
  "remember_session w key acc res title s =
     (if key = [] then s
      else s\<lparr>sv_sessions := snd (session_upsert (uuid w) (clock w) (session_write w)
        \<lparr>cv_ID = key, cv_AccountID = at_ID acc, cv_ConversationID = res_ConversationID res,
         cv_SessionID = res_SessionID res, cv_Title = title, cv_CreatedAt = zero_time,
         cv_UpdatedAt = zero_time\<rparr> (sv_sessions s))\<rparr>)"

section \<open>The plain endpoints\<close>

record chatBody =
  cb_AccountID :: string
  cb_Message :: string
  cb_Prompt :: string
  cb_Tone :: string
  cb_ConversationID :: string
  cb_SessionID :: string
  cb_SessionKey :: string
  cb_Attachments :: "attachment list"

datatype plain_reply =
    PlainError nat string
  | AccessRefused access_error
  | PlainResult chat_result AccountToken
  | EventResult chat_result

text \<open>
  The common part; \<open>empty_ok\<close>: attachments alone make a request.  \<open>body\<close> is the decoded request.
\<close>

definition plain_turn ::
    "tokenlib \<Rightarrow> world \<Rightarrow> chatBody \<Rightarrow> string \<Rightarrow> server
      \<Rightarrow> (plain_reply + AccountToken \<times> chat_result) \<times> server" where
  "plain_turn K w body txt s =
     (case join_session (cb_SessionKey body)
        (cb_AccountID body, cb_ConversationID body, cb_SessionID body) s of (aid, cid, sid) \<Rightarrow>
      (case pick_account K w aid s of
         (Inl e, s1) \<Rightarrow> (Inl (AccessRefused e), s1)
       | (Inr acc, s1) \<Rightarrow>
           (case Chat w acc \<lparr>cr_Text = txt, cr_Tone = cb_Tone body, cr_ConversationID = cid,
               cr_SessionID = sid, cr_Attachments = cb_Attachments body, cr_Tools = [],
               cr_ToolChoice = JNull\<rparr> s1 of
              (Inl e, s2) \<Rightarrow> (Inl (PlainError 502 ''upstream request failed''), s2)
            | (Inr res, s2) \<Rightarrow>
                (Inr (acc, res), remember_session w (cb_SessionKey body) acc res txt s2))))"

definition chatOnce ::
    "tokenlib \<Rightarrow> world \<Rightarrow> string \<Rightarrow> chatBody option \<Rightarrow> server \<Rightarrow> plain_reply \<times> server" where
  "chatOnce K w http_method input s =
     (if http_method \<noteq> ''POST'' then (PlainError 405 ''method not allowed'', s)
      else case input of
        None \<Rightarrow> (PlainError 400 ''bad json'', s)
      | Some body \<Rightarrow>
          let txt = trim_space (firstNonEmpty [cb_Message body, cb_Prompt body]) in
          if txt = [] \<and> cb_Attachments body = [] then (PlainError 400 ''message or attachment required'', s)
          else (case plain_turn K w body txt s of
              (Inl r, s1) \<Rightarrow> (r, s1)
            | (Inr (acc, res), s1) \<Rightarrow> (PlainResult res acc, s1)))"

definition chatStream ::
    "tokenlib \<Rightarrow> world \<Rightarrow> string \<Rightarrow> chatBody option \<Rightarrow> server \<Rightarrow> plain_reply \<times> server" where
  "chatStream K w http_method input s =
     (if http_method \<noteq> ''POST'' then (PlainError 405 ''method not allowed'', s)
      else case input of
        None \<Rightarrow> (PlainError 400 ''bad json'', s)
      | Some body \<Rightarrow>
          let txt = trim_space (firstNonEmpty [cb_Message body, cb_Prompt body]) in
          if txt = [] then (PlainError 400 ''message required'', s)
          else (case plain_turn K w body txt s of
              (Inl r, s1) \<Rightarrow> (r, s1)
            | (Inr (acc, res), s1) \<Rightarrow> (EventResult res, s1)))"

section \<open>Facts about accounts and turns\<close>

lemma with_ids_token [simp]:
  "at_AccessToken (with_ids K acc) = at_AccessToken acc" "at_ID (with_ids K acc) = at_ID acc"
  "at_ExpiresAt (with_ids K acc) = at_ExpiresAt acc"
  by (simp_all add: with_ids_def split: prod.split)

lemma pick_account_ok:
  assumes "pick_account K w aid s = (Inr acc, s1)"
  obtains acc0 st where "resolveAccount (token_refresh w) aid (time_stamp w) (clock w) (client_id w)
      (account_write w) (sv_accounts s) = (Inr acc0, st)"
    "acc = with_ids K acc0" "at_OID acc \<noteq> []" "at_TID acc \<noteq> []" "s1 = s\<lparr>sv_accounts := st\<rparr>"
  using assms by (auto simp: pick_account_def Let_def split: prod.splits sum.splits if_splits)

lemma pick_account_turns [simp]:
  "sv_turns (snd (pick_account K w aid s)) = sv_turns s"
  "sv_sessions (snd (pick_account K w aid s)) = sv_sessions s"
  by (auto simp: pick_account_def Let_def split: prod.splits sum.splits)

lemma chat_turn_fields [simp]:
  "fst (chat_turn w acc req s) = upstream w (length (sv_turns s)) req"
  "sv_turns (snd (chat_turn w acc req s)) = sv_turns s @ [(acc, req)]"
  "sv_accounts (snd (chat_turn w acc req s)) = sv_accounts s"
  "sv_sessions (snd (chat_turn w acc req s)) = sv_sessions s"
  by (simp_all add: chat_turn_def)

lemma Chat_fields [simp]:
  "fst (Chat w acc req s) = snd (upstream w (length (sv_turns s)) req)"
  "sv_turns (snd (Chat w acc req s)) = sv_turns s @ [(acc, req)]"
  "sv_sessions (snd (Chat w acc req s)) = sv_sessions s"
  "sv_accounts (snd (Chat w acc req s)) = sv_accounts s"
  by (simp_all add: Chat_def chat_turn_def)

lemma remember_session_fields [simp]:
  "sv_turns (remember_session w key acc res title s) = sv_turns s"
  "sv_accounts (remember_session w key acc res title s) = sv_accounts s"
  by (simp_all add: remember_session_def)

end
