(* ===== verification/ModelCatalog.thy ===== *)
theory ModelCatalog
  imports GoJson "HOL-Library.Signed_Division"
begin

text \<open>
  The models the gateway offers and the upstream tone each one is routed to:
  src/internal/web/codex_catalog.go and \<open>modelTone\<close> of src/internal/web/server.go, over the
  settings record of settings.go.  \<open>currentSettings()\<close> is the argument \<open>cfg\<close>.

  Model names are compared with \<open>EqualFold\<close> and \<open>ToLower\<close> of GoStrings, which are exact for the
  names that \<open>validateSettings\<close> admits (ASCII).
\<close>

section \<open>Settings\<close>

record modelMapping =
  mm_PublicModel :: string
  mm_UpstreamTone :: string
  mm_DisplayName :: string
  mm_DefaultReasoningLevel :: string

record runtimeSettings =
  MaxToolCallsPerTurn :: int
  MaxToolRounds :: int
  ContextWindow :: int
  MaxOutputTokens :: int
  ChatTimeoutSeconds :: int
  ImageTimeoutSeconds :: int
  LogLevel :: string
  DebugLogPath :: string
  ListenAddress :: string
  ConfigPath :: string
  TokenCachePath :: string
  SessionCachePath :: string
  OutboundProxy :: string
  ProxyPool :: "string list"
  ClientID :: string
  Authority :: string
  RedirectURI :: string
  set_Scope :: string
  ModelMappings :: "modelMapping list"
  ToolPlanningMode :: string

section \<open>Tones\<close>

definition knownUpstreamTones :: "string list" where
  "knownUpstreamTones = [''Gpt_5_2_Chat'', ''Gpt_5_2_Reasoning'', ''Gpt_5_3_Chat'', ''Gpt_5_4_Chat'',
     ''Gpt_5_4_Reasoning'', ''Gpt_5_5_Chat'', ''Gpt_5_5_Reasoning'', ''Gpt_5_6_Reasoning'', ''Gpt_Quick'',
     ''Gpt_Reasoning'', ''Claude_Sonnet'', ''Claude_Sonnet_Reasoning'']"

definition validUpstreamTone :: "string \<Rightarrow> bool" where
  "validUpstreamTone tone = list_ex (\<lambda>known. tone = known) knownUpstreamTones"

definition modelTone :: "string \<Rightarrow> string" where
  "modelTone model = (let m = to_lower (trim_space model) in
     if m = ''gpt-5.2'' then ''Gpt_5_2_Chat''
     else if m = ''gpt-5.2-reasoning'' then ''Gpt_5_2_Reasoning''
     else if m = ''gpt-5.3'' then ''Gpt_5_3_Chat''
     else if m = ''gpt-5.4'' then ''Gpt_5_4_Chat''
     else if m = ''gpt-5.4-reasoning'' then ''Gpt_5_4_Reasoning''
     else if m = ''gpt-5.5'' then ''Gpt_5_5_Chat''
     else if m = ''gpt-5.5-reasoning'' then ''Gpt_5_5_Reasoning''
     else if m = ''gpt-5.6-reasoning'' then ''Gpt_5_6_Reasoning''
     else if m = ''claude'' \<or> m = ''claude-sonnet'' then ''Claude_Sonnet''
     else if m = ''claude-sonnet-reasoning'' then ''Claude_Sonnet_Reasoning''
     else if m = ''gpt-5.4-quick'' then ''Gpt_5_4_Chat''
     else if m = ''gpt-5.3-think-deeper'' then ''Gpt_5_3_Chat''
     else if m = ''quick'' then ''Gpt_Quick''
     else if m = ''think-deeper'' then ''Gpt_Reasoning''
     else ''magic'')"

definition configuredModelMapping :: "string \<Rightarrow> modelMapping list \<Rightarrow> modelMapping option" where
  "configuredModelMapping model0 mappings =
     (let model = to_lower (trim_space model0)
      in find (\<lambda>mapping. equal_fold (trim_space (mm_PublicModel mapping)) model) mappings)"

definition configuredModelTone :: "string \<Rightarrow> modelMapping list \<Rightarrow> string option" where
  "configuredModelTone model mappings =
     (case configuredModelMapping model mappings of
        None \<Rightarrow> None
      | Some mapping \<Rightarrow> Some (mm_UpstreamTone mapping))"

text \<open>\<open>None\<close>: the effort is not supported.\<close>

definition normalizeReasoningEffort :: "string \<Rightarrow> string option" where
  "normalizeReasoningEffort e0 =
     (let e = to_lower (trim_space e0) in
      if e = [] then Some []
      else if e \<in> {''none'', ''minimal'', ''low'', ''medium'', ''high'', ''xhigh''} then Some e
      else None)"

definition deep_tone :: "string \<Rightarrow> string" where
  "deep_tone model = (let m = to_lower (trim_space model) in
     if m = ''claude'' \<or> m = ''claude-sonnet'' then ''Claude_Sonnet_Reasoning''
     else if m = ''gpt-5.2'' then ''Gpt_5_2_Reasoning''
     else if m = ''gpt-5.3'' then ''Gpt_5_3_Reasoning''
     else if m = ''gpt-5.4'' then ''Gpt_5_4_Reasoning''
     else if m = ''gpt-5.5'' then ''Gpt_5_5_Reasoning''
     else if m = ''gpt-5.6'' then ''Gpt_5_5_Reasoning''
     else ''Gpt_Reasoning'')"

definition reasoningTone :: "runtimeSettings \<Rightarrow> string \<Rightarrow> string \<Rightarrow> string option" where
  "reasoningTone cfg model effort =
     (case normalizeReasoningEffort effort of
        None \<Rightarrow> None
      | Some e \<Rightarrow>
          (case configuredModelTone model (ModelMappings cfg) of
             Some tone \<Rightarrow> Some tone
           | None \<Rightarrow>
               if str_contains (to_lower model) ''reasoning'' then Some (modelTone model)
               else if e = [] \<or> e = ''none'' \<or> e = ''minimal'' \<or> e = ''low'' then Some (modelTone model)
               else Some (deep_tone model)))"

section \<open>The catalog\<close>

record modelSpec =
  ms_ID :: string
  ms_Owner :: string
  ms_DisplayName :: string
  ms_DefaultReasoningLevel :: string
  ms_Tools :: bool

definition gateway_model :: "string \<Rightarrow> string \<Rightarrow> modelSpec" where
  "gateway_model name owner = \<lparr>ms_ID = name, ms_Owner = owner, ms_DisplayName = [],
     ms_DefaultReasoningLevel = [], ms_Tools = True\<rparr>"

definition gatewayModels :: "modelSpec list" where
  "gatewayModels =
     [gateway_model ''gpt-5.2'' ''microsoft-365'',
      gateway_model ''gpt-5.2-reasoning'' ''microsoft-365'',
      gateway_model ''gpt-5.3'' ''microsoft-365'',
      gateway_model ''gpt-5.4'' ''microsoft-365'',
      gateway_model ''gpt-5.4-reasoning'' ''microsoft-365'',
      gateway_model ''gpt-5.5'' ''microsoft-365'',
      gateway_model ''gpt-5.5-reasoning'' ''microsoft-365'',
      gateway_model ''gpt-5.6-reasoning'' ''microsoft-365'',
      gateway_model ''claude-sonnet'' ''anthropic-via-microsoft-365'',
      gateway_model ''claude-sonnet-reasoning'' ''anthropic-via-microsoft-365'']"

definition mapping_spec :: "modelMapping \<Rightarrow> modelSpec" where
  "mapping_spec mapping = \<lparr>ms_ID = trim_space (mm_PublicModel mapping), ms_Owner = ''microsoft-365'',
     ms_DisplayName = trim_space (mm_DisplayName mapping),
     ms_DefaultReasoningLevel = trim_space (mm_DefaultReasoningLevel mapping), ms_Tools = True\<rparr>"

definition put_spec :: "modelSpec list \<Rightarrow> modelSpec \<Rightarrow> modelSpec list" where
  "put_spec models spec =
     (if list_ex (\<lambda>m. equal_fold (ms_ID m) (ms_ID spec)) models
      then update_first (\<lambda>m. equal_fold (ms_ID m) (ms_ID spec)) (\<lambda>_. spec) models
      else models @ [spec])"

definition configuredModelSpecs :: "modelMapping list \<Rightarrow> modelSpec list" where
  "configuredModelSpecs mappings = foldl (\<lambda>models mapping. put_spec models (mapping_spec mapping)) gatewayModels mappings"

record modelLimits =
  ml_ContextWindow :: int
  ml_MaxInputTokens :: int
  ml_MaxOutputTokens :: int

definition configuredModelLimits :: "runtimeSettings \<Rightarrow> modelLimits" where
  "configuredModelLimits cfg =
     (let contextWindow = ContextWindow cfg;
          maxOutput = (if MaxOutputTokens cfg \<ge> contextWindow
            then (let o8 = contextWindow sdiv 8 in if o8 < 1 then 1 else o8)
            else MaxOutputTokens cfg)
      in \<lparr>ml_ContextWindow = contextWindow, ml_MaxInputTokens = wrap64 (contextWindow - maxOutput),
          ml_MaxOutputTokens = maxOutput\<rparr>)"


text \<open>The entries of the catalog, as the JSON objects that \<open>json.Marshal\<close> makes of them.\<close>

definition jint :: "int \<Rightarrow> json" where
  "jint n = JNum (Finite (of_int n))"

definition jstrings :: "string list \<Rightarrow> json" where
  "jstrings ss = JArr (map JStr ss)"

definition effort_preset :: "string \<Rightarrow> string \<Rightarrow> json" where
  "effort_preset effort description =
     JObj [(''effort'', JStr effort), (''description'', JStr description)]"

definition advertisedReasoningEfforts :: "json list" where
  "advertisedReasoningEfforts =
     [effort_preset ''none'' ''Disable additional reasoning.'',
      effort_preset ''minimal'' ''Fast responses with minimal reasoning.'',
      effort_preset ''low'' ''Fast responses with lighter reasoning.'',
      effort_preset ''medium'' ''Balances speed and reasoning depth for everyday tasks.'',
      effort_preset ''high'' ''Greater reasoning depth for complex problems.'',
      effort_preset ''xhigh'' ''Extra high reasoning depth for complex problems.'']"

definition gatewayCodexBaseInstructions :: string where
  "gatewayCodexBaseInstructions =
     ''You are Codex, a coding agent collaborating with the user in their workspace. '' @
     ''Follow the user'' @ [CHR 0x27] @ ''s request, inspect the repository before making changes, '' @
     ''preserve unrelated work, and verify changes proportionately. '' @
     ''Keep responses clear, concise, and grounded in observed evidence.''"

definition codexModelMessages :: json where
  "codexModelMessages = JObj
     [(''instructions_template'', JStr gatewayCodexBaseInstructions),
      (''instructions_variables'', JObj
         [(''personality_default'', JStr []), (''personality_friendly'', JStr []),
          (''personality_pragmatic'', JStr [])]),
      (''approvals'', JNull),
      (''auto_review'', JNull)]"

definition catalog_features :: json where
  "catalog_features = jstrings [''tools'', ''function_calling'', ''streaming'', ''reasoning'', ''vision'']"

definition catalog_modalities :: json where
  "catalog_modalities = jstrings [''text'', ''image'']"

definition catalog_caps :: json where
  "catalog_caps = JObj
     [(''chat_completions'', JBool True), (''responses'', JBool True), (''streaming'', JBool True),
      (''tools'', JBool True), (''reasoning'', JBool True),
      (''reasoning_efforts'', JArr advertisedReasoningEfforts),
      (''supported_reasoning_levels'', JArr advertisedReasoningEfforts),
      (''reasoning_mode'', JStr ''gateway_tone_routing''), (''supports_tools'', JBool True),
      (''tool_calls'', JBool True), (''function_calling'', JBool True),
      (''supports_function_calling'', JBool True), (''supports_vision'', JBool True),
      (''vision'', JBool True), (''modalities'', catalog_modalities),
      (''input_modalities'', catalog_modalities), (''output_modalities'', jstrings [''text'']),
      (''supported_features'', catalog_features)]"

definition display_name :: "modelSpec \<Rightarrow> string" where
  "display_name m = (if ms_DisplayName m = [] then ms_ID m else ms_DisplayName m)"

definition default_level :: "modelSpec \<Rightarrow> string" where
  "default_level m = (if ms_DefaultReasoningLevel m = [] then ''medium'' else ms_DefaultReasoningLevel m)"

definition catalog_entry :: "modelLimits \<Rightarrow> modelSpec \<Rightarrow> obj" where
  "catalog_entry l m =
     [(''id'', JStr (ms_ID m)), (''slug'', JStr (ms_ID m)), (''display_name'', JStr (display_name m)),
      (''description'', JStr ''Microsoft 365 gateway model route.''),
      (''base_instructions'', JStr gatewayCodexBaseInstructions),
      (''model_messages'', codexModelMessages),
      (''default_reasoning_level'', JStr (default_level m)), (''object'', JStr ''model''),
      (''owned_by'', JStr (ms_Owner m)), (''shell_type'', JStr ''shell_command''),
      (''visibility'', JStr ''list''), (''supported_in_api'', JBool True), (''priority'', jint 1),
      (''additional_speed_tiers'', JArr []), (''service_tiers'', JArr []),
      (''availability_nux'', JNull), (''upgrade'', JNull),
      (''include_skills_usage_instructions'', JBool False),
      (''supports_reasoning_summaries'', JBool True), (''default_reasoning_summary'', JStr ''none''),
      (''support_verbosity'', JBool True), (''default_verbosity'', JStr ''low''),
      (''apply_patch_tool_type'', JStr ''freeform''), (''web_search_tool_type'', JStr ''text_and_image''),
      (''truncation_policy'', JObj [(''mode'', JStr ''tokens''), (''limit'', jint 10000)]),
      (''supports_parallel_tool_calls'', JBool True), (''supports_image_detail_original'', JBool True),
      (''max_context_window'', jint (ml_ContextWindow l)),
      (''effective_context_window_percent'', jint 95),
      (''experimental_supported_tools'', JArr []), (''supports_search_tool'', JBool True),
      (''use_responses_lite'', JBool False), (''tool_mode'', JStr ''code_mode_only''),
      (''multi_agent_version'', JStr ''v2''), (''context_window'', jint (ml_ContextWindow l)),
      (''max_input_tokens'', jint (ml_MaxInputTokens l)),
      (''max_output_tokens'', jint (ml_MaxOutputTokens l)), (''capabilities'', catalog_caps),
      (''supports_tools'', JBool True), (''tool_calls'', JBool True),
      (''supported_reasoning_levels'', JArr advertisedReasoningEfforts),
      (''function_calling'', JBool True), (''supports_function_calling'', JBool True),
      (''supports_vision'', JBool True), (''vision'', JBool True), (''modalities'', catalog_modalities),
      (''input_modalities'', catalog_modalities), (''output_modalities'', jstrings [''text'']),
      (''supported_features'', catalog_features)]"

definition modelCatalog :: "runtimeSettings \<Rightarrow> obj list" where
  "modelCatalog cfg =
     map (catalog_entry (configuredModelLimits cfg)) (configuredModelSpecs (ModelMappings cfg))"


section \<open>Lemmas\<close>

lemma lower_char_idem [simp]: "lower_char (lower_char c) = lower_char c"
  by (auto simp: lower_char_def of_char_of)

lemma ascii_lower [simp]: "ascii (map lower_char s) \<longleftrightarrow> ascii s"
  by (induction s) (auto simp: lower_char_def of_char_of)

lemma equal_fold_ascii:
  "ascii s \<Longrightarrow> ascii t \<Longrightarrow> equal_fold s (to_lower t) \<longleftrightarrow> to_lower s = to_lower t"
  by (simp add: equal_fold_def fold_case_ascii to_lower_ascii comp_def)

lemma validUpstreamTone_mem: "validUpstreamTone t \<longleftrightarrow> t \<in> set knownUpstreamTones"
  by (auto simp: validUpstreamTone_def list_ex_iff)

lemma modelTone_known: "validUpstreamTone (modelTone model) \<or> modelTone model = ''magic''"
  by (simp add: validUpstreamTone_mem modelTone_def Let_def knownUpstreamTones_def)

lemma deep_tone_known:
  "validUpstreamTone (deep_tone model)
    \<or> deep_tone model = ''Gpt_5_3_Reasoning'' \<and> to_lower (trim_space model) = ''gpt-5.3''"
  by (simp add: validUpstreamTone_mem deep_tone_def Let_def knownUpstreamTones_def)

lemma configuredModelTone_mem:
  "configuredModelTone model mappings = Some t \<Longrightarrow> t \<in> mm_UpstreamTone ` set mappings"
  by (auto simp: configuredModelTone_def configuredModelMapping_def Let_def
      dest!: find_Some_mem split: option.splits)

lemma reasoningTone_cases:
  assumes "reasoningTone cfg model effort = Some t"
  obtains (mapped) "configuredModelTone model (ModelMappings cfg) = Some t"
    | (base) "configuredModelTone model (ModelMappings cfg) = None" "t = modelTone model"
    | (deep) "configuredModelTone model (ModelMappings cfg) = None" "t = deep_tone model"
  using assms by (auto simp: reasoningTone_def split: option.splits if_splits)

text \<open>No two entries of the catalog have names that \<open>EqualFold\<close> identifies.\<close>

definition unique_ids :: "modelSpec list \<Rightarrow> bool" where
  "unique_ids models \<longleftrightarrow> distinct (map (\<lambda>m. fold_case (ms_ID m)) models)"

lemma gatewayModels_unique: "unique_ids gatewayModels"
  by code_simp

lemma put_spec_unique [keeps_inv]:
  assumes "unique_ids models"
  shows "unique_ids (put_spec models spec)"
proof (cases "list_ex (\<lambda>m. equal_fold (ms_ID m) (ms_ID spec)) models")
  case True
  have "map (\<lambda>m. fold_case (ms_ID m))
      (update_first (\<lambda>m. equal_fold (ms_ID m) (ms_ID spec)) (\<lambda>_. spec) models)
    = map (\<lambda>m. fold_case (ms_ID m)) models"
    by (rule map_update_first_same) (simp add: equal_fold_def)
  with True assms show ?thesis by (simp add: put_spec_def unique_ids_def)
next
  case False
  with assms show ?thesis
    by (auto simp: put_spec_def unique_ids_def list_ex_iff equal_fold_def)
qed

lemma put_spec_mem: "spec \<in> set (put_spec models spec)"
proof (cases "list_ex (\<lambda>m. equal_fold (ms_ID m) (ms_ID spec)) models")
  case True
  then have "find (\<lambda>m. equal_fold (ms_ID m) (ms_ID spec)) models \<noteq> None"
    by (auto simp: find_None_all list_ex_iff)
  then obtain x where "find (\<lambda>m. equal_fold (ms_ID m) (ms_ID spec)) models = Some x" by blast
  from update_first_find [OF this, of "\<lambda>_. spec"] True show ?thesis
    by (auto simp: put_spec_def)
qed (simp add: put_spec_def)

lemma put_spec_keeps:
  assumes "m \<in> set models" and "\<not> equal_fold (ms_ID m) (ms_ID spec)"
  shows "m \<in> set (put_spec models spec)"
proof -
  have "m \<in> set (update_first (\<lambda>m. equal_fold (ms_ID m) (ms_ID spec)) (\<lambda>_. spec) models)"
    using assms by (induction models) auto
  with assms show ?thesis by (simp add: put_spec_def)
qed

lemma configuredModelSpecs_snoc:
  "configuredModelSpecs (ms @ [m]) = put_spec (configuredModelSpecs ms) (mapping_spec m)"
  by (simp add: configuredModelSpecs_def)

lemma configuredModelSpecs_unique: "unique_ids (configuredModelSpecs mappings)"
proof (induction mappings rule: rev_induct)
  case Nil
  then show ?case by (simp add: configuredModelSpecs_def gatewayModels_unique)
next
  case (snoc m ms)
  then show ?case by (simp add: configuredModelSpecs_snoc keeps_inv)
qed

end
