(* ===== verification/Settings.thy ===== *)
theory Settings
  imports ModelCatalog OutboundPool Storage
begin

text \<open>
  The runtime settings of src/internal/web/settings.go (validation, the settings file, the
  settings page), the proxy page of src/internal/web/proxy_pool.go, which keeps the pool of
  OutboundPool and the setting \<open>ProxyPool\<close> in step, and the start of the process in
  src/cmd/server/main.go, which hands the saved settings to the outbound package through the
  environment.  \<open>env\<close> is the process environment, \<open>None\<close> where a variable is not set.
\<close>

section \<open>Defaults\<close>

type_synonym environment = "string \<Rightarrow> string option"

definition getenv :: "environment \<Rightarrow> string \<Rightarrow> string" where
  "getenv env k = (case env k of None \<Rightarrow> [] | Some v \<Rightarrow> v)"

definition toolPlanningMode :: "string \<Rightarrow> string" where
  "toolPlanningMode r = (if equal_fold (trim_space r) ''native'' then ''native'' else ''router'')"

definition envInt :: "environment \<Rightarrow> string \<Rightarrow> int \<Rightarrow> int" where
  "envInt env name fallback =
     (case atoi (trim_space (getenv env name)) of
        Some n \<Rightarrow> if n > 0 then n else fallback
      | None \<Rightarrow> fallback)"

fun firstNonEmptySetting :: "string list \<Rightarrow> string" where
  "firstNonEmptySetting [] = []"
| "firstNonEmptySetting (v # vs) =
     (if trim_space v \<noteq> [] then trim_space v else firstNonEmptySetting vs)"

definition defaultModelMappings :: "modelMapping list" where
  "defaultModelMappings =
     [\<lparr>mm_PublicModel = ''gpt-5.6-sol'', mm_UpstreamTone = ''Gpt_5_6_Reasoning'',
       mm_DisplayName = ''GPT-5.6-Sol'', mm_DefaultReasoningLevel = ''low''\<rparr>,
      \<lparr>mm_PublicModel = ''gpt-5.6-terra'', mm_UpstreamTone = ''Gpt_5_6_Reasoning'',
       mm_DisplayName = ''GPT-5.6-Terra'', mm_DefaultReasoningLevel = ''medium''\<rparr>,
      \<lparr>mm_PublicModel = ''gpt-5.6-luna'', mm_UpstreamTone = ''Gpt_5_6_Reasoning'',
       mm_DisplayName = ''GPT-5.6-Luna'', mm_DefaultReasoningLevel = ''medium''\<rparr>]"

definition defaultRuntimeSettings :: "environment \<Rightarrow> runtimeSettings" where
  "defaultRuntimeSettings env =
     \<lparr>MaxToolCallsPerTurn = envInt env ''M365_MAX_TOOL_CALLS_PER_TURN'' 1,
      MaxToolRounds = envInt env ''M365_MAX_TOOL_ROUNDS'' 16,
      ContextWindow = envInt env ''M365_CONTEXT_WINDOW'' 128000,
      MaxOutputTokens = envInt env ''M365_MAX_OUTPUT_TOKENS'' 16384,
      ChatTimeoutSeconds = envInt env ''M365_CHAT_TIMEOUT_SECONDS'' 120,
      ImageTimeoutSeconds = envInt env ''M365_IMAGE_TIMEOUT_SECONDS'' 150,
      LogLevel = firstNonEmptySetting [getenv env ''M365_LOG_LEVEL'', ''info''],
      DebugLogPath = getenv env ''M365_DEBUG_LOG'', ListenAddress = getenv env ''M365_LISTEN'',
      ConfigPath = getenv env ''M365_CONFIG'', TokenCachePath = getenv env ''M365_TOKEN_CACHE'',
      SessionCachePath = getenv env ''M365_SESSION_CACHE'',
      OutboundProxy = getenv env ''M365_OUTBOUND_PROXY'', ProxyPool = [],
      ClientID = getenv env ''M365_CLIENT_ID'', Authority = getenv env ''M365_AUTHORITY'',
      RedirectURI = getenv env ''M365_REDIRECT_URI'', set_Scope = getenv env ''M365_SCOPE'',
      ModelMappings = defaultModelMappings,
      ToolPlanningMode = toolPlanningMode (getenv env ''M365_TOOL_PLANNING_MODE'')\<rparr>"

section \<open>Validation\<close>

datatype settings_error =
    BadToolCalls
  | BadToolRounds
  | BadContextWindow
  | BadMaxOutput
  | BadChatTimeout
  | BadImageTimeout
  | BadLogLevel
  | BadProxy proxy_error
  | BadPublicModel
  | DuplicatePublicModel string
  | BadTone string
  | NoDisplayName string
  | BadReasoningLevel string

text \<open>The regular expression \<open>^[A-Za-z0-9._-]{1,128}$\<close>.\<close>

definition model_id_char :: "char \<Rightarrow> bool" where
  "model_id_char c = (let n = (of_char c :: nat) in
     (65 \<le> n \<and> n \<le> 90) \<or> (97 \<le> n \<and> n \<le> 122) \<or> (48 \<le> n \<and> n \<le> 57)
     \<or> c = CHR ''.'' \<or> c = CHR ''_'' \<or> c = CHR ''-'')"

definition publicModelID :: "string \<Rightarrow> bool" where
  "publicModelID s = (1 \<le> length s \<and> length s \<le> 128 \<and> list_all model_id_char s)"

definition ValidateProxyURL :: "netlib \<Rightarrow> string \<Rightarrow> proxy_error + unit" where
  "ValidateProxyURL N r = (case New N r of Inl e \<Rightarrow> Inl e | Inr _ \<Rightarrow> Inr ())"

fun check_pool :: "netlib \<Rightarrow> string list \<Rightarrow> settings_error + unit" where
  "check_pool N [] = Inr ()"
| "check_pool N (u # us) =
     (case ValidateProxyURL N (trim_space u) of Inl e \<Rightarrow> Inl (BadProxy e) | Inr _ \<Rightarrow> check_pool N us)"

fun check_mappings :: "string set \<Rightarrow> modelMapping list \<Rightarrow> settings_error + unit" where
  "check_mappings seen [] = Inr ()"
| "check_mappings seen (mapping # ms) =
     (let model = trim_space (mm_PublicModel mapping) in
      if \<not> publicModelID model then Inl BadPublicModel
      else
        let key = to_lower model in
        if key \<in> seen then Inl (DuplicatePublicModel model)
        else if \<not> validUpstreamTone (trim_space (mm_UpstreamTone mapping))
          then Inl (BadTone (mm_UpstreamTone mapping))
        else if trim_space (mm_DisplayName mapping) = [] then Inl (NoDisplayName model)
        else if normalizeReasoningEffort (mm_DefaultReasoningLevel mapping) = None
            \<or> trim_space (mm_DefaultReasoningLevel mapping) = []
          then Inl (BadReasoningLevel model)
        else check_mappings (insert key seen) ms)"

definition validateSettings :: "netlib \<Rightarrow> runtimeSettings \<Rightarrow> settings_error + unit" where
  "validateSettings N v =
     (if MaxToolCallsPerTurn v < 1 \<or> MaxToolCallsPerTurn v > 64 then Inl BadToolCalls
      else if MaxToolRounds v < 1 \<or> MaxToolRounds v > 512 then Inl BadToolRounds
      else if ContextWindow v < 1024 then Inl BadContextWindow
      else if MaxOutputTokens v < 1 \<or> MaxOutputTokens v \<ge> ContextWindow v then Inl BadMaxOutput
      else if ChatTimeoutSeconds v < 5 \<or> ChatTimeoutSeconds v > 3600 then Inl BadChatTimeout
      else if ImageTimeoutSeconds v < 5 \<or> ImageTimeoutSeconds v > 3600 then Inl BadImageTimeout
      else if LogLevel v \<noteq> ''silent'' \<and> LogLevel v \<noteq> ''error'' \<and> LogLevel v \<noteq> ''warn''
          \<and> LogLevel v \<noteq> ''info'' \<and> LogLevel v \<noteq> ''debug'' then Inl BadLogLevel
      else case ValidateProxyURL N (OutboundProxy v) of
        Inl e \<Rightarrow> Inl (BadProxy e)
      | Inr _ \<Rightarrow>
          (case check_pool N (ProxyPool v) of
             Inl e \<Rightarrow> Inl e
           | Inr _ \<Rightarrow> check_mappings {} (ModelMappings v)))"

section \<open>The store\<close>

text \<open>
  \<open>settings_file\<close> is what reading the settings file makes of the default settings it is decoded
  over: the identity for a missing or malformed file, the saved settings after a save (every field
  is written; an omitted empty \<open>proxyPool\<close> is read back as the default, which is empty too).
\<close>

record settingsStore =
  set_v :: runtimeSettings
  settings_file :: "runtimeSettings \<Rightarrow> runtimeSettings"

type_synonym settings_save = "(runtimeSettings \<Rightarrow> runtimeSettings) save_outcome"

definition openSettingsStore :: "environment \<Rightarrow> (runtimeSettings \<Rightarrow> runtimeSettings) \<Rightarrow> settingsStore" where
  "openSettingsStore env f = \<lparr>set_v = f (defaultRuntimeSettings env), settings_file = f\<rparr>"

datatype save_error = Invalid settings_error | NotWritten

text \<open>\<open>out\<close> covers \<open>MkdirAll\<close> as well: when it fails, the file is left as it was.\<close>

definition save_settings ::
    "netlib \<Rightarrow> runtimeSettings \<Rightarrow> settings_save \<Rightarrow> settingsStore \<Rightarrow> save_error option \<times> settingsStore" where
  "save_settings N v out s =
     (case validateSettings N v of
        Inl e \<Rightarrow> (Some (Invalid e), s)
      | Inr _ \<Rightarrow>
          let s1 = s\<lparr>settings_file := written out (\<lambda>_. v)\<rparr> in
          if save_ok out then (None, s1\<lparr>set_v := v\<rparr>) else (Some NotWritten, s1))"

section \<open>The settings page\<close>

record settings_page =
  sp_settings :: settingsStore
  sp_outbound :: outbound

datatype page_reply = Done | Refused nat save_error | PoolRefused nat proxy_error | BadJSON

text \<open>\<open>PUT /api/admin/settings\<close>; \<open>body\<close> is the decoded request, \<open>None\<close> where decoding fails.\<close>

definition put_settings ::
    "netlib \<Rightarrow> runtimeSettings option \<Rightarrow> settings_save \<Rightarrow> settings_page \<Rightarrow> page_reply \<times> settings_page" where
  "put_settings N body out st =
     (case body of
        None \<Rightarrow> (BadJSON, st)
      | Some v \<Rightarrow>
          (case save_settings N v out (sp_settings st) of
             (Some e, s1) \<Rightarrow> (Refused 400 e, st\<lparr>sp_settings := s1\<rparr>)
           | (None, s1) \<Rightarrow>
               (case ConfigurePool N (ProxyPool v) (sp_outbound st) of
                  (Some e, o1) \<Rightarrow> (PoolRefused 400 e, \<lparr>sp_settings = s1, sp_outbound = o1\<rparr>)
                | (None, o1) \<Rightarrow> (Done, \<lparr>sp_settings = s1, sp_outbound = o1\<rparr>))))"

section \<open>The proxy page\<close>

definition persistProxyPool ::
    "netlib \<Rightarrow> settings_save \<Rightarrow> settings_page \<Rightarrow> save_error option \<times> settings_page" where
  "persistProxyPool N out st =
     (case save_settings N ((set_v (sp_settings st))\<lparr>ProxyPool := pool_urls (sp_outbound st)\<rparr>) out
        (sp_settings st) of
        (e, s1) \<Rightarrow> (e, st\<lparr>sp_settings := s1\<rparr>))"

text \<open>
  \<open>POST\<close>: the parts are added and saved one by one; \<open>outs i\<close> is the outcome of the \<open>i\<close>-th save.
  The result holds the reply and the number of proxies added.
\<close>

fun add_parts ::
    "netlib \<Rightarrow> (nat \<Rightarrow> settings_save) \<Rightarrow> string list \<Rightarrow> nat \<Rightarrow> settings_page
      \<Rightarrow> (page_reply \<times> nat) \<times> settings_page" where
  "add_parts N outs [] added st = ((Done, added), st)"
| "add_parts N outs (v # vs) added st =
     (if trim_space v = [] then add_parts N outs vs added st
      else
        case AddProxy N (trim_space v) (sp_outbound st) of
          (Some e, o1) \<Rightarrow> ((PoolRefused 400 e, added), st\<lparr>sp_outbound := o1\<rparr>)
        | (None, o1) \<Rightarrow>
            (case persistProxyPool N (outs added) (st\<lparr>sp_outbound := o1\<rparr>) of
               (Some e, st1) \<Rightarrow> ((Refused 500 e, added), st1)
             | (None, st1) \<Rightarrow> add_parts N outs vs (added + 1) st1))"

definition post_proxies ::
    "netlib \<Rightarrow> (nat \<Rightarrow> settings_save) \<Rightarrow> (string \<times> string list) option \<Rightarrow> settings_page
      \<Rightarrow> (page_reply \<times> nat) \<times> settings_page" where
  "post_proxies N outs body st =
     (case body of
        None \<Rightarrow> ((BadJSON, 0), st)
      | Some (url, urls) \<Rightarrow>
          add_parts N outs (concat (map (fields_func is_pool_separator) (urls @ [url]))) 0 st)"

definition delete_proxy ::
    "netlib \<Rightarrow> settings_save \<Rightarrow> string \<Rightarrow> settings_page \<Rightarrow> page_reply \<times> settings_page" where
  "delete_proxy N out url_param st =
     (let r = normal_url url_param;
          (e, o1) = (if r = [] then ConfigurePool N [] (sp_outbound st)
                     else RemoveProxy N r (sp_outbound st));
          st1 = st\<lparr>sp_outbound := o1\<rparr>
      in case e of
           Some e1 \<Rightarrow> (PoolRefused 400 e1, st1)
         | None \<Rightarrow>
             (case persistProxyPool N out st1 of
                (Some e2, st2) \<Rightarrow> (Refused 500 e2, st2)
              | (None, st2) \<Rightarrow> (Done, st2)))"

text \<open>\<open>PUT ?action=check\<close> probes every proxy of the pool, if there is one.\<close>

definition check_proxies ::
    "(string \<Rightarrow> probe \<times> duration \<times> instant) \<Rightarrow> settings_page \<Rightarrow> page_reply \<times> settings_page" where
  "check_proxies world st =
     (case ob_pool (sp_outbound st) of
        None \<Rightarrow> (Done, st)
      | Some p \<Rightarrow> (Done, st\<lparr>sp_outbound := (sp_outbound st)\<lparr>ob_pool := Some (CheckAll world p)\<rparr>\<rparr>))"

section \<open>The start of the process\<close>

definition startup_values :: "runtimeSettings \<Rightarrow> (string \<times> string) list" where
  "startup_values s =
     [(''M365_LISTEN'', ListenAddress s), (''M365_CONFIG'', ConfigPath s),
      (''M365_TOKEN_CACHE'', TokenCachePath s), (''M365_SESSION_CACHE'', SessionCachePath s),
      (''M365_OUTBOUND_PROXY'', OutboundProxy s),
      (''M365_PROXY_POOL'', str_join [CHR 0x0A] (ProxyPool s)), (''M365_CLIENT_ID'', ClientID s),
      (''M365_AUTHORITY'', Authority s), (''M365_REDIRECT_URI'', RedirectURI s),
      (''M365_SCOPE'', set_Scope s), (''M365_DEBUG_LOG'', DebugLogPath s)]"

definition set_if_unset :: "environment \<Rightarrow> string \<times> string \<Rightarrow> environment" where
  "set_if_unset env kv =
     (if env (fst kv) = None \<and> trim_space (snd kv) \<noteq> [] then env(fst kv \<mapsto> snd kv) else env)"

definition ApplyStartupSettingsEnv :: "runtimeSettings \<Rightarrow> environment \<Rightarrow> environment" where
  "ApplyStartupSettingsEnv s env = foldl set_if_unset env (startup_values s)"

text \<open>\<open>main\<close> up to the server: it ends with a fatal error when \<open>ConfigureFromEnv\<close> fails.\<close>

definition start_outbound ::
    "netlib \<Rightarrow> environment \<Rightarrow> (runtimeSettings \<Rightarrow> runtimeSettings) \<Rightarrow> proxy_error option \<times> settings_page" where
  "start_outbound N env f =
     (let s = openSettingsStore env f;
          env1 = ApplyStartupSettingsEnv (set_v s) env;
          (e, o1) = ConfigureFromEnv N (getenv env1 ''M365_PROXY_POOL'') (getenv env1 ''M365_OUTBOUND_PROXY'')
            \<lparr>ob_clients = Direct, ob_pool = None\<rparr>
      in (e, \<lparr>sp_settings = s, sp_outbound = o1\<rparr>))"

section \<open>What validation accepts\<close>

text \<open>A declarative reading of \<open>validateSettings\<close>.\<close>

definition mapping_ok :: "modelMapping \<Rightarrow> bool" where
  "mapping_ok m \<longleftrightarrow>
     publicModelID (trim_space (mm_PublicModel m)) \<and> trim_space (mm_UpstreamTone m) \<in> set knownUpstreamTones
     \<and> trim_space (mm_DisplayName m) \<noteq> []
     \<and> to_lower (trim_space (mm_DefaultReasoningLevel m))
         \<in> {''none'', ''minimal'', ''low'', ''medium'', ''high'', ''xhigh''}"

definition public_name :: "modelMapping \<Rightarrow> string" where
  "public_name m = to_lower (trim_space (mm_PublicModel m))"

definition settings_ok :: "netlib \<Rightarrow> runtimeSettings \<Rightarrow> bool" where
  "settings_ok N v \<longleftrightarrow>
     MaxToolCallsPerTurn v \<in> {1..64} \<and> MaxToolRounds v \<in> {1..512}
     \<and> 1024 \<le> ContextWindow v \<and> MaxOutputTokens v \<in> {1..<ContextWindow v}
     \<and> ChatTimeoutSeconds v \<in> {5..3600} \<and> ImageTimeoutSeconds v \<in> {5..3600}
     \<and> LogLevel v \<in> {''silent'', ''error'', ''warn'', ''info'', ''debug''}
     \<and> (\<forall>u\<in>set (OutboundProxy v # ProxyPool v). \<exists>c. New N u = Inr c)
     \<and> (\<forall>m\<in>set (ModelMappings v). mapping_ok m) \<and> distinct (map public_name (ModelMappings v))"

lemma New_trim [simp]: "New N (trim_space u) = New N u"
  by (simp add: New_def)

lemma ValidateProxyURL_ok: "ValidateProxyURL N u = Inr x \<longleftrightarrow> (\<exists>c. New N u = Inr c)"
  by (simp add: ValidateProxyURL_def split: sum.split)

lemma check_pool_ok: "check_pool N us = Inr () \<longleftrightarrow> (\<forall>u\<in>set us. \<exists>c. New N u = Inr c)"
  by (induction us) (auto simp: ValidateProxyURL_def split: sum.splits)

lemma to_lower_Nil_iff [simp]: "to_lower s = [] \<longleftrightarrow> s = []"
  by (cases s) auto

lemma reasoning_level_ok:
  "(\<exists>e. normalizeReasoningEffort l = Some e) \<and> trim_space l \<noteq> []
    \<longleftrightarrow> to_lower (trim_space l) \<in> {''none'', ''minimal'', ''low'', ''medium'', ''high'', ''xhigh''}"
  by (auto simp: normalizeReasoningEffort_def Let_def)

lemma check_mappings_ok:
  "check_mappings seen ms = Inr () \<longleftrightarrow>
     (\<forall>m\<in>set ms. mapping_ok m \<and> public_name m \<notin> seen) \<and> distinct (map public_name ms)"
proof (induction ms arbitrary: seen)
  case (Cons m ms)
  have "check_mappings seen (m # ms) = Inr () \<longleftrightarrow>
      mapping_ok m \<and> public_name m \<notin> seen \<and> check_mappings (insert (public_name m) seen) ms = Inr ()"
    using reasoning_level_ok [of "mm_DefaultReasoningLevel m"]
    by (auto simp: mapping_ok_def public_name_def validUpstreamTone_mem Let_def)
  then show ?case unfolding Cons.IH by (auto simp del: check_mappings.simps intro: rev_image_eqI)
qed simp

lemma validateSettings_ok: "validateSettings N v = Inr () \<longleftrightarrow> settings_ok N v"
  using check_pool_ok [of N "ProxyPool v"] check_mappings_ok [of "{}" "ModelMappings v"]
  by (auto simp: validateSettings_def settings_ok_def ValidateProxyURL_def split: sum.splits)


section \<open>The store is written through\<close>

lemma save_settings_ok:
  "save_settings N v out s = (None, s') \<Longrightarrow>
     settings_ok N v \<and> save_ok out \<and> set_v s' = v \<and> settings_file s' = (\<lambda>_. v)"
  by (auto simp: save_settings_def Let_def written_ok validateSettings_ok [symmetric]
      split: sum.splits if_splits)

lemma save_settings_failed: "save_settings N v out s = (Some e, s') \<Longrightarrow> set_v s' = set_v s"
  by (auto simp: save_settings_def Let_def split: sum.splits if_splits)

lemma save_settings_succeeds:
  "settings_ok N v \<Longrightarrow> save_ok out \<Longrightarrow>
     save_settings N v out s = (None, \<lparr>set_v = v, settings_file = (\<lambda>_. v)\<rparr>)"
  by (simp add: save_settings_def validateSettings_ok [symmetric] written_ok)

text \<open>One save: the settings and the outcome of writing them.\<close>

type_synonym settings_op = "runtimeSettings \<times> settings_save"

definition settings_exec :: "netlib \<Rightarrow> settings_op \<Rightarrow> settingsStore \<Rightarrow> bool \<times> settingsStore" where
  "settings_exec N op s =
     (case save_settings N (fst op) (snd op) s of (e, s1) \<Rightarrow> (e = None, s1))"

interpretation config: write_through set_v settings_file "\<lambda>f. f (defaultRuntimeSettings env)"
  "settings_exec N" for env N
proof unfold_locales
  fix op s s'
  assume "settings_exec N op s = (True, s')"
  then show "settings_file s' (defaultRuntimeSettings env) = set_v s'"
    by (auto simp: settings_exec_def dest!: save_settings_ok split: prod.splits)
next
  fix op s s'
  assume "settings_exec N op s = (False, s')"
  then show "set_v s' = set_v s"
    by (auto simp: settings_exec_def dest: save_settings_failed split: prod.splits)
qed

section \<open>The pages keep the pool and the setting in step\<close>

definition in_step :: "settings_page \<Rightarrow> bool" where
  "in_step st \<longleftrightarrow>
     pool_urls (sp_outbound st) = first_occurrences [] (ProxyPool (set_v (sp_settings st)))"

definition page_ok :: "netlib \<Rightarrow> settings_page \<Rightarrow> bool" where
  "page_ok N st \<longleftrightarrow> outbound_ok N (sp_outbound st) \<and> in_step st"

lemma pool_urls_normal:
  assumes "outbound_ok N o1"
  shows "first_occurrences [] (pool_urls o1) = pool_urls o1"
proof -
  have "distinct (pool_urls o1)" "[] \<notin> set (pool_urls o1)"
    using assms by (auto simp: pool_urls_def outbound_ok_def pool_ok_def list_all_iff entry_ok_def
        split: option.splits)
  then show ?thesis using first_occurrences_fresh [of "[]" "pool_urls o1"] by simp
qed

lemma ConfigurePool_total:
  "\<forall>u\<in>set us. \<exists>c. New N u = Inr c \<Longrightarrow> \<exists>o1. ConfigurePool N us o0 = (None, o1)"
  using new_entries_total [of us N "[]"]
  by (fastforce simp: ConfigurePool_def NewPool_def split: sum.splits)

lemma AddProxy_ok: "outbound_ok N o0 \<Longrightarrow> outbound_ok N (snd (AddProxy N u o0))"
  by (rule outbound_step_ok [OF step_add])

lemma RemoveProxy_ok: "outbound_ok N o0 \<Longrightarrow> outbound_ok N (snd (RemoveProxy N u o0))"
  by (rule outbound_step_ok [OF step_remove])

text \<open>Using the pool does not change which proxies it holds.\<close>

lemma mark_urls [simp]: "map raw (entries (mark r failed now p)) = map raw (entries p)"
  by (simp add: mark_def map_update_first_same)

lemma setHealth_urls [simp]: "map raw (entries (setHealth r status p)) = map raw (entries p)"
  by (simp add: setHealth_def map_update_first_same)

lemma note_check_urls [simp]: "map raw (entries (note_check r now lat err p)) = map raw (entries p)"
  by (simp add: note_check_def map_update_first_same)

lemma Check_urls [simp]: "map raw (entries (fst (Check r outcome lat now p))) = map raw (entries p)"
  by (simp add: Check_def Let_def split: probe.split)

lemma check_one_urls [simp]: "map raw (entries (check_one world p r)) = map raw (entries p)"
proof -
  obtain outcome lat now where w: "world r = (outcome, lat, now)" by (cases "world r") auto
  show ?thesis
    using Check_urls [of r outcome lat now p]
    by (cases "Check r outcome lat now p") (simp add: check_one_def w)
qed

lemma CheckAll_urls [simp]: "map raw (entries (CheckAll world p)) = map raw (entries p)"
proof -
  have "map raw (entries (foldl (check_one world) p rs)) = map raw (entries p)" for rs
    by (induction rs arbitrary: p) simp_all
  then show ?thesis by (simp add: CheckAll_def)
qed

lemma ws_dial_urls [simp]:
  "map raw (entries (snd (snd (snd (ws_dial fails now sticky p))))) = map raw (entries p)"
proof (cases sticky)
  case None
  obtain e p1 where "pick now p = (e, p1)" by fastforce
  then show ?thesis
    using None pick_entries [of now p] by (cases e) (simp_all add: ws_dial_def Let_def)
qed (simp add: ws_dial_def Let_def)

lemma HTTPClient_urls [simp]: "pool_urls (snd (snd (HTTPClient now o0))) = pool_urls o0"
proof (cases "ob_pool o0")
  case (Some p)
  obtain e p1 where "pick now p = (e, p1)" by fastforce
  with Some show ?thesis
    using pick_entries [of now p] by (cases e) (simp_all add: HTTPClient_def pool_urls_def)
qed (simp add: HTTPClient_def)

lemma persistProxyPool_ok:
  assumes "persistProxyPool N out st = (None, st')" and "outbound_ok N (sp_outbound st)"
  shows "page_ok N st'" and "settings_ok N (set_v (sp_settings st'))"
  using assms
  by (auto simp: persistProxyPool_def page_ok_def in_step_def pool_urls_normal
      dest!: save_settings_ok split: prod.splits)

lemma add_parts_ok:
  "add_parts N outs vs added st = ((Done, n), st') \<Longrightarrow> page_ok N st \<Longrightarrow> page_ok N st'"
proof (induction N outs vs added st rule: add_parts.induct)
  case (2 N outs v vs added st)
  obtain e o1 where a: "AddProxy N (trim_space v) (sp_outbound st) = (e, o1)" by fastforce
  obtain e2 st1 where p: "persistProxyPool N (outs added) (st\<lparr>sp_outbound := o1\<rparr>) = (e2, st1)" by fastforce
  show ?case
  proof (cases "trim_space v = []")
    case True
    with 2 show ?thesis by simp
  next
    case False
    with "2.prems" a p have "e = None" "e2 = None" by (auto split: option.splits)
    moreover have "outbound_ok N o1"
      using "2.prems"(2) a AddProxy_ok [of N "sp_outbound st" "trim_space v"] by (simp add: page_ok_def)
    ultimately have "page_ok N st1" using p persistProxyPool_ok(1) by fastforce
    with 2 False a p \<open>e = None\<close> \<open>e2 = None\<close> show ?thesis by simp
  qed
qed simp

datatype page_request =
    PutSettings "runtimeSettings option" settings_save
  | PostProxies "nat \<Rightarrow> settings_save" "(string \<times> string list) option"
  | DeleteProxy settings_save string
  | CheckProxies "string \<Rightarrow> probe \<times> duration \<times> instant"

fun serve_page :: "netlib \<Rightarrow> page_request \<Rightarrow> settings_page \<Rightarrow> page_reply \<times> settings_page" where
  "serve_page N (PutSettings body out) st = put_settings N body out st"
| "serve_page N (PostProxies outs body) st =
     (case post_proxies N outs body st of ((reply, _), st1) \<Rightarrow> (reply, st1))"
| "serve_page N (DeleteProxy out u) st = delete_proxy N out u st"
| "serve_page N (CheckProxies world) st = check_proxies world st"

lemma put_settings_done:
  assumes "put_settings N body out st = (Done, st')"
  obtains v where "body = Some v" "settings_ok N v" "set_v (sp_settings st') = v"
    "settings_file (sp_settings st') = (\<lambda>_. v)"
    "ConfigurePool N (ProxyPool v) (sp_outbound st) = (None, sp_outbound st')"
proof -
  from assms obtain v where v: "body = Some v" by (auto simp: put_settings_def split: option.splits)
  obtain e s1 where s: "save_settings N v out (sp_settings st) = (e, s1)" by fastforce
  obtain e2 o1 where o: "ConfigurePool N (ProxyPool v) (sp_outbound st) = (e2, o1)" by fastforce
  from assms v s o have "e = None" "e2 = None" "st' = \<lparr>sp_settings = s1, sp_outbound = o1\<rparr>"
    by (auto simp: put_settings_def split: option.splits)
  with v s o show ?thesis using that [of v] save_settings_ok [of N v out "sp_settings st" s1] by simp
qed

lemma delete_proxy_ok:
  assumes "delete_proxy N out u st = (Done, st')" and "page_ok N st"
  shows "page_ok N st'"
proof -
  let ?c = "if normal_url u = [] then ConfigurePool N [] (sp_outbound st)
     else RemoveProxy N (normal_url u) (sp_outbound st)"
  obtain e o1 where c: "?c = (e, o1)" by fastforce
  have "outbound_ok N o1"
    using c assms(2) ConfigurePool_ok [of N "sp_outbound st" "[]"]
      RemoveProxy_ok [of N "sp_outbound st" "normal_url u"]
    by (auto simp: page_ok_def split: if_splits)
  moreover have "persistProxyPool N out (st\<lparr>sp_outbound := o1\<rparr>) = (None, st')"
    using assms(1) c by (simp add: delete_proxy_def Let_def split: option.splits prod.splits)
  ultimately show ?thesis using persistProxyPool_ok(1) by fastforce
qed

lemma serve_page_ok:
  assumes "serve_page N rq st = (Done, st')" and "page_ok N st"
  shows "page_ok N st'"
proof (cases rq)
  case (PutSettings body out)
  with assms(1) obtain v where "set_v (sp_settings st') = v"
      "ConfigurePool N (ProxyPool v) (sp_outbound st) = (None, sp_outbound st')"
    by (auto elim: put_settings_done)
  with assms(2) show ?thesis
    using ConfigurePool_ok [of N "sp_outbound st" "ProxyPool v"]
    by (auto simp: page_ok_def in_step_def pool_urls_ConfigurePool)
next
  case (PostProxies outs body)
  with assms show ?thesis
    by (auto simp: post_proxies_def intro: add_parts_ok split: option.splits prod.splits)
next
  case (DeleteProxy out u)
  with assms show ?thesis by (auto intro: delete_proxy_ok)
next
  case (CheckProxies world)
  with assms show ?thesis
    by (auto simp: check_proxies_def page_ok_def in_step_def outbound_ok_def pool_urls_def keeps_inv
        split: option.splits)
qed

text \<open>
  The running program: requests to the two pages that succeed, and uses of the outbound clients.
\<close>

inductive page_step :: "netlib \<Rightarrow> settings_page \<Rightarrow> settings_page \<Rightarrow> bool" for N where
  served: "serve_page N rq st = (Done, st') \<Longrightarrow> page_step N st st'"
| client: "page_step N st (st\<lparr>sp_outbound := snd (snd (HTTPClient now (sp_outbound st)))\<rparr>)"
| round_trip: "ob_pool (sp_outbound st) = Some p \<Longrightarrow> page_step N st
    (st\<lparr>sp_outbound := (sp_outbound st)\<lparr>ob_pool := Some (snd (RoundTrip fails now e p))\<rparr>\<rparr>)"
| dial: "ob_pool (sp_outbound st) = Some p \<Longrightarrow> page_step N st
    (st\<lparr>sp_outbound := (sp_outbound st)\<lparr>ob_pool := Some (snd (snd (snd (ws_dial fails now sticky p))))\<rparr>\<rparr>)"

lemma page_step_ok: "page_step N st st' \<Longrightarrow> page_ok N st \<Longrightarrow> page_ok N st'"
proof (induction rule: page_step.induct)
  case (served rq st st')
  then show ?case by (rule serve_page_ok)
next
  case (client st now)
  then show ?case by (simp add: page_ok_def in_step_def HTTPClient_ok)
next
  case (round_trip st p fails now e)
  then show ?case
    by (simp add: page_ok_def in_step_def outbound_ok_def pool_urls_def keeps_inv RoundTrip_def Let_def)
next
  case (dial st p fails now sticky)
  then show ?case by (simp add: page_ok_def in_step_def outbound_ok_def pool_urls_def keeps_inv)
qed


section \<open>A restart\<close>

lemma set_if_unset_foldl:
  "foldl set_if_unset env kvs k =
     (case env k of Some v \<Rightarrow> Some v | None \<Rightarrow> map_of (filter (\<lambda>kv. trim_space (snd kv) \<noteq> []) kvs) k)"
  by (induction kvs arbitrary: env) (auto simp: set_if_unset_def split: option.splits)

lemma getenv_startup:
  assumes "env k = None" and "map_of (startup_values s) k = Some v"
    and "distinct (map fst (startup_values s))"
  shows "getenv (ApplyStartupSettingsEnv s env) k = (if trim_space v = [] then [] else v)"
proof -
  have *: "map_of (filter (\<lambda>kv. trim_space (snd kv) \<noteq> []) kvs) k = (if trim_space v = [] then None else Some v)"
    if "map_of kvs k = Some v" "distinct (map fst kvs)" for kvs :: "(string \<times> string) list"
    using that
  proof (induction kvs)
    case (Cons kv kvs)
    then show ?case by (auto simp: map_of_eq_None_iff split: if_splits)
  qed simp
  show ?thesis
    using *[OF assms(2,3)] assms(1)
    by (simp add: getenv_def ApplyStartupSettingsEnv_def set_if_unset_foldl)
qed

lemma startup_values_lookup:
  "map_of (startup_values s) ''M365_PROXY_POOL'' = Some (str_join [CHR 0x0A] (ProxyPool s))"
  "map_of (startup_values s) ''M365_OUTBOUND_PROXY'' = Some (OutboundProxy s)"
  "distinct (map fst (startup_values s))"
  by (simp_all add: startup_values_def)

lemma startup_env:
  assumes "env ''M365_PROXY_POOL'' = None"
  shows "trim_space (getenv (ApplyStartupSettingsEnv s env) ''M365_PROXY_POOL'')
      = trim_space (str_join [CHR 0x0A] (ProxyPool s))"
  using getenv_startup [of env "''M365_PROXY_POOL''" s, OF assms startup_values_lookup(1,3)] by simp

lemma startup_env_proxy:
  assumes "env ''M365_OUTBOUND_PROXY'' = None"
  shows "New N (getenv (ApplyStartupSettingsEnv s env) ''M365_OUTBOUND_PROXY'') = New N (OutboundProxy s)"
proof -
  note g = getenv_startup [of env "''M365_OUTBOUND_PROXY''" s, OF assms startup_values_lookup(2,3)]
  show ?thesis
  proof (cases "trim_space (OutboundProxy s) = []")
    case True
    then have "New N (OutboundProxy s) = New N []" by (simp add: New_def)
    with True g show ?thesis by simp
  qed (simp add: g)
qed

text \<open>A proxy URL of visible ASCII characters without a comma.\<close>

definition clean_url :: "string \<Rightarrow> bool" where
  "clean_url u \<longleftrightarrow> u \<noteq> [] \<and> list_all (\<lambda>c. visible c \<and> c \<noteq> CHR '','') u"

lemma clean_url_fields: "clean_url u \<Longrightarrow> u \<noteq> [] \<and> list_all (\<lambda>c. \<not> is_pool_separator c) u"
proof -
  have "\<not> visible (CHR 0x0A)" "\<not> visible (CHR 0x0D)" by code_simp+
  then show "clean_url u \<Longrightarrow> u \<noteq> [] \<and> list_all (\<lambda>c. \<not> is_pool_separator c) u"
    by (auto simp: clean_url_def is_pool_separator_def list_all_iff)
qed

lemma clean_url_ends: "clean_url u \<Longrightarrow> visible (hd u) \<and> visible (last u)"
  by (auto simp: clean_url_def list_all_iff)

lemma trim_pool_join:
  assumes "us \<noteq> []" and "\<forall>u\<in>set us. clean_url u"
  shows "trim_space (str_join [CHR 0x0A] us) = str_join [CHR 0x0A] us"
proof -
  have ne: "\<forall>u\<in>set us. u \<noteq> []" using assms(2) by (auto simp: clean_url_def)
  have "clean_url (hd us)" "clean_url (last us)" using assms by auto
  then show ?thesis
    using str_join_ends [OF assms(1) ne, of "[CHR 0x0A]"] clean_url_ends
    by (intro trim_space_visible) auto
qed

lemma start_outbound_pool:
  assumes "env ''M365_PROXY_POOL'' = None" and "f (defaultRuntimeSettings env) = v"
    and "trim_space (str_join [CHR 0x0A] (ProxyPool v)) = p" and "p \<noteq> []"
  shows "start_outbound N env f =
     (case ConfigurePool N (fields_func is_pool_separator p) \<lparr>ob_clients = Direct, ob_pool = None\<rparr> of
        (e, o1) \<Rightarrow> (e, \<lparr>sp_settings = openSettingsStore env f, sp_outbound = o1\<rparr>))"
proof -
  have "set_v (openSettingsStore env f) = v" using assms(2) by (simp add: openSettingsStore_def)
  then show ?thesis
    unfolding start_outbound_def ConfigureFromEnv_def Let_def startup_env [of env, OF assms(1)]
    using assms(3,4) by simp
qed

lemma start_outbound_single:
  assumes "env ''M365_PROXY_POOL'' = None" and "env ''M365_OUTBOUND_PROXY'' = None"
    and "f (defaultRuntimeSettings env) = v" and "ProxyPool v = []" and "New N (OutboundProxy v) = Inr c"
  shows "start_outbound N env f =
     (None, \<lparr>sp_settings = openSettingsStore env f, sp_outbound = \<lparr>ob_clients = c, ob_pool = None\<rparr>\<rparr>)"
proof -
  have "set_v (openSettingsStore env f) = v" using assms(3) by (simp add: openSettingsStore_def)
  then show ?thesis
    unfolding start_outbound_def ConfigureFromEnv_def Let_def startup_env [of env, OF assms(1)]
      Configure_def startup_env_proxy [of env, OF assms(2)]
    using assms(4,5) by simp
qed


section \<open>Routing with accepted settings\<close>

lemma publicModelID_ascii: "publicModelID s \<Longrightarrow> ascii s"
  by (auto simp: publicModelID_def ascii_def model_id_char_def Let_def list_all_iff)

lemma to_lower_idem_ascii: "ascii s \<Longrightarrow> to_lower (to_lower s) = to_lower s"
  by (simp add: to_lower_ascii comp_def)

lemma find_unique:
  "m \<in> set ms \<Longrightarrow> distinct (map g ms) \<Longrightarrow> (\<And>x. x \<in> set ms \<Longrightarrow> P x \<longleftrightarrow> g x = g m) \<Longrightarrow> find P ms = Some m"
proof (induction ms)
  case (Cons a ms)
  show ?case
  proof (cases "P a")
    case True
    with Cons.prems have "a = m" by (auto intro: rev_image_eqI)
    with True show ?thesis by simp
  next
    case False
    with Cons.prems(3) [of a] have "a \<noteq> m" by auto
    with False Cons show ?thesis by simp
  qed
qed simp

lemma configured_lookup:
  assumes "settings_ok N cfg" and "m \<in> set (ModelMappings cfg)"
    and "to_lower (trim_space model) = public_name m"
  shows "configuredModelMapping model (ModelMappings cfg) = Some m"
proof -
  have asc: "ascii (trim_space (mm_PublicModel x))" if "x \<in> set (ModelMappings cfg)" for x
    using that assms(1) by (auto simp: settings_ok_def mapping_ok_def intro: publicModelID_ascii)
  have "find (\<lambda>x. equal_fold (trim_space (mm_PublicModel x)) (public_name m)) (ModelMappings cfg) = Some m"
    using assms(1,2) asc
    by (intro find_unique [where g = public_name])
       (auto simp: settings_ok_def public_name_def equal_fold_ascii)
  then show ?thesis by (simp add: configuredModelMapping_def assms(3))
qed

lemma default_level_ok:
  assumes "\<forall>m\<in>set mappings. mapping_ok m" and "spec \<in> set (configuredModelSpecs mappings)"
  shows "ms_DefaultReasoningLevel spec = []
      \<or> (\<exists>e. normalizeReasoningEffort (ms_DefaultReasoningLevel spec) = Some e \<and> e \<noteq> [])"
  using assms
proof (induction mappings rule: rev_induct)
  case Nil
  then show ?case by (auto simp: configuredModelSpecs_def gatewayModels_def gateway_model_def)
next
  case (snoc m ms)
  from snoc.prems(2) have "spec \<in> set (configuredModelSpecs ms) \<or> spec = mapping_spec m"
    using set_update_first_subset by (fastforce simp: configuredModelSpecs_snoc put_spec_def split: if_splits)
  then show ?case
  proof
    assume "spec = mapping_spec m"
    moreover have "mapping_ok m" using snoc.prems(1) by simp
    ultimately show ?thesis
      by (auto simp: mapping_spec_def mapping_ok_def normalizeReasoningEffort_def Let_def)
  qed (use snoc in auto)
qed

lemma known_tones_trimmed: "validUpstreamTone t \<Longrightarrow> validUpstreamTone (trim_space t)"
proof -
  have "list_all (\<lambda>t. trim_space t = t) knownUpstreamTones" by code_simp
  then show "validUpstreamTone t \<Longrightarrow> validUpstreamTone (trim_space t)"
    by (simp add: validUpstreamTone_mem list_all_iff)
qed

lemma get_catalog_entry:
  "get (catalog_entry l m) ''id'' = JStr (ms_ID m)" "get (catalog_entry l m) ''slug'' = JStr (ms_ID m)"
  "get (catalog_entry l m) ''default_reasoning_level'' = JStr (default_level m)"
  "get (catalog_entry l m) ''max_input_tokens'' = jint (ml_MaxInputTokens l)"
  "get (catalog_entry l m) ''max_output_tokens'' = jint (ml_MaxOutputTokens l)"
  "get (catalog_entry l m) ''context_window'' = jint (ml_ContextWindow l)"
  by (simp_all add: catalog_entry_def)

section \<open>Properties\<close>

text \<open>
  settings are accepted exactly when every number is within its range, every proxy URL can be
  used, and the model mappings are well-formed, have known tones and names that differ by more than
  case.
\<close>
theorem validateSettings_iff_ok: "validateSettings N v = Inr () \<longleftrightarrow> settings_ok N v"
  by (rule validateSettings_ok)

text \<open>
  after saves that all reported success the settings in force are the last ones saved, they satisfy
  the validator, and a restart of the process reads the same settings back.
\<close>
theorem settings_survive_restart:
  assumes "config.exec_all N ops (openSettingsStore env f) = (oks, s)" and "list_all (\<lambda>ok. ok) oks"
    and "ops \<noteq> []"
  shows "set_v s = fst (last ops) \<and> settings_ok N (set_v s)
    \<and> openSettingsStore env (settings_file s) = s"
proof -
  have "config.synced env (openSettingsStore env f)"
    unfolding config.synced_def by (simp add: openSettingsStore_def)
  from config.exec_all_synced [OF assms(1,2) this]
  have "settings_file s (defaultRuntimeSettings env) = set_v s" unfolding config.synced_def .
  moreover obtain s1 where "settings_exec N (last ops) s1 = (True, s)"
    using config.exec_all_last [OF assms] by blast
  then have "set_v s = fst (last ops) \<and> settings_ok N (set_v s)"
    by (auto simp: settings_exec_def dest!: save_settings_ok split: prod.splits)
  ultimately show ?thesis by (auto simp: openSettingsStore_def)
qed

text \<open>
  C31: the settings page changes everything or nothing: either the request succeeds, the new settings
  are valid and in force and the pool holds exactly their proxies, or the settings in force and the
  pool are what they were.
\<close>
theorem put_settings_all_or_nothing:
  assumes "put_settings N body out st = (reply, st')"
  shows "(reply = Done \<and> (\<exists>v. body = Some v \<and> settings_ok N v \<and> set_v (sp_settings st') = v
            \<and> pool_urls (sp_outbound st') = first_occurrences [] (ProxyPool v)))
       \<or> (reply \<noteq> Done \<and> set_v (sp_settings st') = set_v (sp_settings st)
            \<and> sp_outbound st' = sp_outbound st)"
proof (cases "reply = Done")
  case True
  with assms show ?thesis by (auto elim!: put_settings_done dest: pool_urls_ConfigurePool)
next
  case False
  have "reply = Done" if "body = Some v" "save_settings N v out (sp_settings st) = (None, s1)" for v s1
  proof -
    have "\<exists>o1. ConfigurePool N (ProxyPool v) (sp_outbound st) = (None, o1)"
      using save_settings_ok [OF that(2)] by (intro ConfigurePool_total) (simp add: settings_ok_def)
    with assms that show ?thesis by (auto simp: put_settings_def)
  qed
  with assms False show ?thesis
    by (auto simp: put_settings_def dest: save_settings_failed split: option.splits prod.splits)
qed


text \<open>
  a pool of proxies whose URLs are visible ASCII without a comma is restored by a restart: the
  saved setting travels through the environment to the outbound package.
\<close>
theorem pool_restored_at_start:
  assumes "settings_ok N v" and "ProxyPool v \<noteq> []" and "distinct (ProxyPool v)"
    and "\<forall>u\<in>set (ProxyPool v). clean_url u"
    and "settings_file s = (\<lambda>_. v)" and "env ''M365_PROXY_POOL'' = None"
  shows "fst (start_outbound N env (settings_file s)) = None
    \<and> pool_urls (sp_outbound (snd (start_outbound N env (settings_file s)))) = ProxyPool v"
proof -
  let ?us = "ProxyPool v"
  have trim: "trim_space (str_join [CHR 0x0A] ?us) = str_join [CHR 0x0A] ?us"
    using assms(2,4) by (rule trim_pool_join)
  have ne: "[] \<notin> set ?us" using assms(4) by (auto simp: clean_url_def)
  then have join: "str_join [CHR 0x0A] ?us \<noteq> []"
    using str_join_ends [of ?us "[CHR 0x0A]"] assms(2) by blast
  have fields: "fields_func is_pool_separator (str_join [CHR 0x0A] ?us) = ?us"
    using assms(4) clean_url_fields by (intro fields_func_join) (auto simp: is_pool_separator_def)
  obtain o1 where o1: "ConfigurePool N ?us \<lparr>ob_clients = Direct, ob_pool = None\<rparr> = (None, o1)"
    using ConfigurePool_total [of ?us N "\<lparr>ob_clients = Direct, ob_pool = None\<rparr>"] assms(1)
    by (auto simp: settings_ok_def)
  have "pool_urls o1 = ?us"
    using pool_urls_ConfigurePool [OF o1] first_occurrences_fresh [of "[]" ?us] assms(3) ne by simp
  moreover have "start_outbound N env (settings_file s)
      = (None, \<lparr>sp_settings = openSettingsStore env (settings_file s), sp_outbound = o1\<rparr>)"
    using start_outbound_pool [of env "settings_file s" v, OF assms(6) _ trim join] fields o1 assms(5)
    by simp
  ultimately show ?thesis by simp
qed

text \<open>
  a proxy URL with a comma, which the settings page accepts when it parses, stops the program at
  its next start when its two halves are not proxy URLs themselves.
\<close>
theorem comma_in_proxy_url_stops_the_start:
  assumes "settings_file s = (\<lambda>_. v)" and "env ''M365_PROXY_POOL'' = None"
    and "ProxyPool v = [a @ '','' @ b]" and "clean_url a" and "clean_url b" and "New N a = Inl e"
  shows "fst (start_outbound N env (settings_file s)) = Some (InPool a e)"
proof -
  let ?u = "a @ '','' @ b"
  have trim: "trim_space (str_join [CHR 0x0A] (ProxyPool v)) = ?u"
    using assms(3-5) clean_url_ends by (auto intro!: trim_space_visible simp: clean_url_def)
  have "fields_func is_pool_separator (str_join [CHR '',''] [a, b]) = [a, b]"
    using assms(4,5) clean_url_fields by (intro fields_func_join) (auto simp: is_pool_separator_def)
  then have "fields_func is_pool_separator ?u = [a, b]" by simp
  moreover have "a \<noteq> []" using assms(4) by (simp add: clean_url_def)
  ultimately show ?thesis
    using start_outbound_pool [of env "settings_file s" v, OF assms(2) _ trim] assms(1,6)
    by (simp add: ConfigurePool_def NewPool_def)
qed

text \<open>
  saving settings with an empty proxy pool takes the configured outbound proxy out of use: clients
  connect directly until the next start, although the same settings make the program start with
  that proxy.
\<close>
theorem saving_settings_bypasses_outbound_proxy:
  assumes "settings_ok N v" and "ProxyPool v = []" and "New N (OutboundProxy v) = Inr c" and "save_ok out"
    and "env ''M365_PROXY_POOL'' = None" and "env ''M365_OUTBOUND_PROXY'' = None"
  shows "fst (put_settings N (Some v) out st) = Done
    \<and> fst (HTTPClient now (sp_outbound (snd (put_settings N (Some v) out st)))) = Direct
    \<and> (let f = settings_file (sp_settings (snd (put_settings N (Some v) out st)))
       in fst (HTTPClient now (sp_outbound (snd (start_outbound N env f)))) = c)"
proof -
  have put: "put_settings N (Some v) out st =
      (Done, \<lparr>sp_settings = \<lparr>set_v = v, settings_file = (\<lambda>_. v)\<rparr>,
        sp_outbound = (sp_outbound st)\<lparr>ob_pool := Some \<lparr>entries = [], next_index = 0\<rparr>\<rparr>\<rparr>)"
    using assms(1,2,4)
    by (simp add: put_settings_def save_settings_succeeds ConfigurePool_def NewPool_def)
  show ?thesis
    using start_outbound_single [of env "\<lambda>_. v" v, OF assms(5,6) _ assms(2,3)]
    by (simp add: put HTTPClient_def pick_empty)
qed

text \<open>
  with accepted settings, a model that a mapping names, in any case and with spaces around it, is
  routed to the tone of that mapping for every reasoning effort the gateway knows, and an unknown
  effort is refused.
\<close>
theorem configured_model_is_routed:
  assumes "validateSettings N cfg = Inr ()" and "m \<in> set (ModelMappings cfg)"
    and "to_lower (trim_space model) = to_lower (trim_space (mm_PublicModel m))"
  shows "reasoningTone cfg model effort =
     (if normalizeReasoningEffort effort = None then None else Some (mm_UpstreamTone m))"
proof -
  have "configuredModelMapping model (ModelMappings cfg) = Some m"
    using configured_lookup [of N cfg m model] assms by (simp add: validateSettings_ok public_name_def)
  then show ?thesis by (auto simp: reasoningTone_def configuredModelTone_def)
qed

text \<open>
  with accepted settings every model is routed to a tone that is known up to white space around it
  or to the default \<open>magic\<close>, except gpt-5.3 with a deep effort, which is sent a tone the gateway
  itself does not know.
\<close>
theorem routed_tones_are_known:
  assumes "validateSettings N cfg = Inr ()" and "reasoningTone cfg model effort = Some t"
  shows "validUpstreamTone (trim_space t) \<or> t = ''magic''
    \<or> (t = ''Gpt_5_3_Reasoning'' \<and> to_lower (trim_space model) = ''gpt-5.3'')"
  using assms(2)
proof (cases rule: reasoningTone_cases)
  case mapped
  with assms(1) show ?thesis
    by (auto dest!: configuredModelTone_mem simp: validateSettings_ok settings_ok_def mapping_ok_def
        validUpstreamTone_mem)
qed (use modelTone_known deep_tone_known known_tones_trimmed in auto)

text \<open>
  the model catalog lists no model twice, names each entry's id as its slug, gives each a reasoning
  level the gateway accepts, and splits the context window into the input and the output limit.
\<close>
theorem catalog_is_consistent:
  assumes "validateSettings N cfg = Inr ()" and "ContextWindow cfg < 2 ^ 63"
  shows "distinct (map (\<lambda>e. fold_case (as_str (get e ''id''))) (modelCatalog cfg))
    \<and> (\<forall>e\<in>set (modelCatalog cfg). get e ''slug'' = get e ''id''
        \<and> normalizeReasoningEffort (as_str (get e ''default_reasoning_level'')) \<notin> {None, Some []}
        \<and> (\<exists>i out. get e ''max_input_tokens'' = jint i \<and> get e ''max_output_tokens'' = jint out
            \<and> get e ''context_window'' = jint (i + out) \<and> 0 < i \<and> 0 < out))"
proof -
  have ok: "settings_ok N cfg" using assms(1) by (simp add: validateSettings_ok)
  then have lim: "configuredModelLimits cfg = \<lparr>ml_ContextWindow = ContextWindow cfg,
      ml_MaxInputTokens = ContextWindow cfg - MaxOutputTokens cfg, ml_MaxOutputTokens = MaxOutputTokens cfg\<rparr>"
    using assms(2) by (auto simp: configuredModelLimits_def settings_ok_def Let_def wrap64_id)
  have level: "normalizeReasoningEffort (default_level spec) \<notin> {None, Some []}"
    if "spec \<in> set (configuredModelSpecs (ModelMappings cfg))" for spec
  proof -
    have "normalizeReasoningEffort ''medium'' = Some ''medium''" by code_simp
    with default_level_ok [OF _ that] ok show ?thesis
      by (auto simp: default_level_def settings_ok_def)
  qed
  have split: "\<exists>i out. jint (ContextWindow cfg - MaxOutputTokens cfg) = jint i
      \<and> jint (MaxOutputTokens cfg) = jint out \<and> jint (ContextWindow cfg) = jint (i + out) \<and> 0 < i \<and> 0 < out"
    using ok by (intro exI [of _ "ContextWindow cfg - MaxOutputTokens cfg"]
        exI [of _ "MaxOutputTokens cfg"]) (simp add: settings_ok_def)
  show ?thesis
    using configuredModelSpecs_unique [of "ModelMappings cfg"] level split
    by (simp add: modelCatalog_def lim get_catalog_entry unique_ids_def comp_def)
qed


section \<open>Examples\<close>

definition no_env :: environment where
  "no_env = (\<lambda>_. None)"

definition sample :: runtimeSettings where
  "sample = defaultRuntimeSettings no_env"

definition pooled :: runtimeSettings where
  "pooled = sample\<lparr>ProxyPool := [''http://a'', ''http://b'']\<rparr>"

lemma sample_valid: "validateSettings http_only sample = Inr ()"
  by code_simp

lemma pooled_valid: "validateSettings http_only pooled = Inr ()"
  by code_simp

lemma sample_ok: "settings_ok http_only sample" and pooled_ok: "settings_ok http_only pooled"
  using sample_valid pooled_valid by (simp_all add: validateSettings_ok)

lemma sample_fields:
  "ProxyPool sample = []" "OutboundProxy sample = []" "ContextWindow sample = 128000"
  "ModelMappings sample = defaultModelMappings" "ProxyPool pooled = [''http://a'', ''http://b'']"
  by code_simp+

lemma pooled_clean: "\<forall>u\<in>set (ProxyPool pooled). clean_url u"
  by code_simp

definition fresh_page :: settings_page where
  "fresh_page = \<lparr>sp_settings = openSettingsStore no_env (\<lambda>v. v),
     sp_outbound = \<lparr>ob_clients = Direct, ob_pool = None\<rparr>\<rparr>"

definition full_page :: settings_page where
  "full_page = snd (put_settings http_only (Some pooled) Saved fresh_page)"

lemma full_page_put: "put_settings http_only (Some pooled) Saved fresh_page = (Done, full_page)"
proof -
  obtain o1 where "ConfigurePool http_only (ProxyPool pooled) \<lparr>ob_clients = Direct, ob_pool = None\<rparr> = (None, o1)"
    using ConfigurePool_total [of "ProxyPool pooled" http_only "\<lparr>ob_clients = Direct, ob_pool = None\<rparr>"]
      pooled_ok by (auto simp: settings_ok_def)
  then show ?thesis
    by (simp add: full_page_def put_settings_def save_settings_succeeds pooled_ok fresh_page_def)
qed

theorem settings_survive_restart_witness:
  "openSettingsStore no_env (\<lambda>_. pooled) = \<lparr>set_v = pooled, settings_file = (\<lambda>_. pooled)\<rparr>"
proof -
  have "config.exec_all http_only [(sample, Saved), (pooled, Saved)] (openSettingsStore no_env (\<lambda>v. v))
      = ([True, True], \<lparr>set_v = pooled, settings_file = (\<lambda>_. pooled)\<rparr>)"
    by (simp add: config.exec_all.simps settings_exec_def save_settings_succeeds sample_ok pooled_ok)
  from settings_survive_restart [OF this] show ?thesis by simp
qed

theorem put_settings_all_or_nothing_witness:
  "pool_urls (sp_outbound full_page) = [''http://a'', ''http://b'']"
  using put_settings_all_or_nothing [OF full_page_put] by (simp add: sample_fields)


theorem pool_restored_at_start_witness:
  "pool_urls (sp_outbound (snd (start_outbound http_only no_env (\<lambda>_. pooled)))) = [''http://a'', ''http://b'']"
  using pool_restored_at_start [OF pooled_ok _ _ pooled_clean,
      of "\<lparr>set_v = pooled, settings_file = (\<lambda>_. pooled)\<rparr>" no_env]
  by (simp add: sample_fields no_env_def)

definition user_only :: netlib where
  "user_only = http_only\<lparr>url_parse := (\<lambda>s. if str_contains s ''@'' then Some (any_url s) else None)\<rparr>"

lemma user_only_half: "New user_only ''http://u:a'' = Inl IncompleteURL"
  by code_simp

lemma comma_clean: "clean_url ''http://u:a''" "clean_url ''b@h''"
  by code_simp+

theorem comma_in_proxy_url_stops_the_start_witness:
  "fst (start_outbound user_only no_env (\<lambda>_. sample\<lparr>ProxyPool := [''http://u:a,b@h'']\<rparr>))
     = Some (InPool ''http://u:a'' IncompleteURL)
   \<and> validateSettings user_only (sample\<lparr>ProxyPool := [''http://u:a,b@h'']\<rparr>) = Inr ()"
proof
  show "validateSettings user_only (sample\<lparr>ProxyPool := [''http://u:a,b@h'']\<rparr>) = Inr ()"
    by code_simp
  show "fst (start_outbound user_only no_env (\<lambda>_. sample\<lparr>ProxyPool := [''http://u:a,b@h'']\<rparr>))
     = Some (InPool ''http://u:a'' IncompleteURL)"
    using comma_in_proxy_url_stops_the_start [of
        "\<lparr>set_v = sample, settings_file = (\<lambda>_. sample\<lparr>ProxyPool := [''http://u:a,b@h'']\<rparr>)\<rparr>"
        "sample\<lparr>ProxyPool := [''http://u:a,b@h'']\<rparr>" no_env "''http://u:a''" "''b@h''" user_only,
        OF _ _ _ comma_clean user_only_half]
    by (simp add: no_env_def)
qed

lemma New_blank: "New N [] = Inr Direct"
  by (simp add: New_def)

definition proxied :: runtimeSettings where
  "proxied = sample\<lparr>OutboundProxy := ''p''\<rparr>"

lemma proxied_valid: "validateSettings http_only proxied = Inr ()" "New http_only ''p'' = Inr (ViaHTTP (any_url ''p''))"
  by code_simp+

theorem saving_settings_bypasses_outbound_proxy_witness:
  "fst (HTTPClient 0 (sp_outbound (snd (put_settings http_only (Some proxied) Saved fresh_page)))) = Direct"
  using saving_settings_bypasses_outbound_proxy [of http_only proxied "ViaHTTP (any_url ''p'')" Saved no_env
      fresh_page 0] proxied_valid
  by (simp add: validateSettings_ok proxied_def no_env_def sample_fields)

theorem configured_model_is_routed_witness:
  "reasoningTone sample '' GPT-5.6-Sol'' ''high'' = Some ''Gpt_5_6_Reasoning''"
proof -
  have "to_lower (trim_space '' GPT-5.6-Sol'') = to_lower (trim_space (mm_PublicModel (hd defaultModelMappings)))"
    and "normalizeReasoningEffort ''high'' \<noteq> None"
    by code_simp+
  then show ?thesis
    using configured_model_is_routed [OF sample_valid, of "hd defaultModelMappings" "'' GPT-5.6-Sol''" "''high''"]
    by (simp add: sample_fields defaultModelMappings_def)
qed

theorem routed_tones_are_known_witness:
  "reasoningTone sample ''gpt-5.3'' ''high'' = Some ''Gpt_5_3_Reasoning''
   \<and> \<not> validUpstreamTone ''Gpt_5_3_Reasoning'' \<and> validUpstreamTone ''Gpt_5_5_Reasoning''"
proof -
  have "reasoningTone sample ''gpt-5.5'' ''high'' = Some ''Gpt_5_5_Reasoning''" by code_simp
  moreover have "trim_space ''Gpt_5_5_Reasoning'' = ''Gpt_5_5_Reasoning''" by code_simp
  ultimately have "validUpstreamTone ''Gpt_5_5_Reasoning''"
    using routed_tones_are_known [OF sample_valid, of "''gpt-5.5''" "''high''"] by auto
  moreover have "reasoningTone sample ''gpt-5.3'' ''high'' = Some ''Gpt_5_3_Reasoning''" by code_simp
  moreover have "\<not> validUpstreamTone ''Gpt_5_3_Reasoning''" by code_simp
  ultimately show ?thesis by simp
qed

theorem catalog_is_consistent_witness:
  "distinct (map (\<lambda>e. fold_case (as_str (get e ''id''))) (modelCatalog sample))"
  using catalog_is_consistent [OF sample_valid] by (simp add: sample_fields)

end
