(* ===== verification/ChatHandler.thy ===== *)
theory ChatHandler
  imports ChatAccess Settings
begin

text \<open>
  \<open>openaiChat\<close> (src/internal/web/server.go), the handler of chat completions: it puts the parts of
  the other theories together.  A request passes the guards of \<open>prepare\<close>; then the router may
  select tool calls, in a turn of its own that is repaired once when its answer is not a decision
  and tried again when a call is required; a request that is not answered with calls is answered
  with the text of a turn, streamed (StreamGate) or not, unless calls are found in that text.

  After the branch for streaming requests the Go function tests \<open>body.Stream\<close> again, in code that no
  request reaches; it has no counterpart here.  The response writers of the standard library can
  flush, so that the test for one that cannot is left out as well.
\<close>

section \<open>Requests\<close>

record oaiReq =
  oq_Model :: string
  oq_ResponseFormat :: "string option"
  oq_Messages :: "oaiMsg list"
  oq_Stream :: bool
  oq_User :: string
  oq_AccountID :: string
  oq_ConversationID :: string
  oq_SessionID :: string
  oq_SessionKey :: string
  oq_Attachments :: "attachment list"
  oq_Tools :: "chathub_tool list"
  oq_Functions :: "string list"
  oq_ToolChoice :: json
  oq_FunctionCall :: json
  oq_Reasoning :: "(string \<times> string) option"
  oq_ReasoningEffort :: string

text \<open>The configuration a request sees: settings, environment, and the library parameters.\<close>

record gateway =
  gw_lib :: weblib
  gw_tokens :: tokenlib
  gw_settings :: runtimeSettings
  gw_env :: environment

definition lib :: "gateway \<Rightarrow> golib" where
  "lib G = base (gw_lib G)"

definition call_limit :: "gateway \<Rightarrow> int" where
  "call_limit G = configuredToolCallLimit (gw_env G ''M365_MAX_TOOL_CALLS_PER_TURN'')
     (MaxToolCallsPerTurn (gw_settings G))"

definition round_limit :: "gateway \<Rightarrow> int" where
  "round_limit G = maxToolRounds (gw_env G ''M365_MAX_TOOL_ROUNDS'') (MaxToolRounds (gw_settings G))"

datatype body_read = Unreadable | NotJSON | Body oaiReq

datatype refusal =
    MethodNotAllowed
  | ReadBody
  | BadBody
  | BadEffort
  | ToolProtocol tool_error
  | RoundLimit continue_error nat
  | MessagesRequired
  | NoAccount access_error
  | RouterFailed string
  | InvalidDecision
  | RequiredNotSelected
  | UpstreamFailed

fun refusal_status :: "refusal \<Rightarrow> nat" where
  "refusal_status MethodNotAllowed = 405"
| "refusal_status ReadBody = 400"
| "refusal_status BadBody = 400"
| "refusal_status BadEffort = 400"
| "refusal_status (ToolProtocol e) = 400"
| "refusal_status (RoundLimit e n) = 409"
| "refusal_status MessagesRequired = 400"
| "refusal_status (NoAccount e) = 400"
| "refusal_status (RouterFailed e) = 502"
| "refusal_status InvalidDecision = 502"
| "refusal_status RequiredNotSelected = 502"
| "refusal_status UpstreamFailed = 502"

definition normalizeLegacyTools :: "oaiReq \<Rightarrow> oaiReq" where
  "normalizeLegacyTools b0 =
     (let b = (if oq_Tools b0 = [] \<and> oq_Functions b0 \<noteq> []
            then b0\<lparr>oq_Tools := map (\<lambda>f. \<lparr>tool_Type = ''function'', tool_Function = f\<rparr>) (oq_Functions b0)\<rparr>
            else b0)
      in if oq_ToolChoice b = JNull \<and> oq_FunctionCall b \<noteq> JNull
         then b\<lparr>oq_ToolChoice := oq_FunctionCall b\<rparr> else b)"

definition request_effort :: "oaiReq \<Rightarrow> string" where
  "request_effort b =
     (case oq_Reasoning b of
        Some (effort, summary) \<Rightarrow> if trim_space effort \<noteq> [] then effort else oq_ReasoningEffort b
      | None \<Rightarrow> oq_ReasoningEffort b)"

text \<open>A function that is not a JSON object leaves the map nil, which is written as \<open>null\<close>.\<close>

definition tool_map :: "golib \<Rightarrow> chathub_tool \<Rightarrow> obj" where
  "tool_map L t =
     [(''type'', JStr (tool_Type t)),
      (''function'', case unmarshal L (tool_Function t) of Some (JObj f) \<Rightarrow> JObj f | _ \<Rightarrow> JNull)]"

record prepared =
  p_body :: oaiReq
  p_tone :: string
  p_ledger :: agentLedger
  p_prompt :: string
  p_account :: AccountToken
  p_tools :: "obj list"

section \<open>The guards\<close>

definition prepare_body ::
    "gateway \<Rightarrow> world \<Rightarrow> oaiReq \<Rightarrow> server \<Rightarrow> (refusal + prepared) \<times> server" where
  "prepare_body G w body0 s =
     (case reasoningTone (gw_settings G) (oq_Model body0) (request_effort body0) of
        None \<Rightarrow> (Inl BadEffort, s)
      | Some tone \<Rightarrow>
     (let body1 = normalizeLegacyTools body0 in
      case validateToolConversation (oq_Messages body1) of
        Inl e \<Rightarrow> (Inl (ToolProtocol e), s)
      | Inr _ \<Rightarrow>
     (let ledger = buildAgentLedger (lib G) (oq_Messages body1);
          active = buildAgentLedger (lib G) (activeMessages (oq_Messages body1))
      in case CanContinue active (round_limit G) of
        Inl e \<Rightarrow> (Inl (RoundLimit e (length (Completed active))), s)
      | Inr _ \<Rightarrow>
     (case flattenPromptMessages (lib G) (oq_Messages body1) (oq_Attachments body1) of (prompt0, atts) \<Rightarrow>
      let prompt = trim_space prompt0 in
      if prompt = [] then (Inl MessagesRequired, s)
      else
     (case join_session (oq_SessionKey body1)
        (oq_AccountID body1, oq_ConversationID body1, oq_SessionID body1) s of (aid, cid, sid) \<Rightarrow>
     (case pick_account (gw_tokens G) w (firstNonEmpty [aid, oq_User body1]) s of
        (Inl e, s1) \<Rightarrow> (Inl (NoAccount e), s1)
      | (Inr acc, s1) \<Rightarrow>
          let tools = map (tool_map (lib G)) (oq_Tools body1);
              body = body1\<lparr>oq_Attachments := atts, oq_AccountID := aid, oq_ConversationID := cid,
                oq_SessionID := sid,
                oq_ToolChoice := (if oq_ToolChoice body1 = JNull \<and> tools \<noteq> []
                  then JStr ''auto'' else oq_ToolChoice body1)\<rparr>
          in (Inr \<lparr>p_body = body, p_tone = tone, p_ledger = ledger, p_prompt = prompt,
                p_account = acc, p_tools = tools\<rparr>, s1)))))))"

definition prepare ::
    "gateway \<Rightarrow> world \<Rightarrow> string \<Rightarrow> body_read \<Rightarrow> server \<Rightarrow> (refusal + prepared) \<times> server" where
  "prepare G w http_method input s =
     (if http_method \<noteq> ''POST'' then (Inl MethodNotAllowed, s)
      else case input of
        Unreadable \<Rightarrow> (Inl ReadBody, s)
      | NotJSON \<Rightarrow> (Inl BadBody, s)
      | Body body \<Rightarrow> prepare_body G w body s)"

section \<open>Replies\<close>

text \<open>
  \<open>CallsReply model streamed calls res\<close>: \<open>streamed\<close> is \<open>None\<close> for a JSON body, else what was
  already sent and whether that counts as the preamble.
\<close>

datatype chat_reply =
    Rejected refusal
  | CallsReply string "(sse list \<times> bool) option" "detectedToolCall list" chat_result
  | StreamedText "sse list"
  | StreamBroken "sse list"
  | TextReply string chat_result json

definition response_model :: "oaiReq \<Rightarrow> string" where
  "response_model b = firstNonEmpty [oq_Model b, ''m365-copilot'']"

definition choice_none :: "gateway \<Rightarrow> prepared \<Rightarrow> bool" where
  "choice_none G p \<longleftrightarrow> go_sprint (lib G) (oq_ToolChoice (p_body p)) = ''none''"

text \<open>\<open>%v\<close> of a list of strings\<close>

definition sprint_strings :: "string list \<Rightarrow> string" where
  "sprint_strings ss = ''['' @ str_join '' '' ss @ '']''"

definition call_scope :: "prepared \<Rightarrow> string \<Rightarrow> string" where
  "call_scope p tag = itoa (int (length (oq_Messages (p_body p)))) @ '':''
     @ sprint_strings (completedCallIDs (p_ledger p)) @ tag"

definition rescope :: "golib \<Rightarrow> string \<Rightarrow> detectedToolCall list \<Rightarrow> detectedToolCall list" where
  "rescope L scope calls =
     map (\<lambda>(i, c). c\<lparr>dc_ID := scopedCallID L (dc_Name c) (dc_Arguments c) i scope\<rparr>) (enumerate 0 calls)"

definition issue_scoped :: "gateway \<Rightarrow> prepared \<Rightarrow> string \<Rightarrow> detectedToolCall list \<Rightarrow> detectedToolCall list" where
  "issue_scoped G p tag calls = issue_calls (rescope (lib G) (call_scope p tag) calls) (call_limit G)"

section \<open>Routing\<close>

definition decide :: "gateway \<Rightarrow> prepared \<Rightarrow> string \<Rightarrow> detectedToolCall list \<times> bool" where
  "decide G p t = parseModelToolDecision (lib G) t (p_tools p) (oq_ToolChoice (p_body p))"

definition route_request :: "gateway \<Rightarrow> prepared \<Rightarrow> chat_request" where
  "route_request G p = plain_request
     (modelToolRouterPrompt (lib G) (p_prompt p @ line_feed @ RouterContext (gw_lib G) (p_ledger p))
        (p_tools p) (oq_ToolChoice (p_body p))) (p_tone p) (oq_Attachments (p_body p))"

definition repair_request :: "prepared \<Rightarrow> bool \<Rightarrow> string \<Rightarrow> chat_request" where
  "repair_request p no_invention output =
     plain_request (repair_text no_invention output) (p_tone p) (oq_Attachments (p_body p))"

text \<open>A routing turn, repaired once: the calls, whether there was a decision, and the turn's result.\<close>

definition route ::
    "gateway \<Rightarrow> world \<Rightarrow> prepared \<Rightarrow> bool \<Rightarrow> (detectedToolCall list \<Rightarrow> detectedToolCall list) \<Rightarrow> server
      \<Rightarrow> (string + detectedToolCall list \<times> bool \<times> chat_result) \<times> server" where
  "route G w p no_invention keep s =
     (case Chat w (p_account p) (route_request G p) s of
        (Inl e, s1) \<Rightarrow> (Inl e, s1)
      | (Inr res, s1) \<Rightarrow>
          (case decide G p (res_Text res) of
             (calls, True) \<Rightarrow> (Inr (keep calls, True, res), s1)
           | (calls, False) \<Rightarrow>
               (case Chat w (p_account p) (repair_request p no_invention (res_Text res)) s1 of
                  (Inl e, s2) \<Rightarrow> (Inr (keep calls, False, res), s2)
                | (Inr res2, s2) \<Rightarrow>
                    (case decide G p (res_Text res2) of
                       (calls2, parsed2) \<Rightarrow> (Inr (keep calls2, parsed2, res), s2)))))"

section \<open>The streaming path\<close>

definition text_chunks :: "string \<Rightarrow> (nat \<Rightarrow> int) \<Rightarrow> string \<Rightarrow> string list \<Rightarrow> sse list" where
  "text_chunks cid created model parts =
     map (\<lambda>(i, part). Data (chunk cid (created i) model
        ([(''content'', JStr part)] @ (if i = 0 then [(''role'', JStr ''assistant'')] else [])) JNull))
       (enumerate 0 parts)"

definition stream_request :: "gateway \<Rightarrow> prepared \<Rightarrow> chat_request" where
  "stream_request G p =
     (let body = p_body p
      in \<lparr>cr_Text = stream_answer_text (gw_lib G) (p_prompt p) (p_ledger p), cr_Tone = p_tone p,
          cr_ConversationID = oq_ConversationID body, cr_SessionID = oq_SessionID body,
          cr_Attachments = oq_Attachments body, cr_Tools = oq_Tools body,
          cr_ToolChoice = oq_ToolChoice body\<rparr>)"

definition stream_answer :: "gateway \<Rightarrow> world \<Rightarrow> prepared \<Rightarrow> server \<Rightarrow> chat_reply \<times> server" where
  "stream_answer G w p s =
     (let body = p_body p;
          cid = ''chatcmpl-'' @ uuid w;
          model = response_model body;
          out = (\<lambda>parts. Comment ''connected'' # text_chunks cid (unix_clock w) model parts)
      in case chat_turn w (p_account p) (stream_request G p) s of ((evs, result), s1) \<Rightarrow>
         (let st = gate_run evs new_gate in
          case result of
            Inl e \<Rightarrow> (StreamBroken (out (sent st)), s1)
          | Inr res \<Rightarrow>
              (case stream_finish (lib G) (p_tools p) (oq_ToolChoice body) (call_limit G) (res_Text res) st of
                 (IssueCalls calls, st1) \<Rightarrow>
                   (CallsReply model (Some (out (sent st1), True)) calls (text_result (all_text st1)), s1)
               | (TextDone, st1) \<Rightarrow> (StreamedText (out (sent st1) @ [StreamDone]), s1))))"

definition stream_path :: "gateway \<Rightarrow> world \<Rightarrow> prepared \<Rightarrow> server \<Rightarrow> chat_reply \<times> server" where
  "stream_path G w p s =
     (if ToolPlanningMode (gw_settings G) = ''router'' \<and> p_tools p \<noteq> [] \<and> \<not> choice_none G p then
        (case route G w p False (\<lambda>calls. filterCompletedCalls (lib G) calls (p_ledger p)) s of
           (Inl e, s1) \<Rightarrow> (Rejected (RouterFailed e), s1)
         | (Inr (calls, parsed, res), s1) \<Rightarrow>
             if parsed \<and> calls \<noteq> [] then
               (CallsReply (response_model (p_body p)) (Some ([], False))
                  (issue_scoped G p '':stream'' calls) res,
                remember_session w (oq_SessionKey (p_body p)) (p_account p) res (p_prompt p) s1)
             else stream_answer G w p s1)
      else stream_answer G w p s)"

section \<open>The JSON path\<close>

text \<open>The router of the JSON path: \<open>Some\<close> is a reply, \<open>None\<close> lets the request go on.\<close>

definition required_retry :: "gateway \<Rightarrow> world \<Rightarrow> prepared \<Rightarrow> server \<Rightarrow> chat_reply \<times> server" where
  "required_retry G w p s =
     (case Chat w (p_account p) (plain_request
         (retry_text (gw_lib G) (p_prompt p) (p_ledger p) (p_tools p)) (p_tone p)
         (oq_Attachments (p_body p))) s of
        (Inl e, s1) \<Rightarrow> (Rejected RequiredNotSelected, s1)
      | (Inr res, s1) \<Rightarrow>
          (case decide G p (res_Text res) of (calls0, parsed) \<Rightarrow>
             let calls = filterCompletedCalls (lib G) calls0 (p_ledger p) in
             if parsed \<and> calls \<noteq> [] then
               (CallsReply (response_model (p_body p)) None (issue_scoped G p '':required-retry'' calls) res, s1)
             else (Rejected RequiredNotSelected, s1)))"

definition json_router :: "gateway \<Rightarrow> world \<Rightarrow> prepared \<Rightarrow> server \<Rightarrow> chat_reply option \<times> server" where
  "json_router G w p s =
     (if ToolPlanningMode (gw_settings G) = ''router'' \<and> p_tools p \<noteq> [] \<and> \<not> choice_none G p then
        (case route G w p True (\<lambda>calls. calls) s of
           (Inl e, s1) \<Rightarrow> (Some (Rejected (RouterFailed e)), s1)
         | (Inr (calls, parsed, res), s1) \<Rightarrow>
             if \<not> parsed then (Some (Rejected InvalidDecision), s1)
             else if calls \<noteq> [] then
               (Some (CallsReply (response_model (p_body p)) None (issue_scoped G p [] calls) res), s1)
             else if go_sprint (lib G) (oq_ToolChoice (p_body p)) = ''required'' then
               (case required_retry G w p s1 of (r, s2) \<Rightarrow> (Some r, s2))
             else (None, s1))
      else (None, s))"

text \<open>In native mode an answer without calls is put to the router once more.\<close>

definition native_recovery :: "gateway \<Rightarrow> world \<Rightarrow> prepared \<Rightarrow> string \<Rightarrow> server \<Rightarrow> chat_reply option \<times> server" where
  "native_recovery G w p model s =
     (if ToolPlanningMode (gw_settings G) = ''native'' \<and> p_tools p \<noteq> [] \<and> \<not> choice_none G p then
        (case route G w p False (\<lambda>calls. calls) s of
           (Inl e, s1) \<Rightarrow> (None, s1)
         | (Inr (calls, parsed, res), s1) \<Rightarrow>
             if parsed \<and> calls \<noteq> [] then
               (Some (CallsReply model None (issue_scoped G p '':native-recovery'' calls) res), s1)
             else (None, s1))
      else (None, s))"

definition unconfirmed :: string where
  "unconfirmed = ''I cannot confirm completion because no matching tool results were returned. No external action has been verified.''"

definition answer_content :: "chat_result \<Rightarrow> json" where
  "answer_content res =
     (if res_Images res = [] then JStr (res_Text res)
      else JArr (JObj [(''type'', JStr ''text''), (''text'', JStr (res_Text res))]
        # map (\<lambda>u. JObj [(''type'', JStr ''image_url''), (''image_url'', JObj [(''url'', JStr u)])])
            (res_Images res)))"

definition text_reply :: "prepared \<Rightarrow> string \<Rightarrow> chat_result \<Rightarrow> chat_reply" where
  "text_reply p model res0 =
     (let res1 = (if completionEvidenceAllows (res_Text res0) (p_ledger p) then res0
                  else res0\<lparr>res_Text := unconfirmed\<rparr>);
          res = (if oq_ResponseFormat (p_body p) \<in> {Some ''json_object'', Some ''json_schema''}
                 then res1\<lparr>res_Text := normalizeJSONText (res_Text res1)\<rparr> else res1)
      in TextReply model res (answer_content res))"

definition answer_request :: "gateway \<Rightarrow> prepared \<Rightarrow> chat_request" where
  "answer_request G p =
     (let body = p_body p; native = (ToolPlanningMode (gw_settings G) = ''native'')
      in \<lparr>cr_Text = answer_text (gw_lib G) (p_prompt p) (p_ledger p), cr_Tone = p_tone p,
          cr_ConversationID = oq_ConversationID body, cr_SessionID = oq_SessionID body,
          cr_Attachments = oq_Attachments body, cr_Tools = (if native then oq_Tools body else []),
          cr_ToolChoice = (if native then oq_ToolChoice body else JNull)\<rparr>)"

definition json_answer :: "gateway \<Rightarrow> world \<Rightarrow> prepared \<Rightarrow> server \<Rightarrow> chat_reply \<times> server" where
  "json_answer G w p s =
     (let body = p_body p
      in case Chat w (p_account p) (answer_request G p) s of
           (Inl e, s1) \<Rightarrow> (Rejected UpstreamFailed, s1)
         | (Inr res, s1) \<Rightarrow>
             (let s2 = remember_session w (oq_SessionKey body) (p_account p) res (p_prompt p) s1;
                  model = (if oq_Model body = [] then ''m365-copilot'' else oq_Model body);
                  fenced_calls = fencedToolCalls (lib G) (res_Text res) (p_tools p) (oq_ToolChoice body);
                  native_calls = nativeToolCalls (lib G) (res_Events res) (oq_Tools body)
              in if fenced_calls \<noteq> [] then
                   (CallsReply model None (issue_calls fenced_calls (call_limit G)) res, s2)
                 else if native_calls \<noteq> [] then
                   (CallsReply model None (issue_calls native_calls (call_limit G)) res, s2)
                 else (case native_recovery G w p model s2 of
                     (Some r, s3) \<Rightarrow> (r, s3)
                   | (None, s3) \<Rightarrow> (text_reply p model res, s3))))"

definition json_path :: "gateway \<Rightarrow> world \<Rightarrow> prepared \<Rightarrow> server \<Rightarrow> chat_reply \<times> server" where
  "json_path G w p s =
     (case json_router G w p s of
        (Some r, s1) \<Rightarrow> (r, s1)
      | (None, s1) \<Rightarrow> json_answer G w p s1)"

section \<open>The handler\<close>

definition openaiChat ::
    "gateway \<Rightarrow> world \<Rightarrow> string \<Rightarrow> body_read \<Rightarrow> server \<Rightarrow> chat_reply \<times> server" where
  "openaiChat G w http_method input s =
     (case prepare G w http_method input s of
        (Inl e, s1) \<Rightarrow> (Rejected e, s1)
      | (Inr p, s1) \<Rightarrow>
          if oq_Stream (p_body p) then stream_path G w p s1 else json_path G w p s1)"


section \<open>What is written\<close>

definition include_events :: "gateway \<Rightarrow> bool" where
  "include_events G = env_true (getenv (gw_env G) ''M365_INCLUDE_UPSTREAM_EVENTS'')"

definition completion_json :: "gateway \<Rightarrow> string \<Rightarrow> int \<Rightarrow> string \<Rightarrow> chat_result \<Rightarrow> json \<Rightarrow> obj" where
  "completion_json G cid created model res content =
     [(''id'', JStr cid), (''object'', JStr ''chat.completion''),
      (''created'', JNum (Finite (of_int created))), (''model'', JStr model),
      (''choices'', JArr [JObj [(''index'', jnat 0),
         (''message'', JObj [(''role'', JStr ''assistant''), (''content'', content)]),
         (''finish_reason'', JStr ''stop'')]]),
      (''m365'', JObj (compatM365Metadata (lib G) (include_events G) res))]"

text \<open>The body of a reply; a refusal has its status and the message of its error instead.\<close>

definition reply_id :: "world \<Rightarrow> string" where
  "reply_id w = ''chatcmpl-'' @ uuid w"

fun render :: "gateway \<Rightarrow> world \<Rightarrow> chat_reply \<Rightarrow> http_reply option" where
  "render G w (Rejected r) = None"
| "render G w (CallsReply model None calls res) =
     Some (writeToolResponse (lib G) (include_events G) (reply_id w) (unix_clock w) model False calls res False)"
| "render G w (CallsReply model (Some (before, preamble_sent)) calls res) =
     Some (case writeToolResponse (lib G) (include_events G) (reply_id w)
         (\<lambda>i. unix_clock w (length before + i)) model True calls res preamble_sent of
        EventStream es \<Rightarrow> EventStream (before @ es)
      | r \<Rightarrow> r)"
| "render G w (StreamedText es) = Some (EventStream es)"
| "render G w (StreamBroken es) = Some (EventStream es)"
| "render G w (TextReply model res content) =
     Some (JsonReply (completion_json G (reply_id w) (unix_clock w 0) model res content))"

end
