(* ===== verification/ChatExamples.thy ===== *)
theory ChatExamples
  imports ChatHandler
begin

text \<open>
  A gateway, a server with one account, and requests with one tool, on which the properties of
  \<open>openaiChat\<close> are tried: \<open>demo mode\<close> plans tools as \<open>mode\<close> says, and \<open>answers ts\<close> is a ChatHub
  whose turns answer with the texts \<open>ts\<close> in order.
\<close>

definition demo_lib :: golib where
  "demo_lib = \<lparr>marshal = (\<lambda>_. ''{}''),
     unmarshal = (\<lambda>s. if s = ''{ls}'' then Some (JObj [(''name'', JStr ''ls'')])
       else if s = ''{call}'' then
         Some (JObj [(''calls'', JArr [JObj [(''name'', JStr ''ls''), (''arguments'', JObj [])]])])
       else if s = ''{none}'' then Some (JObj [(''calls'', JArr [])])
       else None),
     sprint_composite = (\<lambda>_. ''map[]''), sha256_hex = (\<lambda>s. s)\<rparr>"

definition demo :: "string \<Rightarrow> gateway" where
  "demo mode = \<lparr>gw_lib = \<lparr>base = demo_lib, ledger_json = (\<lambda>_ _ _. ''{}'')\<rparr>,
     gw_tokens = \<lparr>decode_token = (\<lambda>_. None), decode_device = (\<lambda>_. None),
       base64_decode = (\<lambda>_. None), decode_claims = (\<lambda>_. None)\<rparr>,
     gw_settings = sample\<lparr>ToolPlanningMode := mode\<rparr>, gw_env = no_env\<rparr>"

definition answers :: "string list \<Rightarrow> world" where
  "answers ts = \<lparr>upstream = (\<lambda>i req. ([], if i < length ts
       then Inr ((text_result (ts ! i))\<lparr>res_ConversationID := ''c1'', res_SessionID := ''s1''\<rparr>)
       else Inl ''closed'')),
     token_refresh = (\<lambda>_. Inl BadResponse), client_id = [], time_stamp = [], clock = 1,
     unix_clock = (\<lambda>_. 0), uuid = ''u'', account_write = Saved, session_write = Saved\<rparr>"

definition ls_tool :: chathub_tool where
  "ls_tool = \<lparr>tool_Type = ''function'', tool_Function = ''{ls}''\<rparr>"

definition ask :: "bool \<Rightarrow> json \<Rightarrow> oaiMsg list \<Rightarrow> oaiReq" where
  "ask stream choice ms = \<lparr>oq_Model = [], oq_ResponseFormat = None, oq_Messages = ms, oq_Stream = stream,
     oq_User = [], oq_AccountID = [], oq_ConversationID = [], oq_SessionID = [], oq_SessionKey = ''k'',
     oq_Attachments = [], oq_Tools = [ls_tool], oq_Functions = [], oq_ToolChoice = choice,
     oq_FunctionCall = JNull, oq_Reasoning = None, oq_ReasoningEffort = []\<rparr>"

definition hello :: "oaiMsg list" where
  "hello = [\<lparr>Role = ''user'', Content = JStr ''hi'', Name = [], ToolCallID = [], ToolCalls = []\<rparr>]"

definition demo_account :: AccountToken where
  "demo_account = \<lparr>at_ID = ''a'', at_Email = [], at_DisplayName = [], at_Status = ''online'',
     at_AccessToken = ''T'', at_RefreshToken = [], at_ExpiresAt = 10000000000000, at_UpdatedAt = 0,
     at_OID = ''o'', at_TID = ''t'', at_ClientID = []\<rparr>"

definition demo_server :: server where
  "demo_server = \<lparr>sv_accounts = \<lparr>accounts = [demo_account], account_file = [demo_account]\<rparr>,
     sv_sessions = openSessionStore [], sv_turns = []\<rparr>"

text \<open>A conversation in which the model has called \<open>ls\<close> and has its result.\<close>

definition ls_done :: "oaiMsg list" where
  "ls_done = hello
     @ [\<lparr>Role = ''assistant'', Content = JNull, Name = [], ToolCallID = [],
          ToolCalls = [[(''id'', JStr ''c''), (''function'', JObj [(''name'', JStr ''ls''), (''arguments'', JStr ''{}'')])]]\<rparr>,
        \<lparr>Role = ''tool'', Content = JStr ''done'', Name = [], ToolCallID = ''c'', ToolCalls = []\<rparr>]"

definition run :: "string \<Rightarrow> string list \<Rightarrow> oaiReq \<Rightarrow> chat_reply \<times> server" where
  "run mode ts b = openaiChat (demo mode) (answers ts) ''POST'' (Body b) demo_server"

lemma run_eq: "openaiChat (demo mode) (answers ts) ''POST'' (Body b) demo_server = (fst (run mode ts b), snd (run mode ts b))"
  by (simp add: run_def)

definition demo_result :: "string \<Rightarrow> chat_result" where
  "demo_result t = (text_result t)\<lparr>res_ConversationID := ''c1'', res_SessionID := ''s1''\<rparr>"

lemma demo_fields [simp]:
  "oq_Stream (ask stream choice ms) = stream" "oq_SessionKey (ask stream choice ms) = ''k''"
  "oq_Messages (ask stream choice ms) = ms"
  "ToolPlanningMode (gw_settings (demo mode)) = mode" "sv_turns demo_server = []"
  "res_Text (demo_result t) = t" "res_ConversationID (demo_result t) = ''c1''" "res_SessionID (demo_result t) = ''s1''"
  "fst (upstream (answers ts) i req) = []" "snd (upstream (answers [t]) 0 req) = Inr (demo_result t)"
  by (simp_all add: ask_def demo_def demo_server_def demo_result_def text_result_def answers_def)

lemma run_calls:
  "fst (run ''router'' [''{call}''] (ask False JNull hello)) = CallsReply ''m365-copilot'' None
     [\<lparr>dc_ID = ''call_1:[]:0:ls:{}'', dc_Type = ''function'', dc_Name = ''ls'', dc_Arguments = ''{}''\<rparr>]
     (demo_result ''{call}'')"
  by code_simp

lemma run_text:
  "fst (run ''native'' [''fine''] (ask False JNull hello)) = TextReply ''m365-copilot'' (demo_result ''fine'') (JStr ''fine'')"
  by code_simp

lemma run_stream:
  "fst (run ''router'' [''{none}'', ''fine''] (ask True (JStr ''required'') hello)) =
     StreamedText [Comment ''connected'',
       Data (chunk ''chatcmpl-u'' 0 ''m365-copilot''
         [(''content'', JStr ''fine''), (''role'', JStr ''assistant'')] JNull), StreamDone]"
  by code_simp

lemma run_refused:
  "fst (run ''router'' [] (ask True JNull hello)) = Rejected (RouterFailed ''closed'')"
  by code_simp

end
