(* ===== verification/ProtocolRequests.thy ===== *)
theory ProtocolRequests
  imports ChatExamples
begin

text \<open>
  How a request of the Responses API and one of Anthropic's Messages API become a chat completion
  (src/internal/web/protocol_compat.go), and the progress notes of a client's tools that are
  accepted on the way but sent nowhere (tool_progress.go).
\<close>

section \<open>Progress notes\<close>

record toolProgress =
  tp_CallID :: string
  tp_Phase :: string
  tp_Message :: string
  tp_Output :: string
  tp_Done :: bool

definition parseToolProgress :: "obj \<Rightarrow> toolProgress option" where
  "parseToolProgress v =
     (if as_str (get v ''type'') \<noteq> ''function_call_progress'' then None
      else let p = \<lparr>tp_CallID = as_str (get v ''call_id''), tp_Phase = as_str (get v ''phase''),
                    tp_Message = as_str (get v ''message''), tp_Output = as_str (get v ''output''),
                    tp_Done = as_bool (get v ''done'')\<rparr>
           in if trim_space (tp_CallID p) = [] \<or> trim_space (tp_Message p) = [] then None else Some p)"

section \<open>Responses\<close>

record responsesRequest =
  rr_Model :: string
  rr_AccountID :: string
  rr_Instructions :: string
  rr_Input :: json
  rr_Tools :: "obj list"
  rr_ToolChoice :: json
  rr_Stream :: bool
  rr_User :: string
  rr_Reasoning :: "(string \<times> string) option"
  rr_PreviousResponseID :: string
  rr_Conversation :: string
  rr_NewConversation :: bool

definition zero_request :: oaiReq where
  "zero_request = \<lparr>oq_Model = [], oq_ResponseFormat = None, oq_Messages = [], oq_Stream = False,
     oq_User = [], oq_AccountID = [], oq_ConversationID = [], oq_SessionID = [], oq_SessionKey = [],
     oq_Attachments = [], oq_Tools = [], oq_Functions = [], oq_ToolChoice = JNull,
     oq_FunctionCall = JNull, oq_Reasoning = None, oq_ReasoningEffort = []\<rparr>"

definition text_message :: "string \<Rightarrow> json \<Rightarrow> oaiMsg" where
  "text_message role c = \<lparr>Role = role, Content = c, Name = [], ToolCallID = [], ToolCalls = []\<rparr>"

definition tool_message :: "string \<Rightarrow> json \<Rightarrow> oaiMsg" where
  "tool_message call c = \<lparr>Role = ''tool'', Content = c, Name = [], ToolCallID = call, ToolCalls = []\<rparr>"

definition call_message :: "obj list \<Rightarrow> oaiMsg" where
  "call_message calls = \<lparr>Role = ''assistant'', Content = JNull, Name = [], ToolCallID = [], ToolCalls = calls\<rparr>"

definition function_entry :: "json \<Rightarrow> string \<Rightarrow> json \<Rightarrow> string \<Rightarrow> obj" where
  "function_entry call typ name arguments =
     [(''id'', call), (''type'', JStr typ),
      (''function'', JObj [(''name'', name), (''arguments'', JStr arguments)])]"

datatype convert_error = InputRequired | BadProgress | BadInput | BadContent

text \<open>Arguments that are a string holding JSON are marshalled again.\<close>

definition rewritten_arguments :: "golib \<Rightarrow> json \<Rightarrow> string" where
  "rewritten_arguments L args =
     (case args of
        JStr s \<Rightarrow> (case unmarshal L s of Some x \<Rightarrow> marshal L x | None \<Rightarrow> marshal L args)
      | _ \<Rightarrow> marshal L args)"

definition input_item :: "golib \<Rightarrow> obj \<Rightarrow> convert_error + oaiMsg list" where
  "input_item L m =
     (let typ = as_str (get m ''type''); call = as_str (get m ''call_id''); name = as_str (get m ''name'')
      in if typ = ''function_call_progress'' then
           (case parseToolProgress m of None \<Rightarrow> Inl BadProgress | Some _ \<Rightarrow> Inr [])
         else if typ \<in> {''function_call_output'', ''custom_tool_call_output''} then
           Inr [tool_message call (get m ''output'')]
         else if typ = ''function_call'' then
           Inr [call_message [function_entry (JStr call) ''function'' (JStr name)
             (rewritten_arguments L (get m ''arguments''))]]
         else if typ = ''custom_tool_call'' then
           Inr [call_message [function_entry (JStr call) ''custom'' (JStr name)
             (marshal L (JObj [(''input'', JStr (as_str (get m ''input'')))]))]]
         else
           let role = (if as_str (get m ''role'') = [] then ''user'' else as_str (get m ''role''));
               content = (if get m ''content'' = JNull then JArr [JObj m] else get m ''content'')
           in Inr [text_message role content])"

fun input_items :: "golib \<Rightarrow> json list \<Rightarrow> convert_error + oaiMsg list" where
  "input_items L [] = Inr []"
| "input_items L (JObj m # xs) =
     (case input_item L m of
        Inl e \<Rightarrow> Inl e
      | Inr ms \<Rightarrow> (case input_items L xs of Inl e \<Rightarrow> Inl e | Inr ms' \<Rightarrow> Inr (ms @ ms')))"
| "input_items L (_ # xs) = input_items L xs"

definition input_messages :: "golib \<Rightarrow> json \<Rightarrow> convert_error + oaiMsg list" where
  "input_messages L v =
     (case v of
        JStr s \<Rightarrow> if s = [] then Inl InputRequired else Inr [text_message ''user'' (JStr s)]
      | JArr xs \<Rightarrow> input_items L xs
      | _ \<Rightarrow> Inl BadInput)"

definition customExecWorkspaceInstruction :: string where
  \<open>customExecWorkspaceInstruction =
     ''You are operating through the caller's local OpenCode execution bridge. ''
     @ ''Never use, request, or mention Microsoft 365/Copilot native tools. ''
     @ ''The only permitted execution tool is the caller-provided custom exec tool. ''
     @ ''The executor already starts in the caller-selected project workspace. ''
     @ ''Use relative paths only; never guess, cd to, or write under /root, /workspace, /tmp, ''
     @ ''or any other absolute project path. Inspect pwd and ls before changes. ''
     @ ''Do not create files outside the current working directory. ''
     @ ''Never claim a file was created, modified, or verified until custom exec returns a successful result. ''
     @ ''After every execution, use custom exec to verify the result.''\<close>

definition is_custom_exec :: "obj \<Rightarrow> bool" where
  "is_custom_exec t \<longleftrightarrow> as_str (get t ''type'') = ''custom'' \<and> as_str (get t ''name'') = ''exec''"

definition exec_parameters :: json where
  "exec_parameters = JObj
     [(''type'', JStr ''object''),
      (''properties'', JObj [(''input'', JObj [(''type'', JStr ''string'')])]),
      (''required'', JArr [JStr ''input'']), (''additionalProperties'', JBool False)]"

definition tool_of :: "golib \<Rightarrow> string \<Rightarrow> json \<Rightarrow> json \<Rightarrow> json \<Rightarrow> chathub_tool" where
  "tool_of L typ name description parameters =
     \<lparr>tool_Type = typ, tool_Function = marshal L
        (JObj [(''name'', name), (''description'', description), (''parameters'', parameters)])\<rparr>"

definition response_tool :: "golib \<Rightarrow> bool \<Rightarrow> obj \<Rightarrow> chathub_tool list" where
  "response_tool L exec_only t =
     (let typ = as_str (get t ''type'') in
      if exec_only \<and> \<not> is_custom_exec t then []
      else if is_custom_exec t then
        [tool_of L typ (get t ''name'') (get t ''description'') exec_parameters]
      else if typ \<noteq> ''function'' then []
      else [tool_of L typ (get t ''name'') (get t ''description'') (get t ''parameters'')])"

definition responses_openAI :: "golib \<Rightarrow> responsesRequest \<Rightarrow> convert_error + oaiReq" where
  "responses_openAI L r =
     (let instructions = trim_space (rr_Instructions r);
          system = (if instructions \<noteq> [] then [text_message ''system'' (JStr instructions)] else []);
          exec_only = list_ex is_custom_exec (rr_Tools r);
          bridge = (if exec_only then [text_message ''system'' (JStr customExecWorkspaceInstruction)] else [])
      in case input_messages L (rr_Input r) of
           Inl e \<Rightarrow> Inl e
         | Inr ms \<Rightarrow> Inr (zero_request\<lparr>oq_Model := rr_Model r, oq_AccountID := rr_AccountID r,
             oq_Stream := rr_Stream r, oq_ToolChoice := rr_ToolChoice r, oq_User := rr_User r,
             oq_Reasoning := rr_Reasoning r,
             oq_ReasoningEffort := (case rr_Reasoning r of None \<Rightarrow> [] | Some (effort, _) \<Rightarrow> effort),
             oq_Messages := bridge @ system @ ms,
             oq_Tools := concat (map (response_tool L exec_only) (rr_Tools r))\<rparr>))"

section \<open>Messages\<close>

record anthropicMessage =
  am_Role :: string
  am_Content :: json

record anthropicTool =
  an_Name :: string
  an_Description :: string
  an_InputSchema :: json

record anthropicRequest =
  ar_Model :: string
  ar_System :: json
  ar_Messages :: "anthropicMessage list"
  ar_Tools :: "anthropicTool list"
  ar_ToolChoice :: json
  ar_Stream :: bool
  ar_MaxTokens :: int

text \<open>A block adds to the text parts, to the calls, or is a tool result.\<close>

definition image_block :: "obj \<Rightarrow> json list" where
  "image_block b =
     (let source = as_obj (get b ''source'');
          data = as_str (get source ''data'');
          media0 = as_str (get source ''media_type'');
          media = (if media0 = [] then ''application/octet-stream'' else media0)
      in if data = [] then []
         else [JObj [(''type'', JStr ''input_image''),
                (''image_url'', JStr (''data:'' @ media @ '';base64,'' @ data))]])"

definition block_parts :: "obj \<Rightarrow> json list" where
  "block_parts b =
     (let typ = as_str (get b ''type'') in
      if typ = ''text'' then [JObj b] else if typ = ''image'' then image_block b else [])"

definition block_calls :: "golib \<Rightarrow> obj \<Rightarrow> obj list" where
  "block_calls L b =
     (if as_str (get b ''type'') = ''tool_use''
      then [function_entry (get b ''id'') ''function'' (get b ''name'') (marshal L (get b ''input''))]
      else [])"

definition block_results :: "obj \<Rightarrow> oaiMsg list" where
  "block_results b =
     (if as_str (get b ''type'') = ''tool_result''
      then [tool_message (as_str (get b ''tool_use_id'')) (get b ''content'')] else [])"

text \<open>A content without parts is a nil slice, which is written as \<open>null\<close>.\<close>

definition anthropic_message :: "golib \<Rightarrow> anthropicMessage \<Rightarrow> convert_error + oaiMsg list" where
  "anthropic_message L m =
     (case am_Content m of
        JStr s \<Rightarrow> Inr [text_message (am_Role m) (JStr s)]
      | JArr xs \<Rightarrow>
          let bs = parts_of xs;
              parts = concat (map block_parts bs);
              calls = concat (map (block_calls L) bs)
          in Inr (concat (map block_results bs)
               @ (if parts \<noteq> [] \<or> calls \<noteq> []
                  then [\<lparr>Role = am_Role m, Content = (if parts = [] then JNull else JArr parts), Name = [],
                         ToolCallID = [], ToolCalls = calls\<rparr>]
                  else []))
      | _ \<Rightarrow> Inl BadContent)"

fun anthropic_messages :: "golib \<Rightarrow> anthropicMessage list \<Rightarrow> convert_error + oaiMsg list" where
  "anthropic_messages L [] = Inr []"
| "anthropic_messages L (m # ms) =
     (case anthropic_message L m of
        Inl e \<Rightarrow> Inl e
      | Inr xs \<Rightarrow> (case anthropic_messages L ms of Inl e \<Rightarrow> Inl e | Inr ys \<Rightarrow> Inr (xs @ ys)))"

definition anthropic_choice :: "json \<Rightarrow> json" where
  "anthropic_choice v =
     (case v of
        JObj c \<Rightarrow>
          if get c ''type'' = JStr ''auto'' then JStr ''auto''
          else if get c ''type'' = JStr ''any'' then JStr ''required''
          else if get c ''type'' = JStr ''none'' then JStr ''none''
          else if get c ''type'' = JStr ''tool'' then
            JObj [(''type'', JStr ''function''), (''function'', JObj [(''name'', get c ''name'')])]
          else JNull
      | _ \<Rightarrow> JNull)"

definition anthropic_openAI :: "golib \<Rightarrow> anthropicRequest \<Rightarrow> convert_error + oaiReq" where
  "anthropic_openAI L r =
     (let system = (if ar_System r = JNull then [] else [text_message ''system'' (ar_System r)])
      in case anthropic_messages L (ar_Messages r) of
           Inl e \<Rightarrow> Inl e
         | Inr ms \<Rightarrow> Inr (zero_request\<lparr>oq_Model := ar_Model r, oq_Stream := ar_Stream r,
             oq_Messages := system @ ms,
             oq_Tools := map (\<lambda>t. tool_of L ''function'' (JStr (an_Name t)) (JStr (an_Description t))
               (an_InputSchema t)) (ar_Tools r),
             oq_ToolChoice := anthropic_choice (ar_ToolChoice r)\<rparr>))"

section \<open>What a conversion keeps\<close>

lemma message_fields [simp]:
  "Role (text_message r c) = r" "ToolCalls (text_message r c) = []" "ToolCallID (text_message r c) = []"
  "Role (tool_message i c) = ''tool''" "ToolCalls (tool_message i c) = []" "ToolCallID (tool_message i c) = i"
  "Role (call_message cs) = ''assistant''" "ToolCalls (call_message cs) = cs"
  "Content (call_message cs) = JNull"
  by (simp_all add: text_message_def tool_message_def call_message_def)

lemma call_id_entry [simp]: "call_id (function_entry c t n a) = as_str c"
  by (simp add: call_id_def function_entry_def)

lemma calls_of_append [simp]: "calls_of (xs @ ys) = calls_of xs @ calls_of ys"
  by (simp add: calls_of_def)

lemma results_of_append [simp]: "results_of (xs @ ys) = results_of xs @ results_of ys"
  by (simp add: results_of_def)

text \<open>The ids an input item issues and answers.\<close>

definition is_call_item :: "obj \<Rightarrow> bool" where
  "is_call_item m \<longleftrightarrow> as_str (get m ''type'') \<in> {''function_call'', ''custom_tool_call''}"

definition item_calls :: "obj \<Rightarrow> string list" where
  "item_calls m = (if is_call_item m then [as_str (get m ''call_id'')] else [])"

definition item_results :: "obj \<Rightarrow> string list" where
  "item_results m =
     (let typ = as_str (get m ''type'') in
      if typ \<in> {''function_call_output'', ''custom_tool_call_output''} then [as_str (get m ''call_id'')]
      else if \<not> is_call_item m \<and> typ \<noteq> ''function_call_progress'' \<and> as_str (get m ''role'') = ''tool'' then [[]]
      else [])"

lemma input_item_calls:
  "input_item L m = Inr ms \<Longrightarrow> calls_of ms = item_calls m \<and> results_of ms = item_results m"
  by (auto simp: input_item_def item_calls_def item_results_def is_call_item_def Let_def split: if_splits option.splits)

lemma input_items_ids:
  "input_items L xs = Inr ms \<Longrightarrow>
    calls_of ms = concat (map item_calls (parts_of xs)) \<and> results_of ms = concat (map item_results (parts_of xs))"
proof (induction L xs arbitrary: ms rule: input_items.induct)
  case (2 L m xs)
  then show ?case
    by (auto simp: parts_of_def dest!: input_item_calls split: sum.splits)
qed (auto simp: parts_of_def)

lemma input_items_append:
  "input_items L (xs @ ys) = (case input_items L xs of Inl e \<Rightarrow> Inl e
     | Inr a \<Rightarrow> (case input_items L ys of Inl e \<Rightarrow> Inl e | Inr b \<Rightarrow> Inr (a @ b)))"
  by (induction L xs rule: input_items.induct) (auto split: sum.splits)

lemma responses_messages:
  assumes "responses_openAI L r = Inr o'"
  obtains ms pre where "input_messages L (rr_Input r) = Inr ms" "oq_Messages o' = pre @ ms"
    "list_all (\<lambda>m. Role m = ''system'' \<and> ToolCalls m = []) pre"
  using assms by (auto simp: responses_openAI_def Let_def split: sum.splits if_splits)

lemma system_ids:
  "list_all (\<lambda>m. Role m = ''system'' \<and> ToolCalls m = []) pre \<Longrightarrow> calls_of pre = [] \<and> results_of pre = []"
  by (induction pre) auto

text \<open>Every message of the conversion is one of three kinds.\<close>

inductive message_kind :: "oaiMsg \<Rightarrow> bool" where
  kind_text: "message_kind (text_message r c)"
| kind_result: "message_kind (tool_message i c)"
| kind_call: "typ \<in> {''function'', ''custom''} \<Longrightarrow>
    message_kind (call_message [function_entry (JStr i) typ (JStr n) a])"

lemma input_item_kind: "input_item L m = Inr ms \<Longrightarrow> list_all message_kind ms"
  by (auto simp: input_item_def Let_def split: if_splits option.splits intro: message_kind.intros)

lemma input_items_kind: "input_items L xs = Inr ms \<Longrightarrow> list_all message_kind ms"
  by (induction L xs arbitrary: ms rule: input_items.induct)
    (auto dest!: input_item_kind split: sum.splits)

section \<open>Properties\<close>


text \<open>
  the Responses conversion keeps the calls: the converted conversation issues exactly the call ids
  of the input's call items, in order, and answers exactly those of its output items, in order.
\<close>
theorem responses_input_keeps_calls:
  assumes "responses_openAI L r = Inr o'" and "rr_Input r = JArr xs"
  shows "calls_of (oq_Messages o') = concat (map item_calls (parts_of xs))
    \<and> results_of (oq_Messages o') = concat (map item_results (parts_of xs))"
proof -
  from assms(1) obtain ms pre where "input_messages L (rr_Input r) = Inr ms" "oq_Messages o' = pre @ ms"
    "list_all (\<lambda>m. Role m = ''system'' \<and> ToolCalls m = []) pre" by (rule responses_messages)
  then show ?thesis using assms(2) input_items_ids [of L xs ms] system_ids [of pre]
    by (simp add: input_messages_def)
qed

lemma two_calls_out_of_order:
  assumes "Role a = ''assistant''" and "ToolCalls a = [x]" and "Role b = ''assistant''"
  shows "\<not> in_order (pre @ a # b # post)"
proof
  assume io: "in_order (pre @ a # b # post)"
  have split: "pre @ a # b # post = (pre @ [a]) @ b # post" by simp
  from io split have "set (calls_of (pre @ [a])) \<subseteq> set (results_of (pre @ [a]))"
    unfolding in_order_def using assms(3) by blast
  then have "call_id x \<in> set (results_of pre)" using assms by simp
  moreover have "in_order pre"
  proof -
    have d: "distinct (calls_of pre)" "[] \<notin> set (calls_of pre)" using io by (auto simp: in_order_def)
    have "(Role m = ''tool'' \<longrightarrow> ToolCallID m \<in> set (calls_of p) - set (results_of p)) \<and>
        (Role m = ''assistant'' \<longrightarrow> set (calls_of p) \<subseteq> set (results_of p))" if "pre = p @ m # q" for p m q
      using io that unfolding in_order_def by (metis append.assoc append_Cons)
    with d show ?thesis unfolding in_order_def by blast
  qed
  then have "set (results_of pre) \<subseteq> set (calls_of pre)" by (rule results_subset)
  ultimately show False using io assms by (auto simp: in_order_def)
qed

text \<open>
  C11: two calls next to each other in the input, the form in which the Responses API replays parallel
  calls, are refused: the conversion makes an assistant message of each, and the validator wants
  the first one answered before the second.
\<close>
theorem replayed_parallel_calls_are_refused:
  assumes "responses_openAI L r = Inr o'" and "rr_Input r = JArr (xs @ JObj a # JObj b # ys)"
    and "is_call_item a" and "is_call_item b"
  shows "validateToolConversation (oq_Messages o') \<noteq> Inr ()"
proof -
  from assms(1) obtain ms pre where ms: "input_messages L (rr_Input r) = Inr ms" "oq_Messages o' = pre @ ms"
    by (rule responses_messages)
  obtain ma ca where a: "input_item L a = Inr [ma]" "Role ma = ''assistant''" "ToolCalls ma = [ca]"
    using assms(3) by (auto simp: input_item_def is_call_item_def Let_def)
  obtain mb cb where b: "input_item L b = Inr [mb]" "Role mb = ''assistant''" "ToolCalls mb = [cb]"
    using assms(4) by (auto simp: input_item_def is_call_item_def Let_def)
  from ms(1) assms(2) a(1) b(1) obtain p q where "ms = p @ ma # mb # q"
    by (auto simp: input_messages_def input_items_append split: sum.splits)
  with ms(2) two_calls_out_of_order [OF a(2,3) b(2), of "pre @ p" q] show ?thesis
    by (simp add: validateToolConversation_ok balanced_def)
qed

text \<open>
  an assistant message that carries only calls, the form both conversions give to replayed calls,
  puts the text \<open><nil>\<close> into the prompt before the calls.
\<close>
theorem replayed_call_prompts_nil:
  "message_block L (call_message (c # cs)) =
     block ''assistant'' ''<nil>'' @ block ''assistant tool_calls'' (marshal L (JArr (map JObj (c # cs))))"
proof -
  have "trim_space ''<nil>'' = ''<nil>''" "trim_space ''assistant'' = ''assistant''"
    by (simp_all add: trim_space_visible visible_def)
  moreover have "to_lower ''assistant'' = ''assistant''" by code_simp
  ultimately show ?thesis
    by (simp add: message_block_def message_role_def parseContent_def call_message_def Let_def)
qed

text \<open>The ids a message's blocks use and answer.\<close>

definition message_blocks :: "anthropicMessage \<Rightarrow> obj list" where
  "message_blocks m = (case am_Content m of JArr xs \<Rightarrow> parts_of xs | _ \<Rightarrow> [])"

definition block_ids :: "string \<Rightarrow> string \<Rightarrow> anthropicMessage \<Rightarrow> string list" where
  "block_ids typ key m = map (\<lambda>b. as_str (get b key)) (filter (\<lambda>b. as_str (get b ''type'') = typ) (message_blocks m))"

lemma block_calls_ids:
  "map call_id (concat (map (block_calls L) bs)) =
     map (\<lambda>b. as_str (get b ''id'')) (filter (\<lambda>b. as_str (get b ''type'') = ''tool_use'') bs)"
  by (induction bs) (auto simp: block_calls_def)

lemma block_results_ids:
  "results_of (concat (map block_results bs)) =
     map (\<lambda>b. as_str (get b ''tool_use_id'')) (filter (\<lambda>b. as_str (get b ''type'') = ''tool_result'') bs)
   \<and> calls_of (concat (map block_results bs)) = []"
  by (induction bs) (auto simp: block_results_def)

lemma anthropic_message_ids:
  assumes "anthropic_message L m = Inr xs" and "am_Role m \<noteq> ''tool''"
  shows "calls_of xs = (if am_Role m = ''assistant'' then block_ids ''tool_use'' ''id'' m else [])"
    and "results_of xs = block_ids ''tool_result'' ''tool_use_id'' m"
  using assms block_calls_ids [of L "message_blocks m"] block_results_ids [of "message_blocks m"]
  by (auto simp: anthropic_message_def block_ids_def message_blocks_def Let_def
      simp del: concat_eq_Nil_conv split: json.splits if_splits)

lemma anthropic_messages_ids:
  "anthropic_messages L ms = Inr xs \<Longrightarrow> list_all (\<lambda>m. am_Role m \<noteq> ''tool'') ms \<Longrightarrow>
    calls_of xs = concat (map (\<lambda>m. if am_Role m = ''assistant'' then block_ids ''tool_use'' ''id'' m else []) ms)
    \<and> results_of xs = concat (map (block_ids ''tool_result'' ''tool_use_id'') ms)"
proof (induction ms arbitrary: xs)
  case (Cons m ms)
  then obtain a b where ab: "anthropic_message L m = Inr a" "anthropic_messages L ms = Inr b" "xs = a @ b"
    by (auto split: sum.splits)
  from Cons.prems(2) have m: "am_Role m \<noteq> ''tool''" by simp
  show ?case
    using Cons.IH [OF ab(2)] Cons.prems(2) anthropic_message_ids [OF ab(1) m] ab(3) by simp
qed simp

text \<open>
  the Messages conversion keeps the calls: for messages of users and assistants the converted
  conversation issues exactly the ids of the \<open>tool_use\<close> blocks of the assistant's messages, in order,
  and answers exactly those of the \<open>tool_result\<close> blocks.
\<close>
theorem messages_conversion_keeps_calls:
  assumes "anthropic_openAI L r = Inr o'"
    and "list_all (\<lambda>m. am_Role m \<in> {''user'', ''assistant''}) (ar_Messages r)"
  shows "calls_of (oq_Messages o') =
      concat (map (\<lambda>m. if am_Role m = ''assistant'' then block_ids ''tool_use'' ''id'' m else []) (ar_Messages r))
    \<and> results_of (oq_Messages o') = concat (map (block_ids ''tool_result'' ''tool_use_id'') (ar_Messages r))"
proof -
  from assms(1) obtain ms where ms: "anthropic_messages L (ar_Messages r) = Inr ms"
    and o': "oq_Messages o' = (if ar_System r = JNull then [] else [text_message ''system'' (ar_System r)]) @ ms"
    by (auto simp: anthropic_openAI_def Let_def split: sum.splits)
  have "list_all (\<lambda>m. am_Role m \<noteq> ''tool'') (ar_Messages r)"
    using assms(2) by (auto simp: list_all_iff)
  from anthropic_messages_ids [OF ms this] show ?thesis by (simp add: o')
qed

text \<open>
  an image of a Messages request is attached to the upstream turn twice, once as the direct URL of
  the converted part and once as its input image.
\<close>
theorem anthropic_image_attached_twice:
  assumes "as_str (get b ''type'') = ''image''" and "as_str (get (as_obj (get b ''source'')) ''data'') \<noteq> []"
  shows "\<exists>u. snd (parseContent L (JArr (block_parts b))) = [image_file u, image_file u]"
proof -
  let ?u = "''data:'' @ (if as_str (get (as_obj (get b ''source'')) ''media_type'') = [] then ''application/octet-stream''
      else as_str (get (as_obj (get b ''source'')) ''media_type'')) @ '';base64,''
      @ as_str (get (as_obj (get b ''source'')) ''data'')"
  have "trim_space ?u \<noteq> []" by (rule trim_space_nonempty) (simp_all add: visible_def)
  then have "stringValue [(''type'', JStr ''input_image''), (''image_url'', JStr ?u)] [''image_url'', ''url'', ''source''] = ?u"
    by (simp add: stringValue_def)
  moreover have "block_parts b = [JObj [(''type'', JStr ''input_image''), (''image_url'', JStr ?u)]]"
    using assms by (simp add: block_parts_def image_block_def Let_def)
  ultimately have "snd (parseContent L (JArr (block_parts b))) = [image_file ?u, image_file ?u]"
    by (simp add: parseContent_def parts_of_def part_files_def direct_image_def input_image_def Let_def)
  then show ?thesis by blast
qed

section \<open>Witnesses\<close>

definition call_input :: "string \<Rightarrow> obj" where
  "call_input i = [(''type'', JStr ''function_call''), (''call_id'', JStr i), (''name'', JStr ''ls''),
     (''arguments'', JStr ''{}'')]"

definition output_input :: "string \<Rightarrow> obj" where
  "output_input i = [(''type'', JStr ''function_call_output''), (''call_id'', JStr i), (''output'', JStr ''done'')]"

definition replay :: "json list \<Rightarrow> responsesRequest" where
  "replay xs = \<lparr>rr_Model = [], rr_AccountID = [], rr_Instructions = [], rr_Input = JArr xs,
     rr_Tools = [[(''type'', JStr ''function''), (''name'', JStr ''ls'')]], rr_ToolChoice = JNull,
     rr_Stream = False, rr_User = [], rr_Reasoning = None, rr_PreviousResponseID = [],
     rr_Conversation = [], rr_NewConversation = False\<rparr>"

definition two_calls :: "json list" where
  "two_calls = [JObj (call_input ''a''), JObj (call_input ''b''), JObj (output_input ''a''), JObj (output_input ''b'')]"

lemma two_calls_converted:
  "responses_openAI demo_lib (replay two_calls) = Inr (projr (responses_openAI demo_lib (replay two_calls)))"
  by code_simp


theorem replayed_parallel_calls_are_refused_witness:
  "validateToolConversation (oq_Messages (projr (responses_openAI demo_lib (replay two_calls)))) \<noteq> Inr ()"
proof (rule replayed_parallel_calls_are_refused [OF two_calls_converted])
  show "rr_Input (replay two_calls) = JArr ([] @ JObj (call_input ''a'') # JObj (call_input ''b'')
      # [JObj (output_input ''a''), JObj (output_input ''b'')])"
    by (simp add: replay_def two_calls_def)
  show "is_call_item (call_input ''a'')" "is_call_item (call_input ''b'')"
    by (simp_all add: is_call_item_def call_input_def)
qed

definition tool_chat :: anthropicRequest where
  "tool_chat = \<lparr>ar_Model = [], ar_System = JNull,
     ar_Messages = [\<lparr>am_Role = ''user'', am_Content = JStr ''list''\<rparr>,
       \<lparr>am_Role = ''assistant'', am_Content = JArr [JObj [(''type'', JStr ''tool_use''), (''id'', JStr ''t1''),
          (''name'', JStr ''ls''), (''input'', JObj [])]]\<rparr>,
       \<lparr>am_Role = ''user'', am_Content = JArr [JObj [(''type'', JStr ''tool_result''),
          (''tool_use_id'', JStr ''t1''), (''content'', JStr ''done'')]]\<rparr>],
     ar_Tools = [], ar_ToolChoice = JNull, ar_Stream = False, ar_MaxTokens = 0\<rparr>"

theorem messages_conversion_keeps_calls_witness:
  "calls_of (oq_Messages (projr (anthropic_openAI demo_lib tool_chat))) = [''t1'']
    \<and> results_of (oq_Messages (projr (anthropic_openAI demo_lib tool_chat))) = [''t1'']"
proof -
  have "anthropic_openAI demo_lib tool_chat = Inr (projr (anthropic_openAI demo_lib tool_chat))" by code_simp
  from messages_conversion_keeps_calls [OF this] show ?thesis
    by (simp add: tool_chat_def block_ids_def message_blocks_def parts_of_def)
qed

end
