(* ===== verification/TokenUsage.thy ===== *)
theory TokenUsage
  imports StreamGate ToolAnswer
begin

text \<open>
  The local estimate of token counts that Responses answers carry (src/internal/web/codex_usage.go).
  The tokenizer is a third-party package: \<open>gpt_encode\<close> is \<open>None\<close> when it cannot be loaded, and
  otherwise gives the number of tokens of a text, \<open>None\<close> where encoding fails.  \<open>tool_text\<close> is
  \<open>json.Marshal\<close> of a \<open>chathub.Tool\<close>.
\<close>

record usagelib =
  gpt_encode :: "(string \<Rightarrow> nat option) option"
  tool_text :: "chathub_tool \<Rightarrow> string"

section \<open>Counting\<close>

text \<open>
  ASCII runes and other runes, white space left out; the texts are valid UTF-8, so that a rune is
  its first byte and the continuation bytes after it.
\<close>

function count_runes :: "string \<Rightarrow> nat \<times> nat" where
  "count_runes [] = (0, 0)"
| "count_runes (c # s) =
     (if space_front (c # s) \<noteq> 0 then count_runes (drop (space_front (c # s)) (c # s))
      else if (of_char c :: nat) < 128 then (case count_runes s of (a, b) \<Rightarrow> (a + 1, b))
      else (case count_runes (dropWhile continuation_byte s) of (a, b) \<Rightarrow> (a, b + 1)))"
  by pat_completeness auto
termination
proof (relation "measure length")
  show "(dropWhile continuation_byte s, c # s) \<in> measure length" for c s
    using length_dropWhile_le [of continuation_byte s] by simp
qed auto

definition heuristicTokenCount :: "string \<Rightarrow> nat" where
  "heuristicTokenCount t =
     (case count_runes t of (plain, others) \<Rightarrow>
        if plain = 0 \<and> others = 0 then 0 else (plain + 3) div 4 + others)"

definition usageSourceTiktoken :: string where
  "usageSourceTiktoken = ''tiktoken_o200k_base_estimate''"

definition usageSourceHeuristic :: string where
  "usageSourceHeuristic = ''heuristic_character_estimate''"

definition tokenEstimator :: "usagelib \<Rightarrow> string \<Rightarrow> (string \<Rightarrow> nat) \<times> string" where
  "tokenEstimator U model =
     (case gpt_encode U of
        Some encode \<Rightarrow>
          if has_prefix (to_lower (trim_space model)) ''gpt-'' then
            (\<lambda>t. case encode t of Some n \<Rightarrow> n | None \<Rightarrow> heuristicTokenCount t, usageSourceTiktoken)
          else (heuristicTokenCount, usageSourceHeuristic)
      | None \<Rightarrow> (heuristicTokenCount, usageSourceHeuristic))"

definition serializedTokenCount :: "golib \<Rightarrow> json \<Rightarrow> (string \<Rightarrow> nat) \<Rightarrow> nat" where
  "serializedTokenCount L v cnt = (case v of JStr s \<Rightarrow> cnt s | _ \<Rightarrow> cnt (marshal L v))"

section \<open>The estimate\<close>

definition message_tokens :: "golib \<Rightarrow> (string \<Rightarrow> nat) \<Rightarrow> oaiMsg \<Rightarrow> nat" where
  "message_tokens L cnt m =
     4 + cnt (Role m) + serializedTokenCount L (Content m) cnt + cnt (Name m)
     + cnt (ToolCallID m) + sum_list (map (\<lambda>c. serializedTokenCount L (JObj c) cnt) (ToolCalls m))"

definition input_tokens ::
    "golib \<Rightarrow> usagelib \<Rightarrow> (string \<Rightarrow> nat) \<Rightarrow> oaiMsg list \<Rightarrow> chathub_tool list \<Rightarrow> json \<Rightarrow> nat" where
  "input_tokens L U cnt ms tools choice =
     4 + 3 + sum_list (map (message_tokens L cnt) ms)
     + sum_list (map (\<lambda>t. 6 + cnt (tool_text U t)) tools)
     + (if choice = JNull then 0 else 2 + serializedTokenCount L choice cnt)"

definition output_tokens :: "(string \<Rightarrow> nat) \<Rightarrow> string \<Rightarrow> nat" where
  "output_tokens cnt output = cnt output + (if output = [] then 0 else 3)"

definition estimateResponsesUsage ::
    "golib \<Rightarrow> usagelib \<Rightarrow> string \<Rightarrow> oaiMsg list \<Rightarrow> chathub_tool list \<Rightarrow> json \<Rightarrow> string \<Rightarrow> obj \<times> string" where
  "estimateResponsesUsage L U model ms tools choice output =
     (case tokenEstimator U model of (cnt, source) \<Rightarrow>
        let i = input_tokens L U cnt ms tools choice; n = output_tokens cnt output
        in ([(''input_tokens'', jnat i), (''output_tokens'', jnat n), (''total_tokens'', jnat (i + n))], source))"

definition localUsageMetadata :: "string \<Rightarrow> obj" where
  "localUsageMetadata source =
     [(''usage_source'', JStr source), (''usage_values_are_estimates'', JBool True),
      (''usage_estimate_scope'', JStr ''visible_request_and_completion''),
      (''usage_includes'', JArr (map JStr [''message_content'', ''message_framing'', ''tool_schemas'',
         ''tool_choice'', ''tool_calls'', ''completion_framing'']))]"

section \<open>Properties\<close>

lemma count_runes_le: "fst (count_runes s) + snd (count_runes s) \<le> length s"
proof (induction s rule: count_runes.induct)
  case (2 c s)
  show ?case
  proof (cases "space_front (c # s) \<noteq> 0")
    case True
    with 2(1) show ?thesis by simp
  next
    case False
    then show ?thesis
      using 2(2,3) length_dropWhile_le [of continuation_byte s] by (auto split: prod.split)
  qed
qed simp

text \<open>
  the heuristic never counts more tokens than the text has bytes, and counts one unless all of the
  text is white space.
\<close>
theorem heuristic_bounds:
  "heuristicTokenCount t \<le> length t \<and> (heuristicTokenCount t = 0 \<longleftrightarrow> count_runes t = (0, 0))"
  using count_runes_le [of t] by (cases "count_runes t") (auto simp: heuristicTokenCount_def)

end
