(* ===== verification/ProtocolResponses.thy ===== *)
theory ProtocolResponses
  imports ProtocolRequests TokenUsage
begin

text \<open>
  How the JSON body of a chat completion becomes an answer of the Messages API
  (src/internal/web/protocol_response.go) or of the Responses API (codex_responses.go), as one body
  or as named server-sent events, and the error bodies of protocol_errors.go.

  \<open>fresh i\<close> is the \<open>i\<close>-th random id a function draws.
\<close>

section \<open>Reading a chat completion\<close>

text \<open>The message, \<open>None\<close> where the code has a nil map, and the reason it finished.\<close>

definition openAIChoice :: "obj \<Rightarrow> obj option \<times> string" where
  "openAIChoice v =
     (case as_arr (get v ''choices'') of
        [] \<Rightarrow> (None, [])
      | c # _ \<Rightarrow> (is_obj (get (as_obj c) ''message''), as_str (get (as_obj c) ''finish_reason'')))"

definition choice_message :: "obj \<Rightarrow> obj" where
  "choice_message v = (case fst (openAIChoice v) of None \<Rightarrow> [] | Some m \<Rightarrow> m)"

definition call_fn :: "json \<Rightarrow> obj" where
  "call_fn tc = as_obj (get (as_obj tc) ''function'')"

definition responsesOutputHasContent :: "obj \<Rightarrow> bool" where
  "responsesOutputHasContent src =
     (case fst (openAIChoice src) of
        None \<Rightarrow> False
      | Some m \<Rightarrow> as_arr (get m ''tool_calls'') \<noteq> [] \<or> trim_space (as_str (get m ''content'')) \<noteq> [])"

section \<open>Errors\<close>

definition errorMessage :: "golib \<Rightarrow> string \<Rightarrow> string \<Rightarrow> string" where
  "errorMessage L bytes fallback =
     (let found = (case unmarshal L bytes of
            Some (JObj v) \<Rightarrow> (case get v ''error'' of
                JObj e \<Rightarrow> as_str (get e ''message'')
              | _ \<Rightarrow> [])
          | _ \<Rightarrow> [])
      in if found \<noteq> [] then found
         else if trim_space bytes \<noteq> [] then trim_space bytes else fallback)"

definition writeOpenAIError :: "string \<Rightarrow> string \<Rightarrow> obj" where
  "writeOpenAIError typ msg = [(''error'', JObj [(''message'', JStr msg), (''type'', JStr typ)])]"

definition writeAnthropicError :: "string \<Rightarrow> string \<Rightarrow> obj" where
  "writeAnthropicError typ msg =
     [(''type'', JStr ''error''), (''error'', JObj [(''type'', JStr typ), (''message'', JStr msg)])]"

section \<open>Messages\<close>

type_synonym event = "string \<times> obj"

text \<open>An event whose name is also its type.\<close>

definition event :: "string \<Rightarrow> obj \<Rightarrow> event" where
  "event name rest = (name, (''type'', JStr name) # rest)"

datatype wire_reply = WireBody obj | WireEvents "event list" | WireError nat obj

definition tool_use_block :: "golib \<Rightarrow> json \<Rightarrow> json" where
  "tool_use_block L tc =
     (let fn = call_fn tc;
          input = (case get fn ''arguments'' of
              JStr a \<Rightarrow> (case unmarshal L a of Some v \<Rightarrow> v | None \<Rightarrow> JObj [])
            | _ \<Rightarrow> JObj [])
      in JObj [(''type'', JStr ''tool_use''), (''id'', get (as_obj tc) ''id''), (''name'', get fn ''name''),
           (''input'', input)])"

definition anthropic_blocks :: "golib \<Rightarrow> obj \<Rightarrow> json list \<times> string" where
  "anthropic_blocks L msg =
     (case get msg ''tool_calls'' of
        JArr calls \<Rightarrow> (map (tool_use_block L) calls, ''tool_use'')
      | _ \<Rightarrow> ([JObj [(''type'', JStr ''text''), (''text'', JStr (go_sprint L (get msg ''content'')))]],
              ''end_turn''))"

definition no_usage :: json where
  "no_usage = JObj [(''input_tokens'', jnat 0), (''output_tokens'', jnat 0)]"

definition anthropic_body :: "string \<Rightarrow> string \<Rightarrow> json list \<Rightarrow> string \<Rightarrow> obj" where
  "anthropic_body i model blocks stop =
     [(''id'', JStr i), (''type'', JStr ''message''), (''role'', JStr ''assistant''), (''model'', JStr model),
      (''content'', JArr blocks), (''stop_reason'', JStr stop), (''stop_sequence'', JNull),
      (''usage'', no_usage),
      (''m365'', JObj [(''usage_source'', JStr ''unavailable_from_chathub''),
         (''usage_values_are_placeholders'', JBool True)])]"

definition block_events :: "golib \<Rightarrow> nat \<Rightarrow> json \<Rightarrow> event list" where
  "block_events L i b =
     (let m = as_obj b;
          is_use = (get m ''type'' = JStr ''tool_use'');
          start = (if is_use then JObj [(''type'', JStr ''tool_use''), (''id'', get m ''id''),
              (''name'', get m ''name''), (''input'', JObj [])] else b);
          delta = (\<lambda>d. event ''content_block_delta'' [(''index'', jnat i), (''delta'', JObj d)])
      in [event ''content_block_start'' [(''index'', jnat i), (''content_block'', start)]]
         @ (if get m ''type'' = JStr ''text''
            then [delta [(''type'', JStr ''text_delta''), (''text'', get m ''text'')]]
            else if is_use
            then [delta [(''type'', JStr ''input_json_delta''), (''partial_json'', JStr (marshal L (get m ''input'')))]]
            else [])
         @ [event ''content_block_stop'' [(''index'', jnat i)]])"

definition anthropic_events :: "golib \<Rightarrow> string \<Rightarrow> string \<Rightarrow> json list \<Rightarrow> string \<Rightarrow> event list" where
  "anthropic_events L i model blocks stop =
     [event ''message_start'' [(''message'', JObj [(''id'', JStr i), (''type'', JStr ''message''),
        (''role'', JStr ''assistant''), (''model'', JStr model), (''content'', JArr []),
        (''stop_reason'', JNull), (''usage'', no_usage)])]]
     @ concat (map (\<lambda>(k, b). block_events L k b) (enumerate 0 blocks))
     @ [event ''message_delta'' [(''delta'', JObj [(''stop_reason'', JStr stop), (''stop_sequence'', JNull)]),
          (''usage'', JObj [(''output_tokens'', jnat 0)])],
        event ''message_stop'' []]"

definition writeAnthropicResult ::
    "golib \<Rightarrow> (nat \<Rightarrow> string) \<Rightarrow> string \<Rightarrow> bool \<Rightarrow> obj \<Rightarrow> wire_reply" where
  "writeAnthropicResult L fresh model stream src =
     (let i = ''msg_'' @ fresh 0 in
      case anthropic_blocks L (choice_message src) of (blocks, stop) \<Rightarrow>
        if stream then WireEvents (anthropic_events L i model blocks stop)
        else WireBody (anthropic_body i model blocks stop))"

section \<open>Responses\<close>

definition customToolInput :: "golib \<Rightarrow> json \<Rightarrow> string" where
  "customToolInput L v =
     (case v of
        JStr s \<Rightarrow> (case unmarshal L s of
            Some (JObj m) \<Rightarrow> (case decode_string (struct_field m ''input'') of Some t \<Rightarrow> t | None \<Rightarrow> [])
          | _ \<Rightarrow> [])
      | _ \<Rightarrow> [])"

definition message_item :: "string \<Rightarrow> string \<Rightarrow> json" where
  "message_item i t = JObj [(''type'', JStr ''message''), (''id'', JStr (''msg_'' @ i)),
     (''role'', JStr ''assistant''), (''status'', JStr ''completed''),
     (''content'', JArr [JObj [(''type'', JStr ''output_text''), (''text'', JStr t), (''annotations'', JArr [])]])]"

definition call_item :: "golib \<Rightarrow> string \<Rightarrow> json \<Rightarrow> json" where
  "call_item L i tc =
     (let m = as_obj tc; fn = call_fn tc in
      if get m ''type'' = JStr ''custom'' then
        JObj [(''type'', JStr ''custom_tool_call''), (''id'', JStr (''ctc_'' @ i)), (''call_id'', get m ''id''),
          (''name'', get fn ''name''), (''input'', JStr (customToolInput L (get fn ''arguments''))),
          (''status'', JStr ''completed'')]
      else
        JObj [(''type'', JStr ''function_call''), (''id'', JStr (''fc_'' @ i)), (''call_id'', get m ''id''),
          (''name'', get fn ''name''), (''arguments'', get fn ''arguments''), (''status'', JStr ''completed'')])"

definition responses_output :: "golib \<Rightarrow> (nat \<Rightarrow> string) \<Rightarrow> obj \<Rightarrow> json list" where
  "responses_output L fresh msg =
     (case get msg ''tool_calls'' of
        JArr calls \<Rightarrow>
          (if calls = [] then [] else [message_item (fresh 1) (toolPlanSummaryFromMaps L calls)])
          @ map (\<lambda>(k, tc). call_item L (fresh k) tc) (enumerate 2 calls)
      | _ \<Rightarrow> [message_item (fresh 1) (as_str (get msg ''content''))])"

definition responses_usage :: "golib \<Rightarrow> usagelib \<Rightarrow> string \<Rightarrow> obj \<Rightarrow> json \<times> string" where
  "responses_usage L U model src =
     (case (case get src ''usage'' of
          JObj u \<Rightarrow> (JObj u, as_str (get src ''m365_usage_source''))
        | _ \<Rightarrow> (case estimateResponsesUsage L U model [] [] JNull
              (go_sprint L (get (choice_message src) ''content'')) of (v, source) \<Rightarrow> (JObj v, source))) of
        (u, source) \<Rightarrow> (u, if source = [] then usageSourceHeuristic else source))"

definition item_events :: "nat \<Rightarrow> json \<Rightarrow> event list" where
  "item_events i item =
     (let m = as_obj item;
          ev = (\<lambda>name rest. event name ((''output_index'', jnat i) # rest));
          added = (if get m ''type'' = JStr ''function_call''
            then JObj (map (\<lambda>(k, v). (k, if k = ''arguments'' then JStr []
              else if k = ''status'' then JStr ''in_progress'' else v)) m)
            else item)
      in [ev ''response.output_item.added'' [(''item'', added)]]
         @ (if get m ''type'' = JStr ''message'' then
              (case as_arr (get m ''content'') of
                 [] \<Rightarrow> []
               | c # _ \<Rightarrow> [ev ''response.output_text.delta'' [(''content_index'', jnat 0),
                   (''delta'', get (as_obj c) ''text'')]])
            else if get m ''type'' = JStr ''function_call'' then
              [ev ''response.function_call_arguments.delta'' [(''item_id'', get m ''id''),
                 (''delta'', JStr (as_str (get m ''arguments'')))],
               ev ''response.function_call_arguments.done'' [(''item_id'', get m ''id''),
                 (''arguments'', JStr (as_str (get m ''arguments'')))]]
            else if get m ''type'' = JStr ''custom_tool_call'' then
              [ev ''response.custom_tool_call_input.delta'' [(''item_id'', get m ''id''),
                 (''delta'', JStr (as_str (get m ''input'')))],
               ev ''response.custom_tool_call_input.done'' [(''item_id'', get m ''id''),
                 (''input'', JStr (as_str (get m ''input'')))]]
            else [])
         @ [ev ''response.output_item.done'' [(''item'', item)]])"

definition response_created :: "string \<Rightarrow> string \<Rightarrow> event" where
  "response_created i model = event ''response.created''
     [(''response'', JObj [(''id'', JStr i), (''object'', JStr ''response''), (''status'', JStr ''in_progress''),
        (''model'', JStr model), (''output'', JArr [])])]"

text \<open>An output without items is a nil slice, written as \<open>null\<close>.\<close>

definition response_object ::
    "string \<Rightarrow> int \<Rightarrow> string \<Rightarrow> json list \<Rightarrow> json \<Rightarrow> string \<Rightarrow> obj" where
  "response_object i created model output usage source =
     [(''id'', JStr i), (''object'', JStr ''response''), (''created_at'', JNum (Finite (of_int created))),
      (''status'', JStr ''completed''), (''model'', JStr model),
      (''output'', if output = [] then JNull else JArr output),
      (''usage'', usage), (''m365'', JObj (localUsageMetadata source))]"

definition writeResponsesResult ::
    "golib \<Rightarrow> usagelib \<Rightarrow> (nat \<Rightarrow> string) \<Rightarrow> int \<Rightarrow> string \<Rightarrow> bool \<Rightarrow> obj \<Rightarrow> wire_reply" where
  "writeResponsesResult L U fresh created model stream src =
     (let i = firstNonEmpty [go_sprint L (get src ''m365_response_id''), ''resp_'' @ fresh 0];
          output = responses_output L fresh (choice_message src)
      in case responses_usage L U model src of (usage, source) \<Rightarrow>
         (let resp = response_object i created model output usage source
          in if stream then WireEvents ([response_created i model]
                 @ concat (map (\<lambda>(k, item). item_events k item) (enumerate 0 output))
                 @ [event ''response.completed'' [(''response'', JObj resp)]])
             else WireBody resp))"

section \<open>Facts about calls on the wire\<close>

lemma choice_message_json:
  "choice_message (tool_json L ie cid model calls res) =
     [(''role'', JStr ''assistant''), (''content'', JStr (toolPlanSummary L calls)),
      (''reasoning_content'', JStr (toolPlanSummary L calls)), (''tool_calls'', JArr (toolCallMaps calls))]"
  by (simp add: choice_message_def openAIChoice_def tool_json_def Let_def)

lemma toolCallMap_entry:
  "toolCallMap c = JObj (function_entry (JStr (dc_ID c)) (if dc_Type c = [] then ''function'' else dc_Type c)
     (JStr (dc_Name c)) (dc_Arguments c))"
  by (simp add: toolCallMap_def function_entry_def)

text \<open>A call whose arguments are in the form \<open>json.Marshal\<close> gives them.\<close>

definition canonical_call :: "golib \<Rightarrow> detectedToolCall \<Rightarrow> bool" where
  "canonical_call L c \<longleftrightarrow>
     (if dc_Type c = ''custom''
      then dc_Arguments c = marshal L (JObj [(''input'', JStr (customToolInput L (JStr (dc_Arguments c))))])
      else (dc_Type c = [] \<or> dc_Type c = ''function'')
        \<and> rewritten_arguments L (JStr (dc_Arguments c)) = dc_Arguments c)"

lemma call_item_replayed:
  assumes "canonical_call L c"
  shows "\<exists>m. call_item L i (toolCallMap c) = JObj m
    \<and> input_item L m = Inr [call_message [as_obj (toolCallMap c)]]"
proof (cases "dc_Type c = ''custom''")
  case True
  with assms show ?thesis
    by (auto simp: call_item_def toolCallMap_entry function_entry_def call_fn_def canonical_call_def
        input_item_def Let_def)
next
  case False
  with assms show ?thesis
    by (auto simp: call_item_def toolCallMap_entry function_entry_def call_fn_def canonical_call_def
        input_item_def Let_def)
qed

lemma call_items_replayed:
  "list_all (canonical_call L) cs \<Longrightarrow>
    input_items L (map (\<lambda>(k, tc). call_item L (fresh k) tc) (enumerate n (toolCallMaps cs)))
      = Inr (map (\<lambda>c. call_message [as_obj (toolCallMap c)]) cs)"
proof (induction cs arbitrary: n)
  case (Cons c cs)
  then obtain m where "call_item L (fresh n) (toolCallMap c) = JObj m"
      "input_item L m = Inr [call_message [as_obj (toolCallMap c)]]"
    using call_item_replayed [of L c "fresh n"] by auto
  with Cons show ?case by (simp add: toolCallMaps_def)
qed (simp add: toolCallMaps_def)

section \<open>Properties\<close>


text \<open>The text a client of the Messages API collects from the events of the content blocks.\<close>

definition collected_text :: "event list \<Rightarrow> string" where
  "collected_text evs = concat (map (\<lambda>(name, e).
     if name = ''content_block_start'' then as_str (get (as_obj (get e ''content_block'')) ''text'')
     else if name = ''content_block_delta'' then as_str (get (as_obj (get e ''delta'')) ''text'')
     else []) evs)"

definition collected_inputs :: "event list \<Rightarrow> string list" where
  "collected_inputs evs = concat (map (\<lambda>(name, e).
     case get (as_obj (get e ''delta'')) ''partial_json'' of JStr s \<Rightarrow> [s] | _ \<Rightarrow> []) evs)"

text \<open>
  a streamed answer of the Messages API delivers the text twice: the event that starts the text
  block holds all of it, and the delta that follows repeats it.
\<close>
theorem messages_text_is_streamed_twice:
  assumes "is_arr (get (choice_message src) ''tool_calls'') = None"
  shows "\<exists>evs. writeAnthropicResult L fresh model True src = WireEvents evs
    \<and> collected_text evs = (let t = go_sprint L (get (choice_message src) ''content'') in t @ t)"
  using assms
  by (cases "get (choice_message src) ''tool_calls''")
    (auto simp: writeAnthropicResult_def anthropic_blocks_def anthropic_events_def block_events_def
      collected_text_def event_def Let_def)

lemma collected_inputs_append [simp]: "collected_inputs (xs @ ys) = collected_inputs xs @ collected_inputs ys"
  by (simp add: collected_inputs_def)

lemma collected_inputs_blocks:
  "collected_inputs (concat (map (\<lambda>(k, b). block_events L k b) (enumerate n (map (tool_use_block L) calls))))
     = map (\<lambda>b. marshal L (get (as_obj b) ''input'')) (map (tool_use_block L) calls)"
proof (induction calls arbitrary: n)
  case (Cons c calls)
  have "collected_inputs (block_events L n (tool_use_block L c)) = [marshal L (get (as_obj (tool_use_block L c)) ''input'')]"
    by (simp add: block_events_def tool_use_block_def collected_inputs_def event_def Let_def)
  with Cons show ?case by simp
qed (simp add: collected_inputs_def)

text \<open>
  the streamed and the plain form of a Messages answer with calls carry the same inputs: the JSON
  fragments of the stream are the marshalled inputs of the body's blocks, in order.
\<close>
theorem messages_stream_carries_the_inputs:
  assumes "get (choice_message src) ''tool_calls'' = JArr calls"
  shows "\<exists>evs b. writeAnthropicResult L fresh model True src = WireEvents evs
    \<and> writeAnthropicResult L fresh model False src = WireBody b
    \<and> collected_inputs evs = map (\<lambda>c. marshal L (get (as_obj c) ''input'')) (as_arr (get b ''content''))"
  using assms collected_inputs_blocks [of L 0 calls]
  by (auto simp: writeAnthropicResult_def anthropic_blocks_def anthropic_events_def anthropic_body_def Let_def)
    (simp add: collected_inputs_def event_def)

text \<open>
  an answer with images has no content for the Responses API, whatever its text: the handler
  reports an empty response instead of it.
\<close>
theorem image_answers_have_no_responses_content:
  assumes "res_Images res \<noteq> []"
  shows "\<not> responsesOutputHasContent (completion_json G cid created model res (answer_content res))"
  using assms
  by (simp add: responsesOutputHasContent_def openAIChoice_def completion_json_def answer_content_def)

section \<open>Witnesses\<close>


end
