(* ===== verification/ChatTurns.thy ===== *)
theory ChatTurns
  imports ChatExamples
begin

text \<open>
  The ChatHub turns \<open>openaiChat\<close> makes: when, for which account, and how many at most.
\<close>

section \<open>Turns\<close>

text \<open>From \<open>s\<close> to \<open>s1\<close> at most \<open>n\<close> turns were made, all for the account \<open>acc\<close>.\<close>

definition turns_by :: "AccountToken \<Rightarrow> nat \<Rightarrow> server \<Rightarrow> server \<Rightarrow> bool" where
  "turns_by acc n s s1 \<longleftrightarrow>
     (\<exists>ts. sv_turns s1 = sv_turns s @ ts \<and> length ts \<le> n \<and> list_all (\<lambda>t. fst t = acc) ts)"

named_theorems turn_count \<open>how many turns a stage makes\<close>

lemma turns_by_refl [turn_count]: "turns_by acc n s s"
  by (simp add: turns_by_def)

lemma turns_by_trans:
  "turns_by acc m s s1 \<Longrightarrow> turns_by acc n s1 s2 \<Longrightarrow> m + n \<le> k \<Longrightarrow> turns_by acc k s s2"
  by (fastforce simp: turns_by_def)

lemma turns_by_mono: "turns_by acc m s s1 \<Longrightarrow> m \<le> n \<Longrightarrow> turns_by acc n s s1"
  by (auto simp: turns_by_def)

lemma turns_by_chat: "turns_by acc (Suc 0) s (snd (chat_turn w acc req s))"
  by (simp add: turns_by_def)

lemma turns_by_Chat: "Chat w acc req s = (r, s1) \<Longrightarrow> turns_by acc (Suc 0) s s1"
  using Chat_fields(2) [of w acc req s] by (simp add: turns_by_def)

lemma turns_by_remember [simp]:
  "turns_by acc n s (remember_session w key acc' res t s1) = turns_by acc n s s1"
  "turns_by acc n (remember_session w key acc' res t s) s1 = turns_by acc n s s1"
  unfolding turns_by_def by simp_all

lemma route_turns: "route G w p b keep s = (r, s1) \<Longrightarrow> turns_by (p_account p) 2 s s1"
proof -
  assume r: "route G w p b keep s = (r, s1)"
  obtain a1 t1 where c1: "Chat w (p_account p) (route_request G p) s = (a1, t1)" by fastforce
  note n1 = turns_by_Chat [OF c1]
  show ?thesis
  proof (cases a1)
    case (Inl e)
    with r c1 n1 show ?thesis by (auto simp: route_def intro: turns_by_mono)
  next
    case (Inr res)
    obtain a2 t2 where c2: "Chat w (p_account p) (repair_request p b (res_Text res)) t1 = (a2, t2)" by fastforce
    have "turns_by (p_account p) 2 s t2" using turns_by_trans [OF n1 turns_by_Chat [OF c2]] by simp
    moreover have "s1 = t1 \<or> s1 = t2"
      using r c1 Inr c2 by (auto simp: route_def split: prod.splits bool.splits sum.splits)
    ultimately show ?thesis using n1 by (auto intro: turns_by_mono)
  qed
qed

lemma stream_answer_turn: "snd (stream_answer G w p s) = snd (chat_turn w (p_account p) (stream_request G p) s)"
  by (auto simp: stream_answer_def Let_def split: prod.splits sum.splits stream_reply.splits)

lemma stream_answer_turns: "stream_answer G w p s = (r, s1) \<Longrightarrow> turns_by (p_account p) (Suc 0) s s1"
  using stream_answer_turn [of G w p s] turns_by_chat [of "p_account p" s w "stream_request G p"] by simp

lemma stream_path_turns:
  assumes "stream_path G w p s = (r, s1)"
  shows "turns_by (p_account p) 3 s s1"
proof (cases "ToolPlanningMode (gw_settings G) = ''router'' \<and> p_tools p \<noteq> [] \<and> \<not> choice_none G p")
  case False
  with assms have "turns_by (p_account p) (Suc 0) s s1"
    by (auto simp: stream_path_def intro: stream_answer_turns)
  then show ?thesis by (rule turns_by_mono) simp
next
  case True
  let ?keep = "\<lambda>calls. filterCompletedCalls (lib G) calls (p_ledger p)"
  obtain a t where ro: "route G w p False ?keep s = (a, t)" by fastforce
  note n = route_turns [OF ro]
  have "turns_by (p_account p) 2 s s1 \<or> (\<exists>r'. stream_answer G w p t = (r', s1))"
    using assms True ro n by (auto simp: stream_path_def split: sum.splits prod.splits if_splits)
  then show ?thesis
    using turns_by_trans [OF n stream_answer_turns] by (auto intro: turns_by_mono)
qed

lemma required_retry_turns: "required_retry G w p s = (r, s1) \<Longrightarrow> turns_by (p_account p) (Suc 0) s s1"
proof -
  assume r: "required_retry G w p s = (r, s1)"
  obtain a t where c: "Chat w (p_account p) (plain_request
      (retry_text (gw_lib G) (p_prompt p) (p_ledger p) (p_tools p)) (p_tone p)
      (oq_Attachments (p_body p))) s = (a, t)" by fastforce
  have "s1 = t" using r c by (auto simp: required_retry_def Let_def split: sum.splits prod.splits if_splits)
  then show ?thesis using turns_by_Chat [OF c] by simp
qed

lemma json_router_turns:
  assumes "json_router G w p s = (r, s1)"
  shows "turns_by (p_account p) (if r = None then 2 else 3) s s1"
    and "ToolPlanningMode (gw_settings G) \<noteq> ''router'' \<Longrightarrow> s1 = s"
proof -
  show "turns_by (p_account p) (if r = None then 2 else 3) s s1"
  proof (cases "ToolPlanningMode (gw_settings G) = ''router'' \<and> p_tools p \<noteq> [] \<and> \<not> choice_none G p")
    case False
    with assms show ?thesis by (auto simp: json_router_def turn_count)
  next
    case True
    obtain a t where ro: "route G w p True (\<lambda>calls. calls) s = (a, t)" by fastforce
    note n = route_turns [OF ro]
    obtain a2 t2 where re: "required_retry G w p t = (a2, t2)" by fastforce
    have "s1 = t \<or> (r \<noteq> None \<and> s1 = t2)"
      using assms True ro re by (auto simp: json_router_def split: sum.splits prod.splits if_splits)
    then show ?thesis
      using n turns_by_trans [OF n required_retry_turns [OF re]] by (auto intro: turns_by_mono)
  qed
  show "ToolPlanningMode (gw_settings G) \<noteq> ''router'' \<Longrightarrow> s1 = s"
    using assms by (simp add: json_router_def)
qed

lemma native_recovery_turns:
  assumes "native_recovery G w p model s = (r, s1)"
  shows "turns_by (p_account p) 2 s s1"
    and "ToolPlanningMode (gw_settings G) \<noteq> ''native'' \<Longrightarrow> s1 = s"
proof -
  show "turns_by (p_account p) 2 s s1"
  proof (cases "ToolPlanningMode (gw_settings G) = ''native'' \<and> p_tools p \<noteq> [] \<and> \<not> choice_none G p")
    case False
    with assms show ?thesis by (auto simp: native_recovery_def turn_count)
  next
    case True
    obtain a t where ro: "route G w p False (\<lambda>calls. calls) s = (a, t)" by fastforce
    have "s1 = t"
      using assms True ro by (auto simp: native_recovery_def split: sum.splits prod.splits if_splits)
    then show ?thesis using route_turns [OF ro] by simp
  qed
  show "ToolPlanningMode (gw_settings G) \<noteq> ''native'' \<Longrightarrow> s1 = s"
    using assms by (simp add: native_recovery_def)
qed

text \<open>How the JSON answer ends.\<close>

lemma json_answer_cases:
  assumes "json_answer G w p s = (r, s1)"
  obtains (failed) e where "r = Rejected UpstreamFailed"
      "Chat w (p_account p) (answer_request G p) s = (Inl e, s1)"
    | (calls) model cs res t where "r = CallsReply model None (issue_calls cs (call_limit G)) res" "cs \<noteq> []"
      "Chat w (p_account p) (answer_request G p) s = (Inr res, t)"
      "cs = fencedToolCalls (lib G) (res_Text res) (p_tools p) (oq_ToolChoice (p_body p))
        \<or> cs = nativeToolCalls (lib G) (res_Events res) (oq_Tools (p_body p))"
      "s1 = remember_session w (oq_SessionKey (p_body p)) (p_account p) res (p_prompt p) t"
    | (recovered) model res t where
      "Chat w (p_account p) (answer_request G p) s = (Inr res, t)"
      "native_recovery G w p model
        (remember_session w (oq_SessionKey (p_body p)) (p_account p) res (p_prompt p) t) = (Some r, s1)"
    | (shown) model res t where
      "Chat w (p_account p) (answer_request G p) s = (Inr res, t)" "r = text_reply p model res"
      "native_recovery G w p model
        (remember_session w (oq_SessionKey (p_body p)) (p_account p) res (p_prompt p) t) = (None, s1)"
proof -
  obtain a t where c: "Chat w (p_account p) (answer_request G p) s = (a, t)" by fastforce
  show ?thesis
  proof (cases a)
    case (Inl e)
    with assms c show ?thesis
      by (intro failed [of e]) (simp_all add: json_answer_def Let_def)
  next
    case (Inr res)
    let ?t = "remember_session w (oq_SessionKey (p_body p)) (p_account p) res (p_prompt p) t"
    let ?model = "if oq_Model (p_body p) = [] then ''m365-copilot'' else oq_Model (p_body p)"
    let ?f = "fencedToolCalls (lib G) (res_Text res) (p_tools p) (oq_ToolChoice (p_body p))"
    let ?n = "nativeToolCalls (lib G) (res_Events res) (oq_Tools (p_body p))"
    obtain nr nt where nr: "native_recovery G w p ?model ?t = (nr, nt)" by fastforce
    have e: "(r, s1) = (if ?f \<noteq> [] then (CallsReply ?model None (issue_calls ?f (call_limit G)) res, ?t)
        else if ?n \<noteq> [] then (CallsReply ?model None (issue_calls ?n (call_limit G)) res, ?t)
        else (case nr of Some r \<Rightarrow> (r, nt) | None \<Rightarrow> (text_reply p ?model res, nt)))"
      using assms c Inr nr
      by (auto simp: json_answer_def Let_def split: if_splits option.splits)
    consider "?f \<noteq> []" | "?f = []" "?n \<noteq> []" | "?f = []" "?n = []" by blast
    then show ?thesis
    proof cases
      case 1
      with e show ?thesis by (intro calls [of ?model ?f res t]) (auto simp: c Inr)
    next
      case 2
      with e show ?thesis by (intro calls [of ?model ?n res t]) (auto simp: c Inr)
    next
      case 3
      show ?thesis
      proof (cases nr)
        case None
        with e 3 nr c Inr show ?thesis by (intro shown [of res t ?model]) auto
      next
        case (Some r')
        with e 3 nr c Inr show ?thesis by (intro recovered [of res t ?model]) auto
      qed
    qed
  qed
qed

lemma json_answer_turns:
  assumes "json_answer G w p s = (r, s1)"
  shows "turns_by (p_account p) (if ToolPlanningMode (gw_settings G) = ''native'' then 3 else 1) s s1"
  using assms
proof (cases rule: json_answer_cases)
  case (failed e)
  with turns_by_Chat [OF failed(2)] show ?thesis by (auto intro: turns_by_mono)
next
  case (calls model cs res t)
  then show ?thesis using turns_by_Chat [OF calls(3)] by (auto intro: turns_by_mono)
next
  case (recovered model res t)
  note n = turns_by_Chat [OF recovered(1)]
  show ?thesis
    using native_recovery_turns [OF recovered(2)] turns_by_trans [of "p_account p" 1 s t 2 s1 3] n
    by (auto intro: turns_by_mono)
next
  case (shown model res t)
  note n = turns_by_Chat [OF shown(1)]
  show ?thesis
    using native_recovery_turns [OF shown(3)] turns_by_trans [of "p_account p" 1 s t 2 s1 3] n
    by (auto intro: turns_by_mono)
qed

lemma json_path_turns:
  assumes "json_path G w p s = (r, s1)"
  shows "turns_by (p_account p) 3 s s1"
proof -
  obtain a t where j: "json_router G w p s = (a, t)" by fastforce
  show ?thesis
  proof (cases a)
    case (Some r')
    with assms j json_router_turns(1) [OF j] show ?thesis by (simp add: json_path_def)
  next
    case None
    with assms j have ja: "json_answer G w p t = (r, s1)" by (simp add: json_path_def)
    show ?thesis
    proof (cases "ToolPlanningMode (gw_settings G) = ''native''")
      case True
      then have "t = s" using json_router_turns(2) [OF j] by simp
      with json_answer_turns [OF ja] True show ?thesis by simp
    next
      case False
      with json_answer_turns [OF ja] have "turns_by (p_account p) (Suc 0) t s1" by simp
      with json_router_turns(1) [OF j] None turns_by_trans [of "p_account p" 2 s t 1 s1 3] show ?thesis
        by simp
    qed
  qed
qed


section \<open>The guards\<close>

text \<open>What a prepared request has passed.\<close>

lemma prepare_ok:
  assumes "prepare G w http_method input s = (Inr p, s1)"
  obtains b tone where "http_method = ''POST''" "input = Body b"
    "reasoningTone (gw_settings G) (oq_Model b) (request_effort b) = Some tone" "p_tone p = tone"
    "validateToolConversation (oq_Messages b) = Inr ()"
    "CanContinue (buildAgentLedger (lib G) (activeMessages (oq_Messages b))) (round_limit G) = Inr ()"
    "p_ledger p = buildAgentLedger (lib G) (oq_Messages b)"
    "p_prompt p = trim_space (fst (flattenPromptMessages (lib G) (oq_Messages b) (oq_Attachments b)))"
    "p_prompt p \<noteq> []" "at_OID (p_account p) \<noteq> []" "at_TID (p_account p) \<noteq> []"
    "p_tools p = map (tool_map (lib G)) (oq_Tools (normalizeLegacyTools b))"
    "oq_Tools (p_body p) = oq_Tools (normalizeLegacyTools b)"
    "oq_ToolChoice (p_body p) = (if oq_ToolChoice (normalizeLegacyTools b) = JNull \<and> p_tools p \<noteq> []
       then JStr ''auto'' else oq_ToolChoice (normalizeLegacyTools b))"
    "oq_Stream (p_body p) = oq_Stream b" "oq_SessionKey (p_body p) = oq_SessionKey b"
    "oq_ResponseFormat (p_body p) = oq_ResponseFormat b" "oq_Messages (p_body p) = oq_Messages b"
    "sv_turns s1 = sv_turns s" "sv_sessions s1 = sv_sessions s"
proof -
  from assms obtain b where m: "http_method = ''POST''" "input = Body b"
      and pb: "prepare_body G w b s = (Inr p, s1)"
    by (auto simp: prepare_def split: if_splits body_read.splits)
  have n: "oq_Messages (normalizeLegacyTools b) = oq_Messages b"
      "oq_Attachments (normalizeLegacyTools b) = oq_Attachments b"
      "oq_Stream (normalizeLegacyTools b) = oq_Stream b"
      "oq_SessionKey (normalizeLegacyTools b) = oq_SessionKey b"
      "oq_ResponseFormat (normalizeLegacyTools b) = oq_ResponseFormat b"
    by (simp_all add: normalizeLegacyTools_def Let_def)
  obtain prompt0 atts where fl: "flattenPromptMessages (lib G) (oq_Messages b) (oq_Attachments b) = (prompt0, atts)"
    by fastforce
  obtain aid cid sid where js: "join_session (oq_SessionKey b)
      (oq_AccountID (normalizeLegacyTools b), oq_ConversationID (normalizeLegacyTools b),
       oq_SessionID (normalizeLegacyTools b)) s = (aid, cid, sid)" by (metis prod_cases3)
  obtain a st where pa: "pick_account (gw_tokens G) w
      (firstNonEmpty [aid, oq_User (normalizeLegacyTools b)]) s = (a, st)" by fastforce
  from pb obtain acc tone where a: "a = Inr acc"
      and g: "reasoningTone (gw_settings G) (oq_Model b) (request_effort b) = Some tone"
        "validateToolConversation (oq_Messages b) = Inr ()"
        "CanContinue (buildAgentLedger (lib G) (activeMessages (oq_Messages b))) (round_limit G) = Inr ()"
        "trim_space prompt0 \<noteq> []"
      and p: "p = \<lparr>p_body = (normalizeLegacyTools b)\<lparr>oq_Attachments := atts, oq_AccountID := aid,
            oq_ConversationID := cid, oq_SessionID := sid,
            oq_ToolChoice := (if oq_ToolChoice (normalizeLegacyTools b) = JNull
                \<and> map (tool_map (lib G)) (oq_Tools (normalizeLegacyTools b)) \<noteq> []
              then JStr ''auto'' else oq_ToolChoice (normalizeLegacyTools b))\<rparr>,
          p_tone = tone, p_ledger = buildAgentLedger (lib G) (oq_Messages b),
          p_prompt = trim_space prompt0, p_account = acc,
          p_tools = map (tool_map (lib G)) (oq_Tools (normalizeLegacyTools b))\<rparr>"
      and st: "s1 = st"
    by (auto simp: prepare_body_def n fl js pa Let_def simp del: firstNonEmpty.simps
        split: option.splits sum.splits if_splits)
  have "pick_account (gw_tokens G) w (firstNonEmpty [aid, oq_User (normalizeLegacyTools b)]) s = (Inr acc, st)"
    using pa a by simp
  then have "at_OID acc \<noteq> []" "at_TID acc \<noteq> []" by (auto elim: pick_account_ok)
  moreover have "sv_turns st = sv_turns s" "sv_sessions st = sv_sessions s"
    using pick_account_turns [of "gw_tokens G" w "firstNonEmpty [aid, oq_User (normalizeLegacyTools b)]" s]
    by (simp_all only: pa snd_conv)
  ultimately show ?thesis
    using that [OF m g(1) _ g(2,3)] g(4) by (simp add: p n fl st)
qed

lemma prepare_refused_turns:
  "prepare G w http_method input s = (Inl e, s1) \<Longrightarrow> sv_turns s1 = sv_turns s \<and> sv_sessions s1 = sv_sessions s"
proof -
  assume r: "prepare G w http_method input s = (Inl e, s1)"
  have "s1 = s \<or> (\<exists>aid. s1 = snd (pick_account (gw_tokens G) w aid s))"
    using r by (auto simp: prepare_def prepare_body_def Let_def
        split: if_splits body_read.splits option.splits sum.splits prod.splits)
      (metis snd_conv)+
  then show ?thesis by auto
qed

section \<open>Properties\<close>

lemma handler_cases:
  assumes "openaiChat G w http_method input s = (r, s1)"
  obtains (refused) e where "prepare G w http_method input s = (Inl e, s1)" "r = Rejected e"
    | (streaming) p t where "prepare G w http_method input s = (Inr p, t)" "oq_Stream (p_body p)"
      "stream_path G w p t = (r, s1)"
    | (plain) p t where "prepare G w http_method input s = (Inr p, t)" "\<not> oq_Stream (p_body p)"
      "json_path G w p t = (r, s1)"
proof (cases "prepare G w http_method input s")
  case (Pair a t)
  with assms show ?thesis
    by (cases a) (auto simp: openaiChat_def split: if_splits intro: refused streaming plain)
qed

lemma handler_turns:
  assumes "openaiChat G w http_method input s = (r, s1)"
  shows "sv_turns s1 = sv_turns s
    \<or> (\<exists>p t. prepare G w http_method input s = (Inr p, t) \<and> sv_turns t = sv_turns s
        \<and> turns_by (p_account p) 3 t s1)"
  using assms
proof (cases rule: handler_cases)
  case (refused e)
  then show ?thesis by (simp add: prepare_refused_turns)
next
  case (streaming p t)
  moreover from streaming(1) have "sv_turns t = sv_turns s" by (rule prepare_ok)
  ultimately show ?thesis using stream_path_turns by blast
next
  case (plain p t)
  moreover from plain(1) have "sv_turns t = sv_turns s" by (rule prepare_ok)
  ultimately show ?thesis using json_path_turns by blast
qed

text \<open>
  C1: a chat completion makes a ChatHub turn only for a POST request whose tool messages are valid,
  whose evidence ledger for the current user turn may go on, and whose messages flatten to a prompt
  that is not blank.
\<close>
theorem no_turn_before_the_guards:
  assumes "openaiChat G w http_method input s = (r, s1)" and "sv_turns s1 \<noteq> sv_turns s"
  shows "http_method = ''POST'' \<and> (\<exists>b. input = Body b
    \<and> validateToolConversation (oq_Messages b) = Inr ()
    \<and> CanContinue (buildAgentLedger (lib G) (activeMessages (oq_Messages b))) (round_limit G) = Inr ()
    \<and> trim_space (fst (flattenPromptMessages (lib G) (oq_Messages b) (oq_Attachments b))) \<noteq> [])"
proof -
  from handler_turns [OF assms(1)] assms(2) obtain p t
    where pr: "prepare G w http_method input s = (Inr p, t)" by blast
  show ?thesis by (rule prepare_ok [OF pr]) auto
qed

text \<open>
  C9: whatever the upstream model answers, a chat completion makes at most three ChatHub turns, all
  for one account, and that account has an object id and a tenant id.
\<close>
theorem at_most_three_turns:
  "\<exists>acc ts. sv_turns (snd (openaiChat G w http_method input s)) = sv_turns s @ ts \<and> length ts \<le> 3
    \<and> list_all (\<lambda>t. fst t = acc \<and> at_OID acc \<noteq> [] \<and> at_TID acc \<noteq> []) ts"
proof -
  obtain r s1 where h: "openaiChat G w http_method input s = (r, s1)" by fastforce
  from handler_turns [OF h] show ?thesis
  proof
    assume "sv_turns s1 = sv_turns s"
    then show ?thesis by (simp add: h)
  next
    assume "\<exists>p t. prepare G w http_method input s = (Inr p, t) \<and> sv_turns t = sv_turns s
        \<and> turns_by (p_account p) 3 t s1"
    then obtain p t where pr: "prepare G w http_method input s = (Inr p, t)" "sv_turns t = sv_turns s"
      and n: "turns_by (p_account p) 3 t s1" by blast
    have "at_OID (p_account p) \<noteq> [] \<and> at_TID (p_account p) \<noteq> []" by (rule prepare_ok [OF pr(1)]) auto
    with n pr(2) show ?thesis
      by (intro exI [of _ "p_account p"]) (auto simp: h turns_by_def list_all_iff)
  qed
qed

lemma run_turns: "sv_turns (snd (run ''router'' [''{call}''] (ask False JNull hello))) \<noteq> sv_turns demo_server"
  by code_simp

theorem no_turn_before_the_guards_witness:
  "trim_space (fst (flattenPromptMessages (lib (demo ''router'')) hello [])) \<noteq> []"
  using no_turn_before_the_guards [OF run_eq run_turns] by (simp add: ask_def)

end
