(* ===== verification/ChatReplies.thy ===== *)
theory ChatReplies
  imports ChatTurns
begin

text \<open>
  What \<open>openaiChat\<close> answers: which calls it issues, when it may answer with text, what that text
  may claim, and what it remembers of the session.
\<close>

section \<open>Where issued calls come from\<close>

definition legal_call :: "prepared \<Rightarrow> detectedToolCall \<Rightarrow> bool" where
  "legal_call p c \<longleftrightarrow> declared (p_tools p) (dc_Name c)
     \<and> toolChoiceAllows (oq_ToolChoice (p_body p)) (dc_Name c)"

lemma decide_legal: "c \<in> set (fst (decide G p t)) \<Longrightarrow> legal_call p c"
  by (simp add: decide_def legal_call_def router.detected_declared router.detected_chosen)

lemma fenced_legal:
  "c \<in> set (fencedToolCalls L t (p_tools p) (oq_ToolChoice (p_body p))) \<Longrightarrow> legal_call p c"
  by (simp add: legal_call_def fenced.detected_declared fenced.detected_chosen)

text \<open>A new id leaves name and arguments alone.\<close>

lemma rescope_mem:
  "c \<in> set (rescope L scope calls) \<Longrightarrow> \<exists>c'\<in>set calls. dc_Name c = dc_Name c' \<and> dc_Arguments c = dc_Arguments c'"
  by (fastforce simp: rescope_def dest: in_set_enumerate_eq [THEN iffD1])

lemma issue_scoped_mem:
  "c \<in> set (issue_scoped G p tag calls) \<Longrightarrow>
    \<exists>c'\<in>set calls. dc_Name c = dc_Name c' \<and> dc_Arguments c = dc_Arguments c'"
  unfolding issue_scoped_def using issue_calls_subset rescope_mem by blast

lemma rescope_length [simp]: "length (rescope L scope calls) = length calls"
  by (simp add: rescope_def)

lemma rescope_nil [simp]: "rescope L scope calls = [] \<longleftrightarrow> calls = []"
  by (metis length_0_conv rescope_length)

lemma issue_scoped_legal:
  "\<forall>c\<in>set calls. legal_call p c \<Longrightarrow> c \<in> set (issue_scoped G p tag calls) \<Longrightarrow> legal_call p c"
  by (drule issue_scoped_mem) (auto simp: legal_call_def)

lemma issue_scoped_size:
  "int (length (issue_scoped G p tag calls)) \<le> max 1 (call_limit G)"
  "calls \<noteq> [] \<Longrightarrow> issue_scoped G p tag calls \<noteq> []"
  by (simp_all add: issue_scoped_def issue_calls_length issue_calls_nonempty)

lemma route_calls:
  assumes "route G w p b keep s = (Inr (calls, parsed, res), s1)"
  obtains t where "calls = keep (fst (decide G p t))"
proof -
  obtain a1 t1 where c1: "Chat w (p_account p) (route_request G p) s = (a1, t1)" by fastforce
  with assms obtain res1 where a1: "a1 = Inr res1" by (cases a1) (auto simp: route_def)
  obtain c p1 where d: "decide G p (res_Text res1) = (c, p1)" by fastforce
  obtain a2 t2 where c2: "Chat w (p_account p) (repair_request p b (res_Text res1)) t1 = (a2, t2)" by fastforce
  have "\<exists>t. calls = keep (fst (decide G p t))"
  proof (cases p1)
    case True
    with assms c1 a1 d have "calls = keep (fst (decide G p (res_Text res1)))" by (simp add: route_def)
    then show ?thesis ..
  next
    case False
    show ?thesis
    proof (cases a2)
      case (Inl e)
      with False assms c1 a1 d c2 have "calls = keep (fst (decide G p (res_Text res1)))"
        by (simp add: route_def)
      then show ?thesis ..
    next
      case (Inr res2)
      with False assms c1 a1 d c2 have "calls = keep (fst (decide G p (res_Text res2)))"
        by (simp add: route_def split: prod.splits)
      then show ?thesis ..
    qed
  qed
  with that show thesis by blast
qed

text \<open>The replies of the stages of the JSON path.\<close>

lemma required_retry_reply:
  assumes "required_retry G w p s = (r, s1)"
  obtains "r = Rejected RequiredNotSelected"
    | t res model where "r = CallsReply model None (issue_scoped G p '':required-retry''
        (filterCompletedCalls (lib G) (fst (decide G p t)) (p_ledger p))) res"
      "filterCompletedCalls (lib G) (fst (decide G p t)) (p_ledger p) \<noteq> []"
proof -
  obtain a t where c: "Chat w (p_account p) (plain_request
      (retry_text (gw_lib G) (p_prompt p) (p_ledger p) (p_tools p)) (p_tone p)
      (oq_Attachments (p_body p))) s = (a, t)" by fastforce
  show thesis
  proof (cases a)
    case (Inl e)
    with assms c show thesis by (intro that(1)) (simp add: required_retry_def)
  next
    case (Inr res)
    with assms c show thesis using that(1) that(2) [of "response_model (p_body p)" "res_Text res" res]
      by (auto simp: required_retry_def Let_def split: prod.splits if_splits)
  qed
qed

lemma json_router_reply:
  assumes "json_router G w p s = (Some r, s1)"
  obtains e where "r = Rejected e"
    | tag calls t res model where "r = CallsReply model None (issue_scoped G p tag calls) res"
      "calls \<noteq> []" "set calls \<subseteq> set (fst (decide G p t))"
proof -
  obtain a t where ro: "route G w p True (\<lambda>calls. calls) s = (a, t)" by fastforce
  show thesis
  proof (cases a)
    case (Inl e)
    with assms ro show thesis using that(1) by (auto simp: json_router_def split: if_splits)
  next
    case (Inr x)
    obtain calls parsed res where x: "x = (calls, parsed, res)" by (cases x) auto
    note ro' = ro [unfolded Inr x]
    obtain rr t' where rt: "required_retry G w p t = (rr, t')" by fastforce
    consider "\<exists>e. r = Rejected e"
      | "calls \<noteq> []" "r = CallsReply (response_model (p_body p)) None (issue_scoped G p [] calls) res"
      | "r = rr"
      using assms ro' rt by (auto simp: json_router_def split: if_splits)
    then show thesis
    proof cases
      case 1
      then show thesis using that(1) by blast
    next
      case 2
      show thesis by (rule route_calls [OF ro']) (use 2 that(2) in auto)
    next
      case 3
      from rt show thesis
      proof (rule required_retry_reply)
        assume "rr = Rejected RequiredNotSelected"
        with 3 show thesis using that(1) by blast
      next
        fix u res' model
        let ?c = "filterCompletedCalls (lib G) (fst (decide G p u)) (p_ledger p)"
        assume "rr = CallsReply model None (issue_scoped G p '':required-retry'' ?c) res'" and "?c \<noteq> []"
        moreover have "set ?c \<subseteq> set (fst (decide G p u))" by (auto simp: filterCompletedCalls_mem)
        ultimately show thesis using 3 that(2) by blast
      qed
    qed
  qed
qed

lemma native_recovery_reply:
  assumes "native_recovery G w p model s = (Some r, s1)"
  obtains calls t res where "r = CallsReply model None (issue_scoped G p '':native-recovery'' calls) res"
    "calls \<noteq> []" "calls = fst (decide G p t)"
proof -
  obtain a t where ro: "route G w p False (\<lambda>calls. calls) s = (a, t)" by fastforce
  with assms obtain calls res where
      a: "a = Inr (calls, True, res)" "calls \<noteq> []"
        "r = CallsReply model None (issue_scoped G p '':native-recovery'' calls) res"
    by (cases a) (auto simp: native_recovery_def split: if_splits)
  show thesis by (rule route_calls [OF ro [unfolded a(1)]]) (use a that in auto)
qed

lemma route_sessions: "route G w p b keep s = (r, s1) \<Longrightarrow> sv_sessions s1 = sv_sessions s"
proof -
  assume r: "route G w p b keep s = (r, s1)"
  obtain a1 t1 where c1: "Chat w (p_account p) (route_request G p) s = (a1, t1)" by fastforce
  have t1: "sv_sessions t1 = sv_sessions s" using Chat_fields(3) [of w "p_account p" "route_request G p" s] c1 by simp
  show ?thesis
  proof (cases a1)
    case (Inl e)
    with r c1 t1 show ?thesis by (simp add: route_def)
  next
    case (Inr res)
    obtain a2 t2 where c2: "Chat w (p_account p) (repair_request p b (res_Text res)) t1 = (a2, t2)" by fastforce
    have "sv_sessions t2 = sv_sessions t1"
      using Chat_fields(3) [of w "p_account p" "repair_request p b (res_Text res)" t1] c2 by simp
    moreover have "s1 = t1 \<or> s1 = t2"
      using r c1 Inr c2 by (auto simp: route_def split: prod.splits bool.splits sum.splits)
    ultimately show ?thesis using t1 by auto
  qed
qed

lemma native_recovery_sessions:
  assumes "native_recovery G w p model s = (r, s1)"
  shows "sv_sessions s1 = sv_sessions s"
proof -
  obtain a t where ro: "route G w p False (\<lambda>calls. calls) s = (a, t)" by fastforce
  have "s1 = s \<or> s1 = t"
    using assms ro by (auto simp: native_recovery_def split: sum.splits prod.splits if_splits)
  then show ?thesis using route_sessions [OF ro] by auto
qed

lemma json_router_sessions:
  assumes "json_router G w p s = (None, s1)"
  shows "sv_sessions s1 = sv_sessions s"
proof -
  obtain a t where ro: "route G w p True (\<lambda>calls. calls) s = (a, t)" by fastforce
  have "s1 = s \<or> s1 = t"
    using assms ro by (auto simp: json_router_def split: sum.splits prod.splits if_splits)
  then show ?thesis using route_sessions [OF ro] by auto
qed

text \<open>With the choice \<open>required\<close> the router of the JSON path always has the last word.\<close>

lemma json_router_required:
  assumes "ToolPlanningMode (gw_settings G) = ''router''" "p_tools p \<noteq> []"
    and "oq_ToolChoice (p_body p) = JStr ''required''"
  shows "fst (json_router G w p s) \<noteq> None"
  using assms by (auto simp: json_router_def choice_none_def split: sum.splits prod.splits)

section \<open>All sources of calls\<close>

definition call_source :: "gateway \<Rightarrow> world \<Rightarrow> prepared \<Rightarrow> detectedToolCall list \<Rightarrow> bool" where
  "call_source G w p cs \<longleftrightarrow>
     (\<exists>t. set cs \<subseteq> set (fst (decide G p t)))
   \<or> (\<exists>t. cs = fencedToolCalls (lib G) t (p_tools p) (oq_ToolChoice (p_body p)))
   \<or> (\<exists>i req res. snd (upstream w i req) = Inr res
        \<and> cs = nativeToolCalls (lib G) (res_Events res) (oq_Tools (p_body p)))
   \<or> (\<exists>i req. cs = streamedTools (gate_run (fst (upstream w i req)) new_gate))"

lemma source_decided: "set cs \<subseteq> set (fst (decide G p t)) \<Longrightarrow> call_source G w p cs"
  unfolding call_source_def by blast

lemma source_fenced: "call_source G w p (fencedToolCalls (lib G) t (p_tools p) (oq_ToolChoice (p_body p)))"
  unfolding call_source_def by blast

lemma source_native:
  "snd (upstream w i req) = Inr res \<Longrightarrow>
    call_source G w p (nativeToolCalls (lib G) (res_Events res) (oq_Tools (p_body p)))"
  unfolding call_source_def by blast

lemma source_stream: "call_source G w p (streamedTools (gate_run (fst (upstream w i req)) new_gate))"
  unfolding call_source_def by blast

text \<open>What reaches the client: some of the calls of one source, possibly under new ids.\<close>

definition issued :: "gateway \<Rightarrow> world \<Rightarrow> prepared \<Rightarrow> detectedToolCall list \<Rightarrow> bool" where
  "issued G w p calls \<longleftrightarrow>
     (\<exists>cs. cs \<noteq> [] \<and> call_source G w p cs
        \<and> (calls = issue_calls cs (call_limit G) \<or> (\<exists>tag. calls = issue_scoped G p tag cs)))"

lemma issued_decided:
  "cs \<noteq> [] \<Longrightarrow> set cs \<subseteq> set (fst (decide G p t)) \<Longrightarrow> issued G w p (issue_scoped G p tag cs)"
  unfolding issued_def using source_decided by blast

lemma issued_limited: "cs \<noteq> [] \<Longrightarrow> call_source G w p cs \<Longrightarrow> issued G w p (issue_calls cs (call_limit G))"
  unfolding issued_def by blast

lemma stream_answer_reply:
  assumes "stream_answer G w p s = (r, s1)"
  shows "(\<exists>model st calls res. r = CallsReply model st calls res \<and> issued G w p calls)
    \<or> (\<exists>es. r = StreamedText es \<or> r = StreamBroken es)"
    and "sv_sessions s1 = sv_sessions s"
proof -
  let ?up = "upstream w (length (sv_turns s)) (stream_request G p)"
  obtain evs result t where c: "chat_turn w (p_account p) (stream_request G p) s = ((evs, result), t)"
    by (metis prod.exhaust_sel)
  have up: "?up = (evs, result)" using chat_turn_fields(1) [of w "p_account p" "stream_request G p" s] c by simp
  have t: "sv_sessions t = sv_sessions s" using chat_turn_fields(4) [of w "p_account p" "stream_request G p" s] c by simp
  show "sv_sessions s1 = sv_sessions s"
    using assms c t by (auto simp: stream_answer_def Let_def split: sum.splits prod.splits stream_reply.splits)
  show "(\<exists>model st calls res. r = CallsReply model st calls res \<and> issued G w p calls)
    \<or> (\<exists>es. r = StreamedText es \<or> r = StreamBroken es)"
  proof (cases result)
    case (Inl e)
    with assms c show ?thesis by (auto simp: stream_answer_def Let_def)
  next
    case (Inr res)
    let ?st = "recover_text (res_Text res) (gate_run evs new_gate)"
    let ?f = "fencedToolCalls (lib G) (all_text ?st) (p_tools p) (oq_ToolChoice (p_body p))"
    let ?cs = "if streamedTools ?st = [] then ?f else streamedTools ?st"
    have "streamedTools ?st = streamedTools (gate_run (fst ?up) new_gate)"
      by (simp add: recover_text_def up)
    then have src: "call_source G w p ?cs" by (simp add: source_fenced source_stream)
    show ?thesis
    proof (cases "?cs = []")
      case True
      then have "fst (stream_finish (lib G) (p_tools p) (oq_ToolChoice (p_body p)) (call_limit G)
          (res_Text res) (gate_run evs new_gate)) = TextDone"
        by (simp add: stream_finish_def Let_def)
      with assms c Inr show ?thesis by (auto simp: stream_answer_def Let_def split: prod.splits)
    next
      case False
      then have "fst (stream_finish (lib G) (p_tools p) (oq_ToolChoice (p_body p)) (call_limit G)
          (res_Text res) (gate_run evs new_gate)) = IssueCalls (issue_calls ?cs (call_limit G))"
        by (simp add: stream_finish_def Let_def)
      with assms c Inr obtain model st res'
        where "r = CallsReply model st (issue_calls ?cs (call_limit G)) res'"
        by (auto simp: stream_answer_def Let_def split: prod.splits)
      moreover have "issued G w p (issue_calls ?cs (call_limit G))"
        by (rule issued_limited [OF False src])
      ultimately show ?thesis by blast
    qed
  qed
qed

lemma stream_path_reply:
  assumes "stream_path G w p s = (r, s1)"
  shows "(\<exists>model st calls res. r = CallsReply model st calls res \<and> issued G w p calls)
    \<or> ((\<exists>es. r = StreamedText es \<or> r = StreamBroken es) \<and> sv_sessions s1 = sv_sessions s)
    \<or> (\<exists>e. r = Rejected (RouterFailed e))"
proof (cases "\<exists>t. sv_sessions t = sv_sessions s \<and> stream_answer G w p t = (r, s1)")
  case True
  then show ?thesis using stream_answer_reply by metis
next
  case False
  let ?keep = "\<lambda>calls. filterCompletedCalls (lib G) calls (p_ledger p)"
  obtain a t where ro: "route G w p False ?keep s = (a, t)" by fastforce
  have t: "sv_sessions t = sv_sessions s" by (rule route_sessions [OF ro])
  have r: "ToolPlanningMode (gw_settings G) = ''router'' \<and> p_tools p \<noteq> [] \<and> \<not> choice_none G p"
    using False assms by (auto simp: stream_path_def split: if_splits)
  show ?thesis
  proof (cases a)
    case (Inl e)
    with r ro assms show ?thesis by (auto simp: stream_path_def)
  next
    case (Inr x)
    obtain calls parsed res where x: "x = (calls, parsed, res)" by (cases x) auto
    obtain u where u: "calls = ?keep (fst (decide G p u))" by (rule route_calls [OF ro [unfolded Inr x]])
    have "calls \<noteq> []" "r = CallsReply (response_model (p_body p)) (Some ([], False))
        (issue_scoped G p '':stream'' calls) res"
      using False assms r ro t Inr x by (auto simp: stream_path_def split: if_splits)
    moreover have "set calls \<subseteq> set (fst (decide G p u))" by (auto simp: u filterCompletedCalls_mem)
    ultimately show ?thesis using issued_decided [of calls G p u w "'':stream''"] by auto
  qed
qed

lemma json_path_reply:
  assumes "json_path G w p s = (r, s1)"
  shows "(\<exists>model calls res. r = CallsReply model None calls res \<and> issued G w p calls)
    \<or> (\<exists>e. r = Rejected e)
    \<or> (\<exists>model t res. r = text_reply p model res \<and> sv_sessions t = sv_sessions s
         \<and> sv_sessions s1 = sv_sessions (remember_session w (oq_SessionKey (p_body p)) (p_account p) res (p_prompt p) t))"
proof -
  obtain a t where j: "json_router G w p s = (a, t)" by fastforce
  show ?thesis
  proof (cases a)
    case (Some r')
    with j have "json_router G w p s = (Some r, t)" using assms by (simp add: json_path_def)
    then show ?thesis
    proof (rule json_router_reply)
      fix tag calls u res model
      assume "r = CallsReply model None (issue_scoped G p tag calls) res"
        and "calls \<noteq> []" "set calls \<subseteq> set (fst (decide G p u))"
      then show ?thesis using issued_decided [of calls G p u w tag] by auto
    qed auto
  next
    case None
    with assms j have "json_answer G w p t = (r, s1)" by (simp add: json_path_def)
    then show ?thesis
    proof (cases rule: json_answer_cases)
      case (failed e)
      then show ?thesis by blast
    next
      case (calls model cs res u)
      from calls(3) have "snd (upstream w (length (sv_turns t)) (answer_request G p)) = Inr res"
        using Chat_fields(1) [of w "p_account p" "answer_request G p" t] by simp
      with calls(2,4) have "issued G w p (issue_calls cs (call_limit G))"
        by (auto intro: issued_limited source_fenced source_native)
      with calls(1) show ?thesis by blast
    next
      case (recovered model res u)
      from recovered(2) show ?thesis
      proof (rule native_recovery_reply)
        fix calls u res'
        assume "r = CallsReply model None (issue_scoped G p '':native-recovery'' calls) res'"
          and "calls \<noteq> []" "calls = fst (decide G p u)"
        then show ?thesis using issued_decided [of calls G p u w "'':native-recovery''"] by auto
      qed
    next
      case (shown model res u)
      have "sv_sessions u = sv_sessions s"
        using Chat_fields(3) [of w "p_account p" "answer_request G p" t] shown(1)
          json_router_sessions [OF j [unfolded None]] by simp
      with shown(2) native_recovery_sessions [OF shown(3)] show ?thesis by (intro disjI2 exI conjI)
    qed
  qed
qed

lemma handler_calls:
  assumes "openaiChat G w http_method input s = (CallsReply model st calls res, s1)"
  obtains p t where "prepare G w http_method input s = (Inr p, t)" "issued G w p calls"
  using assms
proof (cases rule: handler_cases)
  case (streaming p t)
  with that stream_path_reply [OF streaming(3)] show thesis by auto
next
  case (plain p t)
  have "CallsReply model st calls res \<noteq> text_reply p m x" for m x by (simp add: text_reply_def Let_def)
  with that plain json_path_reply [OF plain(3)] show thesis by auto
qed simp

section \<open>How a stream ends\<close>

fun well_ended :: "chat_reply \<Rightarrow> bool" where
  "well_ended (CallsReply model (Some (before, preamble)) calls res) = (StreamDone \<notin> set before)"
| "well_ended (StreamedText es) = (es \<noteq> [] \<and> last es = StreamDone \<and> StreamDone \<notin> set (butlast es))"
| "well_ended (StreamBroken es) = (StreamDone \<notin> set es)"
| "well_ended _ = True"

lemma stream_answer_ends: "well_ended (fst (stream_answer G w p s))"
  by (auto simp: stream_answer_def text_chunks_def Let_def split: prod.splits sum.splits stream_reply.splits)

lemma stream_path_ends: "well_ended (fst (stream_path G w p s))"
  using stream_answer_ends by (auto simp: stream_path_def split: prod.splits sum.splits)

lemma handler_ends:
  assumes "openaiChat G w http_method input s = (r, s1)"
  shows "well_ended r"
  using assms
proof (cases rule: handler_cases)
  case (streaming p t)
  with stream_path_ends [of G w p t] show ?thesis by simp
next
  case (plain p t)
  with json_path_reply [OF plain(3)] show ?thesis by (auto simp: text_reply_def Let_def)
qed simp

section \<open>Properties\<close>

lemma gate_run_no_tools:
  "list_all (\<lambda>(k, ev). se_Kind ev \<noteq> ''tool'') evs \<Longrightarrow> streamedTools (gate_run evs st) = streamedTools st"
  unfolding gate_run_def
proof (induction evs arbitrary: st)
  case (Cons e evs)
  obtain k ev where e: "e = (k, ev)" by (cases e)
  have "streamedTools (gate_event k ev st) = streamedTools st"
    using Cons.prems by (simp add: e gate_event_def gate_text_def Let_def split: option.split)
  with Cons show ?case by (simp add: e)
qed simp

lemma issued_reply_legal:
  assumes "issued G w p calls" and "c \<in> set calls"
    and ev: "\<forall>i req. list_all (\<lambda>(k, ev). se_Kind ev \<noteq> ''tool'') (fst (upstream w i req))"
    and nat: "\<forall>i req res. snd (upstream w i req) = Inr res \<longrightarrow>
      nativeToolCalls (lib G) (res_Events res) (oq_Tools (p_body p)) = []"
  shows "legal_call p c"
proof -
  from assms(1) obtain cs where cs: "cs \<noteq> []" "call_source G w p cs"
      and calls: "calls = issue_calls cs (call_limit G) \<or> (\<exists>tag. calls = issue_scoped G p tag cs)"
    by (auto simp: issued_def)
  have "streamedTools (gate_run (fst (upstream w i req)) new_gate) = []" for i req
    using gate_run_no_tools ev by (simp add: new_gate_def)
  with cs nat have "\<forall>c\<in>set cs. legal_call p c"
    by (auto simp: call_source_def intro: decide_legal fenced_legal)
  with calls assms(2) show ?thesis using issue_calls_subset issue_scoped_legal by blast
qed

text \<open>
  C2: unless ChatHub itself reports tool calls, as events or in its frames, every call a chat
  completion issues, streamed or not, in either planning mode, names a declared tool that the tool
  choice allows.
\<close>
theorem handler_issues_legal_calls:
  assumes "openaiChat G w http_method (Body b) s = (CallsReply model st calls res, s1)"
    and "c \<in> set calls"
    and "\<forall>i req. list_all (\<lambda>(k, ev). se_Kind ev \<noteq> ''tool'') (fst (upstream w i req))"
    and "\<forall>i req res. snd (upstream w i req) = Inr res \<longrightarrow>
      nativeToolCalls (lib G) (res_Events res) (oq_Tools (normalizeLegacyTools b)) = []"
  shows "declared (map (tool_map (lib G)) (oq_Tools (normalizeLegacyTools b))) (dc_Name c)
    \<and> toolChoiceAllows (oq_ToolChoice (normalizeLegacyTools b)) (dc_Name c)"
proof -
  from assms(1) obtain p t where pr: "prepare G w http_method (Body b) s = (Inr p, t)"
    and iss: "issued G w p calls" by (rule handler_calls)
  from pr show ?thesis
  proof (rule prepare_ok)
    fix b'
    assume b: "Body b = Body b'"
      and tools: "p_tools p = map (tool_map (lib G)) (oq_Tools (normalizeLegacyTools b'))"
        "oq_Tools (p_body p) = oq_Tools (normalizeLegacyTools b')"
      and choice: "oq_ToolChoice (p_body p) = (if oq_ToolChoice (normalizeLegacyTools b') = JNull \<and> p_tools p \<noteq> []
        then JStr ''auto'' else oq_ToolChoice (normalizeLegacyTools b'))"
    from assms(3,4) tools b have "legal_call p c" by (intro issued_reply_legal [OF iss assms(2)]) simp_all
    then show ?thesis using tools choice b
      by (auto simp: legal_call_def toolChoiceAllows_def split: if_splits)
  qed
qed

text \<open>
  an answer with tool calls carries at least one, and no more than the configured limit, which
  counts as one where it is smaller.
\<close>
theorem handler_issues_some_calls:
  assumes "openaiChat G w http_method input s = (CallsReply model st calls res, s1)"
  shows "calls \<noteq> [] \<and> int (length calls) \<le> max 1 (call_limit G)"
proof -
  from assms obtain p t where "prepare G w http_method input s = (Inr p, t)" and iss: "issued G w p calls"
    by (rule handler_calls)
  from iss obtain cs where "cs \<noteq> []" "calls = issue_calls cs (call_limit G) \<or> (\<exists>tag. calls = issue_scoped G p tag cs)"
    by (auto simp: issued_def)
  then show ?thesis using issue_calls_nonempty issue_calls_length issue_scoped_size by metis
qed

text \<open>
  C3: in router mode a request that is not streamed, declares tools and requires a call is answered
  with calls or refused; it is never answered with text.
\<close>
theorem required_choice_is_not_answered_with_text:
  assumes "openaiChat G w http_method (Body b) s = (r, s1)"
    and "ToolPlanningMode (gw_settings G) = ''router''" and "\<not> oq_Stream b"
    and "oq_Tools (normalizeLegacyTools b) \<noteq> []"
    and "oq_ToolChoice (normalizeLegacyTools b) = JStr ''required''"
  shows "(\<exists>model calls res. r = CallsReply model None calls res \<and> calls \<noteq> []) \<or> (\<exists>e. r = Rejected e)"
  using assms(1)
proof (cases rule: handler_cases)
  case (streaming p t)
  from streaming(1) have "oq_Stream b" by (rule prepare_ok) (use streaming(2) in auto)
  with assms(3) show ?thesis by simp
next
  case (plain p t)
  from plain(1) have "p_tools p \<noteq> [] \<and> oq_ToolChoice (p_body p) = JStr ''required''"
    by (rule prepare_ok) (use assms(4,5) in auto)
  then have "fst (json_router G w p t) \<noteq> None" using assms(2) json_router_required by blast
  then obtain r' t' where j: "json_router G w p t = (Some r', t')" by (cases "json_router G w p t") auto
  with plain(3) have "r' = r" by (simp add: json_path_def)
  show ?thesis
    by (rule json_router_reply [OF j [unfolded \<open>r' = r\<close>]]) (use issue_scoped_size(2) in auto)
qed simp

lemma handler_text:
  assumes "openaiChat G w http_method (Body b) s = (TextReply model res content, s1)"
  obtains p t u res0 where "prepare G w http_method (Body b) s = (Inr p, t)"
    "TextReply model res content = text_reply p model res0" "sv_sessions u = sv_sessions s"
    "sv_sessions s1 = sv_sessions (remember_session w (oq_SessionKey b) (p_account p) res0 (p_prompt p) u)"
    "p_ledger p = buildAgentLedger (lib G) (oq_Messages b)" "at_OID (p_account p) \<noteq> []"
  using assms
proof (cases rule: handler_cases)
  case (streaming p t)
  with stream_path_reply [OF streaming(3)] show thesis by auto
next
  case (plain p t)
  from json_path_reply [OF plain(3)] obtain m u res0
    where r: "TextReply model res content = text_reply p m res0" "sv_sessions u = sv_sessions t"
      "sv_sessions s1 = sv_sessions (remember_session w (oq_SessionKey (p_body p)) (p_account p) res0 (p_prompt p) u)"
    by auto
  from r(1) have m: "m = model" by (simp add: text_reply_def Let_def)
  from plain(1) show thesis
    by (rule prepare_ok) (use that [OF plain(1)] r m in auto)
qed simp


text \<open>
  after an answer in text that was not streamed, the client's session leads to the upstream
  conversation of that answer, and the other sessions are as they were.
\<close>
theorem text_answer_is_remembered:
  assumes "openaiChat G w http_method (Body b) s = (TextReply model res content, s1)"
    and "oq_SessionKey b \<noteq> []"
  shows "map_option (\<lambda>v. (cv_ConversationID v, cv_SessionID v)) (session_get (oq_SessionKey b) (sv_sessions s1))
      = Some (res_ConversationID res, res_SessionID res)
    \<and> (\<forall>k. k \<noteq> oq_SessionKey b \<longrightarrow> session_get k (sv_sessions s1) = session_get k (sv_sessions s))"
proof -
  from assms(1) obtain p u res0 where r: "TextReply model res content = text_reply p model res0"
    and u: "sv_sessions u = sv_sessions s"
    and s1: "sv_sessions s1 = sv_sessions (remember_session w (oq_SessionKey b) (p_account p) res0 (p_prompt p) u)"
    by (rule handler_text)
  from r have "res_ConversationID res = res_ConversationID res0" "res_SessionID res = res_SessionID res0"
    by (auto simp: text_reply_def Let_def)
  with assms(2) s1 u show ?thesis
    by (simp add: remember_session_def session_upsert_def session_get_def Let_def update_conv')
qed

text \<open>
  a streamed text answer leaves all sessions as they were: the next request under the same
  session key does not continue its conversation.
\<close>
theorem streamed_text_is_not_remembered:
  assumes "openaiChat G w http_method input s = (StreamedText es, s1)"
  shows "sv_sessions s1 = sv_sessions s"
  using assms
proof (cases rule: handler_cases)
  case (streaming p t)
  from streaming(1) have "sv_sessions t = sv_sessions s" by (rule prepare_ok)
  with stream_path_reply [OF streaming(3)] show ?thesis by auto
next
  case (plain p t)
  with json_path_reply [OF plain(3)] show ?thesis by (auto simp: text_reply_def Let_def)
qed simp

text \<open>
  C8: every event stream a chat completion writes ends with the end marker and has it nowhere else,
  unless the upstream turn failed after the stream was opened: then it stops without any marker.
\<close>
theorem event_stream_ends_once:
  assumes "openaiChat G w http_method input s = (r, s1)" and "render G w r = Some (EventStream es)"
  shows "(r = StreamBroken es \<and> StreamDone \<notin> set es)
    \<or> (es \<noteq> [] \<and> last es = StreamDone \<and> StreamDone \<notin> set (butlast es))"
  using handler_ends [OF assms(1)] assms(2)
  by (cases "(G, w, r)" rule: render.cases)
    (auto simp: writeToolResponse_def tool_stream_def Let_def butlast_append split: if_splits)

text \<open>
  once a streaming request has passed the guards it is refused only when the router's turn
  fails; the choice \<open>required\<close> does not keep it from being answered with text.
\<close>
theorem streaming_is_refused_only_for_router_errors:
  assumes "openaiChat G w http_method (Body b) s = (Rejected e, s1)" and "oq_Stream b"
  shows "prepare G w http_method (Body b) s = (Inl e, s1) \<or> (\<exists>m. e = RouterFailed m)"
  using assms(1)
proof (cases rule: handler_cases)
  case (streaming p t)
  with stream_path_reply [OF streaming(3)] show ?thesis by auto
next
  case (plain p t)
  from plain(1) have "oq_Stream (p_body p)" by (rule prepare_ok) (use assms(2) in auto)
  with plain(2) show ?thesis by simp
qed simp

text \<open>
  the router of a request that is not streamed issues the calls the model selects even when
  the ledger has them as completed: what the first routing turn decides is issued, limited, and with
  new ids only.
\<close>
theorem json_router_issues_completed_calls:
  assumes "prepare G w http_method (Body b) s = (Inr p, s0)" and "\<not> oq_Stream b"
    and "ToolPlanningMode (gw_settings G) = ''router''" and "p_tools p \<noteq> []" and "\<not> choice_none G p"
    and "snd (upstream w (length (sv_turns s)) (route_request G p)) = Inr res"
    and "decide G p (res_Text res) = (calls, True)" and "calls \<noteq> []"
  shows "fst (openaiChat G w http_method (Body b) s) =
    CallsReply (response_model (p_body p)) None (issue_scoped G p [] calls) res"
proof -
  from assms(1) have p: "\<not> oq_Stream (p_body p)" "sv_turns s0 = sv_turns s"
    by (auto elim!: prepare_ok simp: assms(2))
  have "fst (Chat w (p_account p) (route_request G p) s0) = Inr res" using assms(6) p(2) by simp
  then obtain s2 where "Chat w (p_account p) (route_request G p) s0 = (Inr res, s2)"
    by (metis prod.collapse)
  with assms p show ?thesis
    by (simp add: openaiChat_def json_path_def json_router_def route_def)
qed

section \<open>Witnesses\<close>

lemma demo_upstream:
  "snd (upstream (answers ts) i req) = Inr res \<Longrightarrow> res_Events res = []"
  by (auto simp: answers_def text_result_def split: if_splits)

theorem handler_issues_legal_calls_witness:
  "declared (map (tool_map (lib (demo ''router''))) [ls_tool]) ''ls''"
proof -
  have tools: "oq_Tools (normalizeLegacyTools (ask False JNull hello)) = [ls_tool]"
    by (simp add: normalizeLegacyTools_def ask_def)
  show ?thesis
    using handler_issues_legal_calls [OF run_eq [of "''router''" "[''{call}'']" "ask False JNull hello",
        unfolded run_calls]]
    by (simp add: demo_upstream nativeToolCalls_def tools)
qed

theorem handler_issues_some_calls_witness:
  "case fst (run ''router'' [''{call}''] (ask False JNull hello)) of
     CallsReply model st calls res \<Rightarrow> calls \<noteq> [] \<and> int (length calls) \<le> max 1 (call_limit (demo ''router''))
   | _ \<Rightarrow> False"
  using handler_issues_some_calls [OF run_eq [of "''router''" "[''{call}'']" "ask False JNull hello", unfolded run_calls]]
  by (simp add: run_calls)

theorem required_choice_is_not_answered_with_text_witness:
  "\<exists>e. fst (run ''router'' [''{none}'', ''fine''] (ask False (JStr ''required'') hello)) = Rejected e"
proof -
  have "case fst (run ''router'' [''{none}'', ''fine''] (ask False (JStr ''required'') hello)) of
      CallsReply model st calls res \<Rightarrow> False | _ \<Rightarrow> True" by code_simp
  with required_choice_is_not_answered_with_text [OF run_eq, of "''router''" "ask False (JStr ''required'') hello"
      "[''{none}'', ''fine'']"]
  show ?thesis by (auto simp: demo_def ask_def normalizeLegacyTools_def)
qed

text \<open>A tool of an earlier turn printed nothing: no later text is shown.\<close>

definition silent_tool :: "oaiMsg list" where
  "silent_tool = take 2 ls_done
     @ [\<lparr>Role = ''tool'', Content = JStr [], Name = [], ToolCallID = ''c'', ToolCalls = []\<rparr>] @ hello"

lemma silent_facts:
  "case fst (run ''native'' [''fine''] (ask False JNull silent_tool)) of TextReply m res c \<Rightarrow> True | _ \<Rightarrow> False"
  "Pending (buildAgentLedger (lib (demo ''native'')) silent_tool) \<noteq> []"
  "normalizeJSONText unconfirmed = unconfirmed"
  by code_simp+


theorem text_answer_is_remembered_witness:
  "map_option (\<lambda>v. (cv_ConversationID v, cv_SessionID v))
     (session_get ''k'' (sv_sessions (snd (run ''native'' [''fine''] (ask False JNull hello))))) = Some (''c1'', ''s1'')"
  using text_answer_is_remembered [OF run_eq [of "''native''" "[''fine'']" "ask False JNull hello", unfolded run_text]]
  by (simp add: demo_result_def ask_def)

theorem streamed_text_is_not_remembered_witness:
  "session_get ''k'' (sv_sessions (snd (run ''router'' [''{none}'', ''fine''] (ask True (JStr ''required'') hello)))) = None"
  using streamed_text_is_not_remembered [OF run_eq [of "''router''" "[''{none}'', ''fine'']"
    "ask True (JStr ''required'') hello", unfolded run_stream]]
  by (simp add: demo_server_def openSessionStore_def session_get_def)

theorem event_stream_ends_once_witness:
  "\<exists>es. render (demo ''router'') (answers [''{none}'', ''fine''])
     (fst (run ''router'' [''{none}'', ''fine''] (ask True (JStr ''required'') hello))) = Some (EventStream es)
   \<and> last es = StreamDone \<and> StreamDone \<notin> set (butlast es)"
  using event_stream_ends_once [OF run_eq [of "''router''" "[''{none}'', ''fine'']"
    "ask True (JStr ''required'') hello"]]
  by (simp add: run_stream)

theorem streaming_is_refused_only_for_router_errors_witness:
  "\<exists>m. fst (run ''router'' [] (ask True JNull hello)) = Rejected (RouterFailed m)"
proof -
  have "fst (prepare (demo ''router'') (answers []) ''POST'' (Body (ask True JNull hello)) demo_server)
      \<noteq> Inl (RouterFailed ''closed'')" by code_simp
  then show ?thesis
    using streaming_is_refused_only_for_router_errors [OF run_eq [of "''router''" "[]" "ask True JNull hello",
      unfolded run_refused]] by (auto simp: run_refused)
qed

text \<open>The call that the ledger has as completed is issued again.\<close>

definition again :: prepared where
  "again = projr (fst (prepare (demo ''router'') (answers [''{call}'']) ''POST'' (Body (ask False JNull ls_done)) demo_server))"

definition again_call :: detectedToolCall where
  "again_call = \<lparr>dc_ID = ''call_0:ls:{}'', dc_Type = ''function'', dc_Name = ''ls'', dc_Arguments = ''{}''\<rparr>"

lemma again_facts:
  "fst (prepare (demo ''router'') (answers [''{call}'']) ''POST'' (Body (ask False JNull ls_done)) demo_server) = Inr again"
  "p_tools again \<noteq> []" "\<not> choice_none (demo ''router'') again"
  "decide (demo ''router'') again ''{call}'' = ([again_call], True)"
  "hasCompleted (lib (demo ''router'')) (p_ledger again) ''ls'' ''{}''"
  by code_simp+

theorem json_router_issues_completed_calls_witness:
  "fst (run ''router'' [''{call}''] (ask False JNull ls_done)) =
     CallsReply (response_model (p_body again)) None (issue_scoped (demo ''router'') again [] [again_call])
       (demo_result ''{call}'')
   \<and> hasCompleted (lib (demo ''router'')) (p_ledger again) (dc_Name again_call) (dc_Arguments again_call)"
proof -
  let ?r = "prepare (demo ''router'') (answers [''{call}'']) ''POST'' (Body (ask False JNull ls_done)) demo_server"
  have "?r = (Inr again, snd ?r)" using again_facts(1) by (metis prod.collapse)
  from json_router_issues_completed_calls [OF this, of "demo_result ''{call}''" "[again_call]"] show ?thesis
    by (simp add: again_facts run_def) (simp add: again_call_def again_facts)
qed

end
