(* ===== verification/ResponsesStream.thy ===== *)
theory ResponsesStream
  imports ProtocolResponses ChatReplies
begin

text \<open>
  \<open>streamResponsesAdapter\<close> (src/internal/web/protocol_handlers.go): it runs a streaming chat
  completion in another goroutine, reads its event stream through a pipe line by line, and writes
  the events of the Responses API.

  What the inner handler writes is a list of lines: comments, JSON payloads, the end marker.
  \<open>too_long\<close> tells which payloads do not fit into the scanner's buffer of 2 MB.  At such a line the
  scanner gives up; nobody reads the pipe any more, the inner handler blocks in its next write, and
  the adapter, which waits for it, never returns: \<open>Hangs\<close>.  \<open>Panics\<close>: the type assertion of a
  call's index failed.
\<close>

section \<open>State\<close>

record tcState =
  tc_ID :: string
  tc_Name :: string
  tc_Args :: string
  tc_Type :: string
  tc_ItemID :: string

text \<open>The random ids: of the response, the message, its content, the calls as they first appear, and
  the function calls as they are completed.\<close>

record stream_ids =
  si_resp :: string
  si_msg :: string
  si_txt :: string
  si_item :: "int \<Rightarrow> string"
  si_done :: "int \<Rightarrow> string"

record adapter =
  ad_text :: string
  ad_started :: bool
  ad_calls :: "(int \<times> tcState) list"
  ad_events :: "event list"

definition emit :: "string \<Rightarrow> obj \<Rightarrow> adapter \<Rightarrow> adapter" where
  "emit name rest st = st\<lparr>ad_events := ad_events st @ [event name rest]\<rparr>"

definition int_index :: "int \<Rightarrow> json" where
  "int_index i = JNum (Finite (of_int i))"

section \<open>One line\<close>

definition content_item :: "stream_ids \<Rightarrow> string \<Rightarrow> string \<Rightarrow> json" where
  "content_item I status t = JObj [(''type'', JStr ''message''), (''id'', JStr (''msg_'' @ si_msg I)),
     (''role'', JStr ''assistant''), (''status'', JStr status),
     (''content'', JArr [JObj [(''type'', JStr ''output_text''), (''id'', JStr (''txt_'' @ si_txt I)),
        (''text'', JStr t), (''annotations'', JArr [])]])]"

definition take_content :: "stream_ids \<Rightarrow> string \<Rightarrow> adapter \<Rightarrow> adapter" where
  "take_content I t st =
     (if t = [] then st
      else let st1 = st\<lparr>ad_text := ad_text st @ t\<rparr>;
               st2 = (if ad_started st1 then st1
                 else emit ''response.output_item.added'' [(''output_index'', jnat 0),
                   (''item'', content_item I ''in_progress'' [])] (st1\<lparr>ad_started := True\<rparr>))
           in emit ''response.output_text.delta'' [(''output_index'', jnat 0), (''content_index'', jnat 0),
                (''item_id'', JStr (''msg_'' @ si_msg I)), (''delta'', JStr t)] st2)"

text \<open>\<open>int(f)\<close> truncates.\<close>

definition index_of :: "json \<Rightarrow> int option" where
  "index_of v = (case v of
      JNum NegZero \<Rightarrow> Some 0
    | JNum (Finite r) \<Rightarrow> (case quotient_of r of (a, b) \<Rightarrow> Some (if a < 0 then - ((- a) div b) else a div b))
    | _ \<Rightarrow> None)"

definition new_call :: "stream_ids \<Rightarrow> int \<Rightarrow> string \<Rightarrow> tcState" where
  "new_call I i typ = \<lparr>tc_ID = [], tc_Name = [], tc_Args = [], tc_Type = typ,
     tc_ItemID = (if typ = ''custom'' then ''ctc_'' else ''fc_'') @ si_item I i\<rparr>"

definition opened_item :: "tcState \<Rightarrow> json" where
  "opened_item c =
     (if tc_Type c = ''custom''
      then JObj [(''type'', JStr ''custom_tool_call''), (''call_id'', JStr []), (''name'', JStr []),
             (''input'', JStr []), (''status'', JStr ''in_progress''), (''id'', JStr (tc_ItemID c))]
      else JObj [(''type'', JStr ''function_call''), (''call_id'', JStr []), (''name'', JStr []),
             (''arguments'', JStr []), (''status'', JStr ''in_progress''), (''id'', JStr (tc_ItemID c))])"

text \<open>The call a fragment belongs to, opened when it is the first.\<close>

definition open_call :: "stream_ids \<Rightarrow> int \<Rightarrow> obj \<Rightarrow> adapter \<Rightarrow> tcState \<times> adapter" where
  "open_call I i tc st =
     (case map_of (ad_calls st) i of
        Some c \<Rightarrow> (c, st)
      | None \<Rightarrow>
          let c = new_call I i (if get tc ''type'' = JStr ''custom'' then ''custom'' else ''function'')
          in (c, emit ''response.output_item.added'' [(''output_index'', int_index i), (''item'', opened_item c)] st))"

definition fill_call :: "obj \<Rightarrow> tcState \<Rightarrow> tcState" where
  "fill_call tc c =
     (let fn = as_obj (get tc ''function'') in
      c\<lparr>tc_ID := (case get tc ''id'' of JStr v \<Rightarrow> v | _ \<Rightarrow> tc_ID c),
        tc_Name := tc_Name c @ as_str (get fn ''name''),
        tc_Args := tc_Args c @ as_str (get fn ''arguments'')\<rparr>)"

definition take_call :: "stream_ids \<Rightarrow> json \<Rightarrow> adapter \<Rightarrow> adapter option" where
  "take_call I v st =
     (let tc = as_obj v in
      case index_of (get tc ''index'') of
        None \<Rightarrow> None
      | Some i \<Rightarrow>
          (case open_call I i tc st of (c, st1) \<Rightarrow>
             let c1 = fill_call tc c;
                 st2 = st1\<lparr>ad_calls := AList.update i c1 (ad_calls st1)\<rparr>
             in Some (case get (as_obj (get tc ''function'')) ''arguments'' of
                  JStr a \<Rightarrow>
                    if tc_Type c1 \<noteq> ''custom'' then
                      emit ''response.function_call_arguments.delta'' [(''output_index'', int_index i),
                        (''item_id'', JStr (tc_ItemID c1)), (''delta'', JStr a)] st2
                    else st2
                | _ \<Rightarrow> st2)))"

fun take_calls :: "stream_ids \<Rightarrow> json list \<Rightarrow> adapter \<Rightarrow> adapter option" where
  "take_calls I [] st = Some st"
| "take_calls I (v # vs) st = (case take_call I v st of None \<Rightarrow> None | Some st1 \<Rightarrow> take_calls I vs st1)"

definition take_chunk :: "stream_ids \<Rightarrow> obj \<Rightarrow> adapter \<Rightarrow> adapter option" where
  "take_chunk I ck st =
     (case as_arr (get ck ''choices'') of
        [] \<Rightarrow> Some st
      | c # _ \<Rightarrow>
          let delta = as_obj (get (as_obj c) ''delta'')
          in take_calls I (as_arr (get delta ''tool_calls'')) (take_content I (as_str (get delta ''content'')) st))"

section \<open>All lines\<close>

datatype scan_end = Panicked | Stuck | Scanned adapter

fun scan :: "stream_ids \<Rightarrow> (obj \<Rightarrow> bool) \<Rightarrow> sse list \<Rightarrow> adapter \<Rightarrow> scan_end" where
  "scan I too_long [] st = Scanned st"
| "scan I too_long (Data ck # es) st =
     (if too_long ck then Stuck
      else case take_chunk I ck st of None \<Rightarrow> Panicked | Some st1 \<Rightarrow> scan I too_long es st1)"
| "scan I too_long (_ # es) st = scan I too_long es st"

section \<open>The end\<close>

definition failed_event :: "stream_ids \<Rightarrow> string \<Rightarrow> json \<Rightarrow> string \<Rightarrow> event" where
  "failed_event I model code msg = event ''response.failed''
     [(''response'', JObj [(''id'', JStr (''resp_'' @ si_resp I)), (''object'', JStr ''response''),
        (''status'', JStr ''failed''), (''model'', JStr model),
        (''error'', JObj [(''code'', code), (''message'', JStr msg)])])]"

text \<open>The item and the last events of one call.\<close>

definition close_call :: "golib \<Rightarrow> stream_ids \<Rightarrow> int \<Rightarrow> tcState \<Rightarrow> json \<times> event list" where
  "close_call L I i c =
     (let ev = (\<lambda>name rest. event name ((''output_index'', int_index i) # rest)) in
      if tc_Type c = ''custom'' then
        let input = customToolInput L (JStr (tc_Args c));
            item = JObj [(''type'', JStr ''custom_tool_call''), (''id'', JStr (tc_ItemID c)),
              (''call_id'', JStr (tc_ID c)), (''name'', JStr (tc_Name c)), (''input'', JStr input),
              (''status'', JStr ''completed'')]
        in (item,
            [ev ''response.custom_tool_call_input.delta'' [(''item_id'', JStr (tc_ItemID c)), (''delta'', JStr input)],
             ev ''response.custom_tool_call_input.done'' [(''item_id'', JStr (tc_ItemID c)), (''input'', JStr input)],
             ev ''response.output_item.done'' [(''item'', item)]])
      else
        let item_id = JStr (''fc_'' @ si_done I i);
            item = JObj [(''type'', JStr ''function_call''), (''id'', item_id), (''call_id'', JStr (tc_ID c)),
              (''name'', JStr (tc_Name c)), (''arguments'', JStr (tc_Args c)), (''status'', JStr ''completed'')]
        in (item,
            [ev ''response.output_item.added'' [(''item'', JObj [(''type'', JStr ''function_call''),
               (''id'', item_id), (''call_id'', JStr (tc_ID c)), (''name'', JStr (tc_Name c)),
               (''arguments'', JStr []), (''status'', JStr ''in_progress'')])],
             ev ''response.function_call_arguments.delta'' [(''item_id'', item_id), (''delta'', JStr (tc_Args c))],
             ev ''response.function_call_arguments.done'' [(''item_id'', item_id), (''arguments'', JStr (tc_Args c))],
             ev ''response.output_item.done'' [(''item'', item)]]))"

text \<open>The loop over \<open>0 .. len(calls)-1\<close> leaves out an index without a call.\<close>

definition close_calls :: "golib \<Rightarrow> stream_ids \<Rightarrow> (int \<times> tcState) list \<Rightarrow> (json \<times> event list) list" where
  "close_calls L I calls =
     concat (map (\<lambda>i. case map_of calls i of None \<Rightarrow> [] | Some c \<Rightarrow> [close_call L I i c])
       (map int [0..<length calls]))"

definition close_text :: "stream_ids \<Rightarrow> adapter \<Rightarrow> json \<times> event list" where
  "close_text I st =
     (let t = ad_text st;
          item = content_item I ''completed'' t
      in (item,
          (if ad_started st then []
           else [event ''response.output_item.added'' [(''output_index'', jnat 0),
                   (''item'', content_item I ''in_progress'' [])],
                 event ''response.output_text.delta'' [(''output_index'', jnat 0), (''content_index'', jnat 0),
                   (''item_id'', JStr (''msg_'' @ si_msg I)), (''delta'', JStr t)]])
          @ [event ''response.output_text.done'' [(''output_index'', jnat 0), (''content_index'', jnat 0),
               (''item_id'', JStr (''msg_'' @ si_msg I)), (''text'', JStr t)],
             event ''response.output_item.done'' [(''output_index'', jnat 0), (''item'', item)]]))"

definition usage_text :: "adapter \<Rightarrow> string" where
  "usage_text st = ad_text st @ concat (map (\<lambda>(_, c). tc_Name c @ tc_Args c) (ad_calls st))"

definition finish ::
    "golib \<Rightarrow> usagelib \<Rightarrow> stream_ids \<Rightarrow> int \<Rightarrow> string \<Rightarrow> oaiReq \<Rightarrow> nat \<Rightarrow> adapter \<Rightarrow> event list" where
  "finish L U I created model o' status st =
     (if 400 \<le> status then
        ad_events st @ [failed_event I model (jnat status) ''inner chat request failed'']
      else if ad_calls st = [] \<and> trim_space (ad_text st) = [] then
        ad_events st @ [failed_event I model (JStr ''empty_upstream_response'')
          ''ChatHub returned no text or tool call'']
      else
        let closed = (if ad_calls st \<noteq> [] then close_calls L I (ad_calls st) else [close_text I st])
        in case estimateResponsesUsage L U model (oq_Messages o') (oq_Tools o') (oq_ToolChoice o')
             (usage_text st) of (usage, source) \<Rightarrow>
           ad_events st @ concat (map snd closed)
           @ [event ''response.completed'' [(''response'', JObj (response_object (''resp_'' @ si_resp I)
                created model (map fst closed) (JObj usage) source))]])"

datatype adapter_end = Hangs | Panics | Ends "event list"

definition adapter_start :: "stream_ids \<Rightarrow> string \<Rightarrow> adapter" where
  "adapter_start I model = \<lparr>ad_text = [], ad_started = False, ad_calls = [],
     ad_events = [response_created (''resp_'' @ si_resp I) model]\<rparr>"

text \<open>\<open>status\<close> and \<open>es\<close> are what the inner handler answers.\<close>

definition streamResponsesAdapter ::
    "golib \<Rightarrow> usagelib \<Rightarrow> stream_ids \<Rightarrow> int \<Rightarrow> (obj \<Rightarrow> bool) \<Rightarrow> string \<Rightarrow> oaiReq \<Rightarrow> nat \<Rightarrow> sse list \<Rightarrow> adapter_end" where
  "streamResponsesAdapter L U I created too_long model o' status es =
     (case scan I too_long es (adapter_start I model) of
        Panicked \<Rightarrow> Panics
      | Stuck \<Rightarrow> Hangs
      | Scanned st \<Rightarrow> Ends (finish L U I created model o' status st))"

text \<open>What the inner handler writes for a reply; the body of a refusal has no payload line.\<close>

definition inner_answer :: "gateway \<Rightarrow> world \<Rightarrow> chat_reply \<Rightarrow> nat \<times> sse list" where
  "inner_answer G w r =
     (case r of
        Rejected e \<Rightarrow> (refusal_status e, [])
      | _ \<Rightarrow> (200, case render G w r of Some (EventStream es) \<Rightarrow> es | _ \<Rightarrow> []))"

section \<open>The scan\<close>

text \<open>The payloads the inner handler writes have an index for every call.\<close>

definition indexed :: "obj \<Rightarrow> bool" where
  "indexed ck \<longleftrightarrow> (case as_arr (get ck ''choices'') of
      [] \<Rightarrow> True
    | c # _ \<Rightarrow> list_all (\<lambda>v. index_of (get (as_obj v) ''index'') \<noteq> None)
        (as_arr (get (as_obj (get (as_obj c) ''delta'')) ''tool_calls'')))"

fun readable :: "(obj \<Rightarrow> bool) \<Rightarrow> sse \<Rightarrow> bool" where
  "readable too_long (Data ck) = (\<not> too_long ck \<and> indexed ck)"
| "readable too_long _ = True"

fun line_text :: "sse \<Rightarrow> string" where
  "line_text (Data ck) = (case as_arr (get ck ''choices'') of
      [] \<Rightarrow> [] | c # _ \<Rightarrow> as_str (get (as_obj (get (as_obj c) ''delta'')) ''content''))"
| "line_text _ = []"

definition terminal :: "event \<Rightarrow> bool" where
  "terminal e \<longleftrightarrow> fst e \<in> {''response.completed'', ''response.failed''}"

definition text_deltas :: "event list \<Rightarrow> string" where
  "text_deltas evs = concat (map (\<lambda>(name, e).
     if name = ''response.output_text.delta'' then as_str (get e ''delta'') else []) evs)"

lemma text_deltas_append [simp]: "text_deltas (xs @ ys) = text_deltas xs @ text_deltas ys"
  by (simp add: text_deltas_def)

lemma text_deltas_event [simp]:
  "text_deltas [event name rest] = (if name = ''response.output_text.delta'' then as_str (get rest ''delta'') else [])"
  by (simp add: text_deltas_def event_def)

lemma terminal_event [simp]: "terminal (event name rest) \<longleftrightarrow> name \<in> {''response.completed'', ''response.failed''}"
  by (simp add: terminal_def event_def)

text \<open>What every step keeps: nothing terminal was sent, and the text sent is the text received.\<close>

definition adapter_ok :: "adapter \<Rightarrow> bool" where
  "adapter_ok st \<longleftrightarrow> list_all (\<lambda>e. \<not> terminal e) (ad_events st) \<and> text_deltas (ad_events st) = ad_text st
     \<and> (ad_started st \<longleftrightarrow> ad_text st \<noteq> [])"

lemma emit_fields [simp]:
  "ad_text (emit n r st) = ad_text st" "ad_started (emit n r st) = ad_started st"
  "ad_calls (emit n r st) = ad_calls st" "ad_events (emit n r st) = ad_events st @ [event n r]"
  by (simp_all add: emit_def)

lemma take_content_ok: "adapter_ok st \<Longrightarrow> adapter_ok (take_content I t st)"
  by (auto simp: take_content_def adapter_ok_def Let_def)

lemma take_content_text [simp]: "ad_text (take_content I t st) = ad_text st @ t"
  by (simp add: take_content_def Let_def)

lemma emit_ok:
  "adapter_ok st \<Longrightarrow> name \<notin> {''response.completed'', ''response.failed'', ''response.output_text.delta''} \<Longrightarrow>
    adapter_ok (emit name rest st)"
  by (simp add: adapter_ok_def)

lemma calls_ok [simp]: "adapter_ok (st\<lparr>ad_calls := cs\<rparr>) = adapter_ok st"
  by (simp add: adapter_ok_def)

lemma open_call_keeps:
  assumes "open_call I i tc st = (c, st1)"
  shows "ad_text st1 = ad_text st" and "adapter_ok st \<Longrightarrow> adapter_ok st1"
  using assms by (auto simp: open_call_def Let_def emit_ok split: option.splits)

lemma take_call_keeps:
  assumes "take_call I v st = Some st1"
  shows "ad_text st1 = ad_text st" and "adapter_ok st \<Longrightarrow> adapter_ok st1"
proof -
  from assms obtain i where i: "index_of (get (as_obj v) ''index'') = Some i"
    by (auto simp: take_call_def Let_def split: option.splits)
  obtain c st0 where o': "open_call I i (as_obj v) st = (c, st0)" by fastforce
  define st2 where st2: "st2 = st0\<lparr>ad_calls := AList.update i (fill_call (as_obj v) c) (ad_calls st0)\<rparr>"
  have st1: "st1 = st2 \<or> (\<exists>rest. st1 = emit ''response.function_call_arguments.delta'' rest st2)"
    using assms by (simp add: take_call_def Let_def i o' flip: st2 split: json.splits if_splits) blast
  from open_call_keeps [OF o'] st2 have "ad_text st2 = ad_text st" "adapter_ok st \<Longrightarrow> adapter_ok st2" by auto
  with st1 show "ad_text st1 = ad_text st" "adapter_ok st \<Longrightarrow> adapter_ok st1" by (auto simp: emit_ok)
qed

lemma take_call_total: "index_of (get (as_obj v) ''index'') \<noteq> None \<Longrightarrow> \<exists>st1. take_call I v st = Some st1"
  by (auto simp: take_call_def Let_def split: prod.split)

lemma take_calls_keeps:
  "take_calls I vs st = Some st1 \<Longrightarrow> ad_text st1 = ad_text st \<and> (adapter_ok st \<longrightarrow> adapter_ok st1)"
  by (induction vs arbitrary: st) (auto split: option.splits dest: take_call_keeps)

lemma take_calls_total:
  "list_all (\<lambda>v. index_of (get (as_obj v) ''index'') \<noteq> None) vs \<Longrightarrow> \<exists>st1. take_calls I vs st = Some st1"
proof (induction vs arbitrary: st)
  case (Cons v vs)
  then obtain st1 where "take_call I v st = Some st1" using take_call_total by force
  with Cons show ?case by simp
qed simp

lemma take_chunk_keeps:
  assumes "take_chunk I ck st = Some st1"
  shows "ad_text st1 = ad_text st @ line_text (Data ck)" and "adapter_ok st \<Longrightarrow> adapter_ok st1"
  using assms take_calls_keeps take_content_ok
  by (auto simp: take_chunk_def Let_def split: list.splits)

lemma take_chunk_total: "indexed ck \<Longrightarrow> \<exists>st1. take_chunk I ck st = Some st1"
  by (auto simp: take_chunk_def indexed_def Let_def intro: take_calls_total split: list.splits)

lemma scan_total:
  "list_all (readable too_long) es \<Longrightarrow> adapter_ok st \<Longrightarrow>
    \<exists>st1. scan I too_long es st = Scanned st1 \<and> adapter_ok st1
      \<and> ad_text st1 = ad_text st @ concat (map line_text es)"
proof (induction I too_long es st rule: scan.induct)
  case (2 I too_long ck es st)
  then obtain st1 where t: "take_chunk I ck st = Some st1" using take_chunk_total by force
  from take_chunk_keeps [OF t] 2(3) have "adapter_ok st1" "ad_text st1 = ad_text st @ line_text (Data ck)" by auto
  with 2(1) [OF _ t] 2(2) t show ?case by simp
qed simp_all

lemma scan_stuck:
  "list_all (readable too_long) pre \<Longrightarrow> too_long ck \<Longrightarrow> scan I too_long (pre @ Data ck # post) st = Stuck"
proof (induction I too_long pre st rule: scan.induct)
  case (2 I too_long c es st)
  then obtain st1 where "take_chunk I c st = Some st1" using take_chunk_total by force
  with 2 show ?case by simp
qed simp_all

section \<open>The end of the events\<close>

lemma close_call_events:
  "list_all (\<lambda>e. \<not> terminal e) (snd (close_call L I i c))" "text_deltas (snd (close_call L I i c)) = []"
  by (simp_all add: close_call_def text_deltas_def event_def terminal_def Let_def)

lemma close_calls_events:
  "list_all (\<lambda>e. \<not> terminal e) (concat (map snd (close_calls L I calls)))"
  "text_deltas (concat (map snd (close_calls L I calls))) = []"
proof -
  have "list_all (\<lambda>e. \<not> terminal e) (snd p) \<and> text_deltas (snd p) = []" if "p \<in> set (close_calls L I calls)" for p
    using that close_call_events by (auto simp: close_calls_def split: option.splits)
  then show "list_all (\<lambda>e. \<not> terminal e) (concat (map snd (close_calls L I calls)))"
    "text_deltas (concat (map snd (close_calls L I calls))) = []"
    by (auto simp: list_all_iff text_deltas_def)
qed

lemma close_text_events:
  "list_all (\<lambda>e. \<not> terminal e) (snd (close_text I st))"
  "ad_started st \<Longrightarrow> text_deltas (snd (close_text I st)) = []"
  by (auto simp: close_text_def text_deltas_def event_def terminal_def Let_def)

lemma finish_ends:
  assumes "adapter_ok st"
  obtains body e where "finish L U I created model o' status st = body @ [e]" "terminal e"
    "list_all (\<lambda>e. \<not> terminal e) body"
    "fst e = ''response.completed'' \<longleftrightarrow> status < 400 \<and> (ad_calls st \<noteq> [] \<or> trim_space (ad_text st) \<noteq> [])"
    "fst e = ''response.completed'' \<Longrightarrow> text_deltas (body @ [e]) = ad_text st"
proof -
  let ?closed = "if ad_calls st \<noteq> [] then close_calls L I (ad_calls st) else [close_text I st]"
  obtain usage source where u: "estimateResponsesUsage L U model (oq_Messages o') (oq_Tools o') (oq_ToolChoice o')
      (usage_text st) = (usage, source)" by fastforce
  have st: "list_all (\<lambda>e. \<not> terminal e) (ad_events st)" "text_deltas (ad_events st) = ad_text st"
    "ad_started st \<longleftrightarrow> ad_text st \<noteq> []" using assms by (auto simp: adapter_ok_def)
  consider "400 \<le> status" | "status < 400" "ad_calls st = []" "trim_space (ad_text st) = []"
    | "status < 400" "ad_calls st \<noteq> [] \<or> trim_space (ad_text st) \<noteq> []" by linarith
  then show ?thesis
  proof cases
    case 1
    then show ?thesis
      by (intro that [of "ad_events st" "failed_event I model (jnat status) ''inner chat request failed''"])
        (simp_all add: finish_def failed_event_def st, simp add: event_def)
  next
    case 2
    then show ?thesis
      by (intro that [of "ad_events st" "failed_event I model (JStr ''empty_upstream_response'')
          ''ChatHub returned no text or tool call''"])
        (simp_all add: finish_def failed_event_def st, simp add: event_def)
  next
    case 3
    have closed: "list_all (\<lambda>e. \<not> terminal e) (concat (map snd ?closed))"
      using close_calls_events close_text_events by simp
    have texts: "text_deltas (concat (map snd ?closed)) = []"
      using 3 close_calls_events close_text_events st(3) by auto
    let ?e = "event ''response.completed'' [(''response'', JObj (response_object (''resp_'' @ si_resp I)
      created model (map fst ?closed) (JObj usage) source))]"
    have nf: "\<not> 400 \<le> status" "\<not> (ad_calls st = [] \<and> trim_space (ad_text st) = [])" using 3 by auto
    have f: "finish L U I created model o' status st = (ad_events st @ concat (map snd ?closed)) @ [?e]"
      unfolding finish_def Let_def u using nf by (simp only: if_False prod.case append_assoc)
    show ?thesis
    proof (rule that [OF f])
      show "terminal ?e" by simp
      show "list_all (\<lambda>e. \<not> terminal e) (ad_events st @ concat (map snd ?closed))"
        using closed st(1) by (simp only: list_all_append)
      show "fst ?e = ''response.completed'' \<longleftrightarrow> status < 400 \<and> (ad_calls st \<noteq> [] \<or> trim_space (ad_text st) \<noteq> [])"
        using 3 by (simp add: event_def)
      have "text_deltas [?e] = []" by simp
      then show "text_deltas ((ad_events st @ concat (map snd ?closed)) @ [?e]) = ad_text st"
        using texts st(2) by (simp only: text_deltas_append append_Nil2)
    qed
  qed
qed

section \<open>What the inner handler writes can be read\<close>

fun has_index :: "sse \<Rightarrow> bool" where
  "has_index (Data ck) = indexed ck"
| "has_index _ = True"

lemma readable_iff:
  "list_all (readable too_long) es \<longleftrightarrow> list_all has_index es \<and> (\<forall>ck. Data ck \<in> set es \<longrightarrow> \<not> too_long ck)"
proof (induction es)
  case (Cons e es)
  then show ?case by (cases e) auto
qed simp

lemma indexed_chunk [simp]:
  "indexed (chunk cid t model delta fin) \<longleftrightarrow>
     list_all (\<lambda>v. index_of (get (as_obj v) ''index'') \<noteq> None) (as_arr (get delta ''tool_calls''))"
  by (simp add: indexed_def chunk_def)

lemma index_of_jnat [simp]: "index_of (jnat n) = Some (int n)"
proof -
  have "quotient_of (of_nat n) = (int n, 1)" using quotient_of_int [of "int n"] by simp
  then show ?thesis by (simp add: index_of_def jnat_def)
qed

lemma text_chunks_index: "list_all has_index (text_chunks cid created model parts)"
  by (auto simp: text_chunks_def list_all_iff)

lemma tool_stream_index: "list_all has_index (tool_stream L cid created model calls preamble_sent)"
  by (auto simp: tool_stream_def list_all_iff call_delta_def Let_def)

fun reply_index :: "chat_reply \<Rightarrow> bool" where
  "reply_index (CallsReply model (Some (before, preamble)) calls res) = list_all has_index before"
| "reply_index (StreamedText es) = list_all has_index es"
| "reply_index (StreamBroken es) = list_all has_index es"
| "reply_index _ = True"

lemma stream_answer_index: "reply_index (fst (stream_answer G w p s))"
  using text_chunks_index
  by (auto simp: stream_answer_def Let_def split: prod.splits sum.splits stream_reply.splits)

lemma stream_path_index: "reply_index (fst (stream_path G w p s))"
  using stream_answer_index by (auto simp: stream_path_def split: prod.splits sum.splits)

lemma handler_index:
  assumes "openaiChat G w http_method input s = (r, s1)"
  shows "reply_index r"
  using assms
proof (cases rule: handler_cases)
  case (streaming p t)
  with stream_path_index [of G w p t] show ?thesis by simp
next
  case (plain p t)
  with json_path_reply [OF plain(3)] show ?thesis by (auto simp: text_reply_def Let_def)
qed simp

lemma inner_answer_index:
  assumes "reply_index r" and "inner_answer G w r = (status, es)"
  shows "list_all has_index es"
  using assms tool_stream_index
  by (cases "(G, w, r)" rule: render.cases)
    (auto simp: inner_answer_def writeToolResponse_def)

text \<open>The adapter on what a chat completion writes, when every line fits.\<close>

lemma adapter_ends:
  assumes "openaiChat G w http_method input s = (r, s1)" and "inner_answer G w r = (status, es)"
    and "\<forall>ck. Data ck \<in> set es \<longrightarrow> \<not> too_long ck"
  obtains body e and st :: adapter
  where "streamResponsesAdapter L U I created too_long model o' status es = Ends (body @ [e])"
    "terminal e" "list_all (\<lambda>e. \<not> terminal e) body" "ad_text st = concat (map line_text es)"
    "fst e = ''response.completed'' \<longleftrightarrow> status < 400 \<and> (ad_calls st \<noteq> [] \<or> trim_space (ad_text st) \<noteq> [])"
    "fst e = ''response.completed'' \<Longrightarrow> text_deltas (body @ [e]) = ad_text st"
proof -
  let ?start = "adapter_start I model"
  have "list_all (readable too_long) es"
    using inner_answer_index [OF handler_index [OF assms(1)] assms(2)] assms(3) by (simp add: readable_iff)
  moreover have "adapter_ok ?start" "ad_text ?start = []"
    by (simp_all add: adapter_start_def adapter_ok_def response_created_def)
  ultimately obtain st where st: "scan I too_long es ?start = Scanned st" "adapter_ok st"
      "ad_text st = concat (map line_text es)" using scan_total [of too_long es ?start I] by auto
  obtain body e where f: "finish L U I created model o' status st = body @ [e]" "terminal e"
    "list_all (\<lambda>e. \<not> terminal e) body"
    "fst e = ''response.completed'' \<longleftrightarrow> status < 400 \<and> (ad_calls st \<noteq> [] \<or> trim_space (ad_text st) \<noteq> [])"
    "fst e = ''response.completed'' \<Longrightarrow> text_deltas (body @ [e]) = ad_text st"
    using finish_ends [OF st(2)] by blast
  have a: "streamResponsesAdapter L U I created too_long model o' status es = Ends (body @ [e])"
    by (simp add: streamResponsesAdapter_def st(1) f(1))
  have "ad_text st = concat (map line_text es)" using st(3) \<open>ad_text ?start = []\<close> by simp
  from that [OF a f(2,3) this f(4)] f(5) show ?thesis by blast
qed

section \<open>Properties\<close>

text \<open>
  C5: a streamed answer of the Responses API ends, and with exactly one terminal event, its last one,
  provided no line of the chat completion behind it is too long for the scanner; when it is reported
  as completed, the text deltas add up to the text the chat completion sent.
\<close>
theorem responses_stream_has_one_terminal_event:
  assumes "openaiChat G w http_method input s = (r, s1)" and "inner_answer G w r = (status, es)"
    and "\<forall>ck. Data ck \<in> set es \<longrightarrow> \<not> too_long ck"
  shows "\<exists>body e. streamResponsesAdapter L U I created too_long model o' status es = Ends (body @ [e])
    \<and> terminal e \<and> list_all (\<lambda>e. \<not> terminal e) body
    \<and> (fst e = ''response.completed'' \<longrightarrow> text_deltas (body @ [e]) = concat (map line_text es))"
proof -
  show ?thesis
  proof (rule adapter_ends [OF assms, of L U I created model o'])
    fix body e and st :: adapter
    assume "streamResponsesAdapter L U I created too_long model o' status es = Ends (body @ [e])"
      "terminal e" "list_all (\<lambda>e. \<not> terminal e) body" "ad_text st = concat (map line_text es)"
      "fst e = ''response.completed'' \<Longrightarrow> text_deltas (body @ [e]) = ad_text st"
    then show ?thesis by (intro exI [of _ body] exI [of _ e]) simp
  qed
qed


text \<open>
  C13: when the upstream turn fails in the middle of an answer, the Responses stream is reported as
  completed, with the part of the text that had arrived.
\<close>
theorem broken_stream_is_reported_completed:
  assumes "openaiChat G w http_method input s = (StreamBroken es, s1)"
    and "trim_space (concat (map line_text es)) \<noteq> []" and "\<forall>ck. Data ck \<in> set es \<longrightarrow> \<not> too_long ck"
  shows "\<exists>body e. streamResponsesAdapter L U I created too_long model o' (fst (inner_answer G w (StreamBroken es)))
      (snd (inner_answer G w (StreamBroken es))) = Ends (body @ [e])
    \<and> fst e = ''response.completed'' \<and> text_deltas (body @ [e]) = concat (map line_text es)"
proof -
  have i: "inner_answer G w (StreamBroken es) = (200, es)" by (simp add: inner_answer_def)
  show ?thesis
  proof (rule adapter_ends [OF assms(1) i assms(3), of L U I created model o'])
    fix body e and st :: adapter
    assume "streamResponsesAdapter L U I created too_long model o' 200 es = Ends (body @ [e])"
      and "ad_text st = concat (map line_text es)"
      and "fst e = ''response.completed'' \<longleftrightarrow> (200::nat) < 400 \<and> (ad_calls st \<noteq> [] \<or> trim_space (ad_text st) \<noteq> [])"
      and "fst e = ''response.completed'' \<Longrightarrow> text_deltas (body @ [e]) = ad_text st"
    then show ?thesis using assms(2) by (intro exI [of _ body] exI [of _ e]) (simp add: i)
  qed
qed

text \<open>The argument fragments a client collects for one output item.\<close>

definition argument_deltas :: "event list \<Rightarrow> string list" where
  "argument_deltas evs = concat (map (\<lambda>(name, e).
     if name = ''response.function_call_arguments.delta'' then [as_str (get e ''delta'')] else []) evs)"

definition added_ids :: "event list \<Rightarrow> json list" where
  "added_ids evs = concat (map (\<lambda>(name, e).
     if name = ''response.output_item.added'' then [get (as_obj (get e ''item'')) ''id''] else []) evs)"

text \<open>
  a streamed function call is announced twice, as two items with different ids at the same output
  index, and its arguments are delivered once for each.
\<close>
theorem streamed_function_call_is_announced_twice:
  assumes "dc_Type c \<noteq> ''custom''" and "\<forall>ck. \<not> too_long ck"
  shows "\<exists>evs. streamResponsesAdapter L U I created too_long model o' 200
      (tool_stream L cid t m [c] True) = Ends evs
    \<and> argument_deltas evs = [dc_Arguments c, dc_Arguments c]
    \<and> added_ids evs = [JStr (''fc_'' @ si_item I 0), JStr (''fc_'' @ si_done I 0)]"
proof -
  let ?start = "adapter_start I model"
  let ?c = "\<lparr>tc_ID = dc_ID c, tc_Name = dc_Name c, tc_Args = dc_Arguments c, tc_Type = ''function'',
    tc_ItemID = ''fc_'' @ si_item I 0\<rparr>"
  let ?evs = "[response_created (''resp_'' @ si_resp I) model,
     event ''response.output_item.added'' [(''output_index'', int_index 0), (''item'', opened_item (new_call I 0 ''function''))],
     event ''response.function_call_arguments.delta'' [(''output_index'', int_index 0),
       (''item_id'', JStr (''fc_'' @ si_item I 0)), (''delta'', JStr (dc_Arguments c))]]"
  let ?st = "\<lparr>ad_text = [], ad_started = False, ad_calls = [(0, ?c)], ad_events = ?evs\<rparr>"
  have call: "take_call I (JObj [(''index'', jnat 0), (''id'', JStr (dc_ID c)),
       (''type'', JStr (if dc_Type c = [] then ''function'' else dc_Type c)),
       (''function'', JObj [(''name'', JStr (dc_Name c)), (''arguments'', JStr (dc_Arguments c))])]) ?start = Some ?st"
    using assms(1) by (simp add: take_call_def open_call_def new_call_def fill_call_def emit_def adapter_start_def Let_def)
  have one: "take_chunk I (chunk cid k m (call_delta 0 c) JNull) ?start = Some ?st" for k
    using call by (simp add: take_chunk_def chunk_def call_delta_def take_content_def Let_def)
  have last: "take_chunk I (chunk cid k m [] fin) s = Some s" for k fin s
    by (simp add: take_chunk_def chunk_def take_content_def Let_def)
  have scan: "scan I too_long (tool_stream L cid t m [c] True) ?start = Scanned ?st"
    using assms(2) one last by (simp add: tool_stream_def Let_def)
  obtain usage source where u: "estimateResponsesUsage L U model (oq_Messages o') (oq_Tools o') (oq_ToolChoice o')
      (usage_text ?st) = (usage, source)" by fastforce
  let ?done = "close_calls L I [(0, ?c)]"
  have f: "finish L U I created model o' 200 ?st = ?evs @ concat (map snd ?done)
      @ [event ''response.completed'' [(''response'', JObj (response_object (''resp_'' @ si_resp I)
           created model (map fst ?done) (JObj usage) source))]]"
    unfolding finish_def Let_def u by simp
  have closed: "?done = [close_call L I 0 ?c]" by (simp add: close_calls_def)
  have a: "argument_deltas (xs @ ys) = argument_deltas xs @ argument_deltas ys"
    "added_ids (xs @ ys) = added_ids xs @ added_ids ys" for xs ys
    by (simp_all add: argument_deltas_def added_ids_def)
  have d: "argument_deltas ?evs = [dc_Arguments c]" "added_ids ?evs = [JStr (''fc_'' @ si_item I 0)]"
    "argument_deltas [event ''response.completed'' x] = []" "added_ids [event ''response.completed'' x] = []"
    "argument_deltas (snd (close_call L I 0 ?c)) = [dc_Arguments c]"
    "added_ids (snd (close_call L I 0 ?c)) = [JStr (''fc_'' @ si_done I 0)]" for x
    by (simp_all add: argument_deltas_def added_ids_def event_def response_created_def opened_item_def
        new_call_def close_call_def Let_def)
  have "argument_deltas (finish L U I created model o' 200 ?st) = [dc_Arguments c, dc_Arguments c]"
    "added_ids (finish L U I created model o' 200 ?st) = [JStr (''fc_'' @ si_item I 0), JStr (''fc_'' @ si_done I 0)]"
    unfolding f closed by (simp_all only: a d list.map concat.simps append_Nil2, simp_all)
  then show ?thesis
    by (intro exI [of _ "finish L U I created model o' 200 ?st"]) (simp add: streamResponsesAdapter_def scan)
qed

section \<open>Witnesses\<close>

definition demo_ids :: stream_ids where
  "demo_ids = \<lparr>si_resp = ''r'', si_msg = ''m'', si_txt = ''t'', si_item = (\<lambda>_. ''i''), si_done = (\<lambda>_. ''d'')\<rparr>"

definition no_tokenizer :: usagelib where
  "no_tokenizer = \<lparr>gpt_encode = None, tool_text = (\<lambda>_. ''{}'')\<rparr>"

definition fine_chunk :: obj where
  "fine_chunk = chunk ''chatcmpl-u'' 0 ''m365-copilot''
     [(''content'', JStr ''fine''), (''role'', JStr ''assistant'')] JNull"

lemma fine_answer:
  "inner_answer G w (StreamedText [Comment ''connected'', Data fine_chunk, StreamDone])
     = (200, [Comment ''connected'', Data fine_chunk, StreamDone])"
  by (simp add: inner_answer_def)

lemmas fine_run = run_eq [of "''router''" "[''{none}'', ''fine'']" "ask True (JStr ''required'') hello",
  unfolded run_stream, folded fine_chunk_def]

theorem responses_stream_has_one_terminal_event_witness:
  "\<exists>body e. streamResponsesAdapter demo_lib no_tokenizer demo_ids 0 (\<lambda>_. False) ''m'' zero_request 200
      [Comment ''connected'', Data fine_chunk, StreamDone] = Ends (body @ [e])
    \<and> terminal e \<and> list_all (\<lambda>e. \<not> terminal e) body"
  using responses_stream_has_one_terminal_event [OF fine_run fine_answer,
    of "\<lambda>_. False" demo_lib no_tokenizer demo_ids 0 "''m''" zero_request] by blast


definition breaks :: world where
  "breaks = (answers [])\<lparr>upstream := (\<lambda>i req. (hello_events, Inl ''reset''))\<rparr>"

definition hello_chunk :: obj where
  "hello_chunk = chunk ''chatcmpl-u'' 0 ''m365-copilot''
     [(''content'', JStr ''Hello, world ''), (''role'', JStr ''assistant'')] JNull"

lemma broken_run:
  "fst (openaiChat (demo ''native'') breaks ''POST'' (Body (ask True JNull hello)) demo_server)
     = StreamBroken [Comment ''connected'', Data hello_chunk]"
  by code_simp

lemma hello_text: "line_text (Data hello_chunk) = ''Hello, world ''" "trim_space ''Hello, world '' = ''Hello, world''"
  by code_simp+

theorem broken_stream_is_reported_completed_witness:
  "\<exists>body e. streamResponsesAdapter demo_lib no_tokenizer demo_ids 0 (\<lambda>_. False) ''m'' zero_request 200
      [Comment ''connected'', Data hello_chunk] = Ends (body @ [e])
    \<and> fst e = ''response.completed'' \<and> text_deltas (body @ [e]) = ''Hello, world ''"
proof -
  let ?r = "openaiChat (demo ''native'') breaks ''POST'' (Body (ask True JNull hello)) demo_server"
  have "?r = (StreamBroken [Comment ''connected'', Data hello_chunk], snd ?r)"
    using broken_run by (metis prod.collapse)
  from broken_stream_is_reported_completed [OF this, of "\<lambda>_. False" demo_lib no_tokenizer demo_ids 0 "''m''" zero_request]
  show ?thesis by (simp add: hello_text inner_answer_def del: line_text.simps(1))
qed

theorem streamed_function_call_is_announced_twice_witness:
  "\<exists>evs. streamResponsesAdapter demo_lib no_tokenizer demo_ids 0 (\<lambda>_. False) ''m'' zero_request 200
      (tool_stream demo_lib ''c'' (\<lambda>_. 0) ''m'' [ls_call] True) = Ends evs
    \<and> argument_deltas evs = [''{}'', ''{}''] \<and> added_ids evs = [JStr ''fc_i'', JStr ''fc_d'']"
  using streamed_function_call_is_announced_twice [of ls_call "\<lambda>_. False" demo_lib no_tokenizer demo_ids 0 "''m''"
    zero_request "''c''" "\<lambda>_. 0" "''m''"]
  by (simp add: ls_call_def demo_ids_def)

end
