(* ===== verification/ProtocolHandlers.thy ===== *)
theory ProtocolHandlers
  imports ResponsesStream
begin

text \<open>
  The handlers of the Responses and the Messages API (\<open>responses\<close>, \<open>anthropicMessages\<close> of
  src/internal/web/protocol_handlers.go): convert the request, run a chat completion on it, convert
  its answer, and keep the history that a later request can name by \<open>previous_response_id\<close>.

  The inner handler reads the converted request from its JSON form: \<open>wl_request\<close> is what it reads,
  the request again unless that form is larger than 10 MB.  \<open>wl_refusal\<close> is the body of a refusal,
  \<open>wl_error\<close> the text of a decoding error.
\<close>

record wirelib =
  wl_request :: "oaiReq \<Rightarrow> body_read"
  wl_refusal :: "refusal \<Rightarrow> string"
  wl_error :: string

record wire_server =
  ws_server :: server
  ws_store :: "(string \<times> oaiMsg list) list"

section \<open>The inner request\<close>

datatype adapter_result = InnerFailed nat string | InnerGarbled | InnerBody obj

definition runOpenAIAdapter ::
    "gateway \<Rightarrow> wirelib \<Rightarrow> world \<Rightarrow> oaiReq \<Rightarrow> server \<Rightarrow> adapter_result \<times> server" where
  "runOpenAIAdapter G W w o' s =
     (case openaiChat G w ''POST'' (wl_request W (o'\<lparr>oq_Stream := False\<rparr>)) s of (r, s1) \<Rightarrow>
        ((case r of
            Rejected e \<Rightarrow> InnerFailed (refusal_status e) (wl_refusal W e)
          | _ \<Rightarrow> (case render G w r of Some (JsonReply b) \<Rightarrow> InnerBody b | _ \<Rightarrow> InnerGarbled)), s1))"

definition convert_message :: "convert_error \<Rightarrow> string" where
  "convert_message e = (case e of
      InputRequired \<Rightarrow> ''input required''
    | BadProgress \<Rightarrow> ''invalid function_call_progress''
    | BadInput \<Rightarrow> ''input must be string or array''
    | BadContent \<Rightarrow> ''invalid anthropic content'')"

section \<open>Responses\<close>

datatype responses_reply = Plain wire_reply | Streaming adapter_end

definition responses_error :: "nat \<Rightarrow> string \<Rightarrow> string \<Rightarrow> responses_reply" where
  "responses_error status typ msg = Plain (WireError status (writeOpenAIError typ msg))"

text \<open>The conversation a request continues, \<open>None\<close> where it names no stored one.\<close>

definition resume :: "(string \<times> oaiMsg list) list \<Rightarrow> responsesRequest \<Rightarrow> oaiReq \<Rightarrow> oaiReq option" where
  "resume store r o' =
     (if rr_PreviousResponseID r = [] then Some o'
      else (case map_of store (rr_PreviousResponseID r) of
          None \<Rightarrow> None
        | Some prior \<Rightarrow> if prior = [] then None else Some (o'\<lparr>oq_Messages := prior @ oq_Messages o'\<rparr>)))"

definition usage_output :: "golib \<Rightarrow> obj \<Rightarrow> string" where
  "usage_output L out =
     (case fst (openAIChoice out) of
        None \<Rightarrow> []
      | Some m \<Rightarrow> go_sprint L (get m ''content'')
          @ (case get m ''tool_calls'' of JArr calls \<Rightarrow> go_sprint L (JArr calls) | _ \<Rightarrow> []))"

text \<open>What the answer adds to the stored conversation.\<close>

definition stored_answer :: "obj \<Rightarrow> oaiMsg list" where
  "stored_answer out =
     (case fst (openAIChoice out) of
        None \<Rightarrow> []
      | Some m \<Rightarrow>
          (case get m ''tool_calls'' of
             JArr (c # cs) \<Rightarrow> [call_message (parts_of (c # cs))]
           | _ \<Rightarrow> if as_str (get m ''content'') \<noteq> []
               then [text_message ''assistant'' (JStr (as_str (get m ''content'')))] else []))"

definition responses_model :: "string \<Rightarrow> string" where
  "responses_model m = firstNonEmpty [m, ''m365-copilot'']"

text \<open>\<open>public_id\<close> and \<open>fresh\<close> are random.\<close>

definition answer_response ::
    "golib \<Rightarrow> usagelib \<Rightarrow> (nat \<Rightarrow> string) \<Rightarrow> string \<Rightarrow> int \<Rightarrow> string \<Rightarrow> oaiReq \<Rightarrow> obj \<Rightarrow> wire_server
      \<Rightarrow> responses_reply \<times> wire_server" where
  "answer_response L U fresh public_id created model o' out0 S =
     (case estimateResponsesUsage L U model (oq_Messages o') (oq_Tools o') (oq_ToolChoice o')
          (usage_output L out0) of (usage, source) \<Rightarrow>
        let out1 = AList.update ''m365_usage_source'' (JStr source) (AList.update ''usage'' (JObj usage) out0)
        in case get out1 ''id'' of
             JStr _ \<Rightarrow>
               let out = AList.update ''m365_response_id'' (JStr (''resp_'' @ public_id)) out1
               in (Plain (writeResponsesResult L U fresh created model False out),
                   S\<lparr>ws_store := AList.update (''resp_'' @ public_id) (oq_Messages o' @ stored_answer out) (ws_store S)\<rparr>)
           | _ \<Rightarrow> (Plain (writeResponsesResult L U fresh created model False out1), S))"

definition responses ::
    "gateway \<Rightarrow> usagelib \<Rightarrow> wirelib \<Rightarrow> world \<Rightarrow> stream_ids \<Rightarrow> (nat \<Rightarrow> string) \<Rightarrow> string \<Rightarrow> (obj \<Rightarrow> bool)
      \<Rightarrow> string \<Rightarrow> responsesRequest option \<Rightarrow> wire_server \<Rightarrow> responses_reply \<times> wire_server" where
  "responses G U W w I fresh public_id too_long http_method input S =
     (if http_method \<noteq> ''POST'' then (responses_error 405 ''invalid_request_error'' ''method not allowed'', S)
      else case input of
        None \<Rightarrow> (responses_error 400 ''invalid_request_error'' ''bad json'', S)
      | Some r \<Rightarrow>
     (case responses_openAI (lib G) r of
        Inl e \<Rightarrow> (responses_error 400 ''invalid_request_error'' (convert_message e), S)
      | Inr o0 \<Rightarrow>
     (case resume (ws_store S) r o0 of
        None \<Rightarrow> (responses_error 400 ''invalid_request_error'' ''unknown previous_response_id'', S)
      | Some o' \<Rightarrow>
          let model = responses_model (rr_Model r); created = unix_clock w 0 in
          if rr_Stream r then
            (case openaiChat G w ''POST'' (wl_request W (o'\<lparr>oq_Stream := True\<rparr>)) (ws_server S) of (reply, s1) \<Rightarrow>
               (case inner_answer G w reply of (status, es) \<Rightarrow>
                  (Streaming (streamResponsesAdapter (lib G) U I created too_long model o' status es),
                   S\<lparr>ws_server := s1\<rparr>)))
          else
            (case runOpenAIAdapter G W w o' (ws_server S) of (res, s1) \<Rightarrow>
               let S1 = S\<lparr>ws_server := s1\<rparr> in
               (case res of
                  InnerFailed status bytes \<Rightarrow>
                    (responses_error status ''upstream_error''
                       (errorMessage (lib G) bytes ''upstream protocol error''), S1)
                | InnerGarbled \<Rightarrow>
                    (responses_error 502 ''upstream_error'' (''upstream protocol error: '' @ wl_error W), S1)
                | InnerBody out \<Rightarrow>
                    if \<not> responsesOutputHasContent out then
                      (responses_error 502 ''upstream_error''
                         ''ChatHub returned an empty response; no reusable message was created'', S1)
                    else answer_response (lib G) U fresh public_id created model o' out S1)))))"

section \<open>Messages\<close>

definition anthropic_error :: "nat \<Rightarrow> string \<Rightarrow> string \<Rightarrow> wire_reply" where
  "anthropic_error status typ msg = WireError status (writeAnthropicError typ msg)"

definition anthropicMessages ::
    "gateway \<Rightarrow> wirelib \<Rightarrow> world \<Rightarrow> (nat \<Rightarrow> string) \<Rightarrow> string \<Rightarrow> anthropicRequest option \<Rightarrow> server
      \<Rightarrow> wire_reply \<times> server" where
  "anthropicMessages G W w fresh http_method input s =
     (if http_method \<noteq> ''POST'' then (anthropic_error 405 ''invalid_request_error'' ''method not allowed'', s)
      else case input of
        None \<Rightarrow> (anthropic_error 400 ''invalid_request_error'' ''bad json'', s)
      | Some r \<Rightarrow>
     (case anthropic_openAI (lib G) r of
        Inl e \<Rightarrow> (anthropic_error 400 ''invalid_request_error'' (convert_message e), s)
      | Inr o' \<Rightarrow>
          (case runOpenAIAdapter G W w o' s of (res, s1) \<Rightarrow>
             (case res of
                InnerFailed status bytes \<Rightarrow>
                  (anthropic_error status ''api_error''
                     (errorMessage (lib G) bytes ''upstream protocol error''), s1)
              | InnerGarbled \<Rightarrow>
                  (anthropic_error 502 ''api_error'' (''upstream protocol error: '' @ wl_error W), s1)
              | InnerBody out \<Rightarrow>
                  (writeAnthropicResult (lib G) fresh (responses_model (ar_Model r)) (ar_Stream r) out, s1)))))"

section \<open>What the inner handler answers\<close>

lemma refusal_status_400: "400 \<le> refusal_status e"
  by (cases e) simp_all

lemma inner_body_cases:
  assumes "runOpenAIAdapter G W w o' s = (InnerBody b, s1)"
  obtains (calls) model calls res where "b = tool_json (lib G) (include_events G) (reply_id w) model calls res"
    | (plain) model res content where "b = completion_json G (reply_id w) (unix_clock w 0) model res content"
proof -
  obtain r where r: "openaiChat G w ''POST'' (wl_request W (o'\<lparr>oq_Stream := False\<rparr>)) s = (r, s1)"
    and b: "\<exists>e. r \<noteq> Rejected e \<and> render G w r = Some (JsonReply b)"
    using assms by (auto simp: runOpenAIAdapter_def split: prod.splits chat_reply.splits option.splits http_reply.splits)
  from b show ?thesis
    by (cases "(G, w, r)" rule: render.cases) (auto simp: writeToolResponse_def intro: calls plain)
qed

lemma choice_of_update [simp]:
  "k \<noteq> ''choices'' \<Longrightarrow> openAIChoice (AList.update k v out) = openAIChoice out"
  by (simp add: openAIChoice_def get_def lookup_def update_conv')

lemma choice_message_update [simp]:
  "k \<noteq> ''choices'' \<Longrightarrow> choice_message (AList.update k v out) = choice_message out"
  by (simp add: choice_message_def)

lemma get_update [simp]: "get (AList.update k v m) k' = (if k' = k then v else get m k')"
  by (simp add: get_def lookup_def update_conv')

text \<open>The calls an answer shows are the calls it stores.\<close>

lemma call_item_calls:
  "\<exists>m. call_item L i tc = JObj m \<and> item_calls m = [as_str (get (as_obj tc) ''id'')]"
  by (auto simp: call_item_def item_calls_def is_call_item_def Let_def)

lemma call_items_calls:
  "concat (map item_calls (parts_of (map (\<lambda>(k, tc). call_item L (fresh k) tc) (enumerate n calls))))
     = map (\<lambda>tc. as_str (get (as_obj tc) ''id'')) calls"
proof (induction calls arbitrary: n)
  case (Cons tc calls)
  from call_item_calls [of L "fresh n" tc] obtain m
    where "call_item L (fresh n) tc = JObj m" "item_calls m = [as_str (get (as_obj tc) ''id'')]" by blast
  with Cons show ?case by (simp add: parts_of_def)
qed (simp add: parts_of_def)

lemma message_item_calls: "concat (map item_calls (parts_of [message_item i t])) = []"
  by (simp add: message_item_def parts_of_def item_calls_def is_call_item_def)

lemma parts_of_append [simp]: "parts_of (xs @ ys) = parts_of xs @ parts_of ys" "parts_of [] = []"
  by (simp_all add: parts_of_def)

lemma output_calls:
  assumes "fst (openAIChoice out) = Some msg"
    and "\<forall>calls. get msg ''tool_calls'' = JArr calls \<longrightarrow> (\<exists>cs. calls = toolCallMaps cs)"
  shows "concat (map item_calls (parts_of (responses_output L fresh msg))) = calls_of (stored_answer out)"
proof (cases "is_arr (get msg ''tool_calls'')")
  case None
  then have "responses_output L fresh msg = [message_item (fresh 1) (as_str (get msg ''content''))]"
    "calls_of (stored_answer out) = []"
    using assms(1) by (cases "get msg ''tool_calls''"; simp add: responses_output_def stored_answer_def)+
  then show ?thesis by (simp add: message_item_calls)
next
  case (Some calls)
  then obtain cs where cs: "get msg ''tool_calls'' = JArr (toolCallMaps cs)" using assms(2) by auto
  have ids: "map call_id (parts_of (toolCallMaps cs)) = map (\<lambda>tc. as_str (get (as_obj tc) ''id'')) (toolCallMaps cs)"
    by (induction cs) (auto simp: toolCallMaps_def toolCallMap_def parts_of_def call_id_def)
  have "calls_of (stored_answer out) = map (\<lambda>tc. as_str (get (as_obj tc) ''id'')) (toolCallMaps cs)"
    using assms(1) cs ids by (cases "toolCallMaps cs") (auto simp: stored_answer_def parts_of_def call_id_def)
  moreover have "concat (map item_calls (parts_of (responses_output L fresh msg)))
      = map (\<lambda>tc. as_str (get (as_obj tc) ''id'')) (toolCallMaps cs)"
    using call_items_calls [of L fresh 2 "toolCallMaps cs"] message_item_calls
    by (simp add: responses_output_def cs)
  ultimately show ?thesis by simp
qed

lemma inner_body_shape:
  assumes "runOpenAIAdapter G W w o' s = (InnerBody b, s1)"
  obtains msg where "fst (openAIChoice b) = Some msg" "get b ''id'' = JStr (reply_id w)"
    "\<forall>calls. get msg ''tool_calls'' = JArr calls \<longrightarrow> (\<exists>cs. calls = toolCallMaps cs)"
  using assms
proof (cases rule: inner_body_cases)
  case (calls model cs res)
  then show ?thesis by (intro that) (auto simp: tool_json_def openAIChoice_def Let_def)
next
  case (plain model res content)
  then show ?thesis by (intro that) (auto simp: completion_json_def openAIChoice_def Let_def)
qed

lemma public_id_kept: "firstNonEmpty [''resp_'' @ i, x] = ''resp_'' @ i"
proof -
  have "trim_space (''resp_'' @ i) \<noteq> []" by (rule trim_space_nonempty) (simp_all add: visible_def)
  then show ?thesis by simp
qed

lemma responses_plain:
  assumes "responses G U W w I fresh public_id too_long ''POST'' (Some r) S = (Plain x, S1)"
    and "\<not> rr_Stream r" and "responses_openAI (lib G) r = Inr o0" and "resume (ws_store S) r o0 = Some o'"
  obtains res s1 where "runOpenAIAdapter G W w o' (ws_server S) = (res, s1)"
    "(case res of
        InnerFailed status bytes \<Rightarrow> x = WireError status (writeOpenAIError ''upstream_error''
          (errorMessage (lib G) bytes ''upstream protocol error''))
      | InnerGarbled \<Rightarrow> (\<exists>m. x = WireError 502 (writeOpenAIError ''upstream_error'' m))
      | InnerBody out \<Rightarrow> if responsesOutputHasContent out
          then (Plain x, S1) = answer_response (lib G) U fresh public_id (unix_clock w 0)
            (responses_model (rr_Model r)) o' out (S\<lparr>ws_server := s1\<rparr>)
          else (\<exists>m. x = WireError 502 (writeOpenAIError ''upstream_error'' m)))"
proof -
  obtain res s1 where ra: "runOpenAIAdapter G W w o' (ws_server S) = (res, s1)" by fastforce
  show ?thesis
    by (rule that [OF ra])
      (use assms ra in \<open>cases res; auto simp: responses_def responses_error_def Let_def split: if_splits\<close>)
qed

section \<open>Properties\<close>


text \<open>
  a streamed answer cannot be continued: the store is left as it was, and a request that names the
  id its events carried is refused.
\<close>
theorem streamed_response_cannot_be_continued:
  assumes "responses G U W w I fresh public_id too_long ''POST'' (Some r) S = (Streaming e, S1)"
    and "map_of (ws_store S) (''resp_'' @ si_resp I) = None"
    and "rr_PreviousResponseID r2 = ''resp_'' @ si_resp I" and "responses_openAI (lib G) r2 = Inr o2"
  shows "ws_store S1 = ws_store S
    \<and> responses G U W w2 I2 fresh2 public_id2 too_long ''POST'' (Some r2) S1 =
        (responses_error 400 ''invalid_request_error'' ''unknown previous_response_id'', S1)"
proof -
  have "ws_store S1 = ws_store S"
    using assms(1)
    by (auto simp: responses_def responses_error_def answer_response_def Let_def
        split: sum.splits option.splits if_splits prod.splits adapter_result.splits json.splits)
  with assms(2-4) show ?thesis by (simp add: responses_def resume_def)
qed

text \<open>
  a refusal of the inner chat completion reaches the client of the Responses API with its status.
\<close>
theorem responses_keeps_the_status:
  assumes "responses_openAI (lib G) r = Inr o0" and "resume (ws_store S) r o0 = Some o'" and "\<not> rr_Stream r"
    and "fst (openaiChat G w ''POST'' (wl_request W (o'\<lparr>oq_Stream := False\<rparr>)) (ws_server S)) = Rejected e"
  shows "fst (responses G U W w I fresh public_id too_long ''POST'' (Some r) S) =
    responses_error (refusal_status e) ''upstream_error''
      (errorMessage (lib G) (wl_refusal W e) ''upstream protocol error'')"
proof -
  obtain s1 where "openaiChat G w ''POST'' (wl_request W (o'\<lparr>oq_Stream := False\<rparr>)) (ws_server S) = (Rejected e, s1)"
    using assms(4) by (metis prod.collapse)
  with assms(1-3) show ?thesis by (simp add: responses_def runOpenAIAdapter_def Let_def)
qed

text \<open>
  an answer with images, which chat completions deliver, is an error of the Responses API: the
  client is told that ChatHub returned nothing.
\<close>
theorem responses_loses_image_answers:
  assumes "responses_openAI (lib G) r = Inr o0" and "resume (ws_store S) r o0 = Some o'" and "\<not> rr_Stream r"
    and "fst (openaiChat G w ''POST'' (wl_request W (o'\<lparr>oq_Stream := False\<rparr>)) (ws_server S)) =
      TextReply model res (answer_content res)" and "res_Images res \<noteq> []"
  shows "fst (responses G U W w I fresh public_id too_long ''POST'' (Some r) S) =
    responses_error 502 ''upstream_error'' ''ChatHub returned an empty response; no reusable message was created''"
proof -
  obtain s1 where "openaiChat G w ''POST'' (wl_request W (o'\<lparr>oq_Stream := False\<rparr>)) (ws_server S) =
      (TextReply model res (answer_content res), s1)"
    using assms(4) by (metis prod.collapse)
  moreover have "\<not> responsesOutputHasContent (completion_json G i t model res (answer_content res))" for i t
    using assms(5)
    by (simp add: responsesOutputHasContent_def openAIChoice_def completion_json_def answer_content_def)
  ultimately show ?thesis using assms(1-3) by (simp add: responses_def runOpenAIAdapter_def Let_def)
qed

section \<open>Witnesses\<close>

definition plain_wire :: wirelib where
  "plain_wire = \<lparr>wl_request = Body, wl_refusal = (\<lambda>_. ''refused''), wl_error = ''bad''\<rparr>"

definition list_files :: responsesRequest where
  "list_files = replay [JObj [(''type'', JStr ''message''), (''content'', JStr ''list'')]]"

definition call_response :: "responses_reply \<times> wire_server" where
  "call_response = responses (demo ''router'') no_tokenizer plain_wire (answers [''{call}'']) demo_ids (\<lambda>_. ''f'') ''p''
     (\<lambda>_. False) ''POST'' (Some (list_files\<lparr>rr_Tools := []\<rparr>))
     \<lparr>ws_server = demo_server, ws_store = []\<rparr>"

lemma call_response_body: "case fst call_response of Plain (WireBody b) \<Rightarrow> True | _ \<Rightarrow> False"
  by code_simp


end
