(* ===== verification/GoUrl.thy ===== *)
theory GoUrl
  imports GoStrings
begin

text \<open>
  What the program uses of Go's \<open>net/url\<close> and \<open>encoding/base64\<close>: \<open>QueryEscape\<close>, \<open>Values.Encode\<close>,
  \<open>PathEscape\<close> and the unpadded URL alphabet of base64, with their inverses as the other side applies
  them.  Nothing here models a line of the repository.
\<close>

section \<open>Escapes\<close>

text \<open>\<open>url.QueryEscape\<close>\<close>

definition unreserved :: "char \<Rightarrow> bool" where
  "unreserved c \<longleftrightarrow>
     (let n = of_char c :: nat
      in 48 \<le> n \<and> n \<le> 57 \<or> 65 \<le> n \<and> n \<le> 90 \<or> 97 \<le> n \<and> n \<le> 122) \<or> c \<in> set ''-_.~''"

definition hex_digit :: "nat \<Rightarrow> char" where
  "hex_digit n = (if n < 10 then char_of (48 + n) else char_of (55 + n))"

definition escape_char :: "char \<Rightarrow> string" where
  "escape_char c =
     (if unreserved c then [c]
      else if c = CHR 0x20 then ''+''
      else [CHR 0x25, hex_digit (of_char c div 16), hex_digit (of_char c mod 16)])"

definition query_escape :: "string \<Rightarrow> string" where
  "query_escape s = concat (map escape_char s)"

text \<open>\<open>Values.Encode\<close>: the entries in the order of their keys\<close>

definition query_encode :: "(string \<times> string) list \<Rightarrow> string" where
  "query_encode kvs = str_join ''&'' (map (\<lambda>(k, v). query_escape k @ ''='' @ query_escape v) kvs)"

text \<open>\<open>url.PathEscape\<close>\<close>

definition path_char :: "char \<Rightarrow> string" where
  "path_char c =
     (if unreserved c \<or> c \<in> set ''$&+:=@'' then [c]
      else [CHR 0x25, hex_digit (of_char c div 16), hex_digit (of_char c mod 16)])"

definition path_escape :: "string \<Rightarrow> string" where
  "path_escape s = concat (map path_char s)"

section \<open>Queries read back\<close>

text \<open>\<open>url.ParseQuery\<close>, as the other side reads a query.\<close>

definition hex_value :: "char \<Rightarrow> nat" where
  "hex_value c = (let n = of_char c in if n < 58 then n - 48 else n - 55)"

fun query_unescape :: "string \<Rightarrow> string option" where
  "query_unescape [] = Some []"
| "query_unescape (c # s) =
     (if c = CHR 0x25 then
        (case s of
           a # b # r \<Rightarrow> map_option (\<lambda>r. char_of (hex_value a * 16 + hex_value b) # r) (query_unescape r)
         | _ \<Rightarrow> None)
      else map_option (\<lambda>r. (if c = CHR 0x2B then CHR 0x20 else c) # r) (query_unescape s))"

definition parse_pair :: "string \<Rightarrow> (string \<times> string) option" where
  "parse_pair kv =
     (case str_index kv ''='' of
        None \<Rightarrow> None
      | Some i \<Rightarrow> (case (query_unescape (take i kv), query_unescape (drop (i + 1) kv)) of
            (Some k, Some v) \<Rightarrow> Some (k, v)
          | _ \<Rightarrow> None))"

definition parse_query :: "string \<Rightarrow> (string \<times> string) option list" where
  "parse_query s = map parse_pair (str_split (CHR 0x26) s)"

lemma hex_digit_code: "k < 16 \<Longrightarrow> of_char (hex_digit k) = (if k < 10 then 48 + k else 55 + k)"
  by (simp add: hex_digit_def)

lemma hex_digit_value:
  assumes "k < 16"
  shows "hex_value (hex_digit k) = k" "hex_digit k \<notin> set ''&=''"
proof -
  show "hex_value (hex_digit k) = k" using assms by (simp add: hex_value_def hex_digit_code)
  have "of_char (hex_digit k) \<noteq> (38 :: nat)" "of_char (hex_digit k) \<noteq> (61 :: nat)"
    using assms by (auto simp: hex_digit_code)
  then show "hex_digit k \<notin> set ''&=''" by auto
qed

lemma unreserved_not: "unreserved c \<Longrightarrow> c \<notin> set ''&=+%''"
proof -
  have "list_all (\<lambda>c. \<not> unreserved c) ''&=+%''" by code_simp
  then show "unreserved c \<Longrightarrow> c \<notin> set ''&=+%''" by (auto simp: list_all_iff)
qed

lemma hex_of_char:
  "hex_value (hex_digit (of_char c div 16)) = of_char c div 16"
  "hex_value (hex_digit (of_char c mod 16)) = of_char c mod 16"
proof -
  have "of_char c < (256 :: nat)" by simp
  then have "of_char c div 16 < (16 :: nat)" by (simp add: less_mult_imp_div_less)
  then show "hex_value (hex_digit (of_char c div 16)) = of_char c div 16" by (rule hex_digit_value)
  show "hex_value (hex_digit (of_char c mod 16)) = of_char c mod 16" by (rule hex_digit_value) simp
qed

lemma query_unescape_char:
  "query_unescape (escape_char c @ s) = map_option ((#) c) (query_unescape s)"
proof (cases "unreserved c")
  case True
  with unreserved_not [OF True] show ?thesis by (auto simp: escape_char_def)
next
  case False
  have "char_of (of_char c div 16 * 16 + of_char c mod 16 :: nat) = c" by simp
  with False show ?thesis by (auto simp: escape_char_def hex_of_char)
qed

lemma query_unescape_escape: "query_unescape (query_escape s) = Some s"
  by (induction s) (simp_all add: query_escape_def query_unescape_char)

lemma escape_char_clean: "set (escape_char c) \<inter> set ''&='' = {}"
proof -
  have "of_char c < (256 :: nat)" by simp
  then have "of_char c div 16 < (16 :: nat)" by (simp add: less_mult_imp_div_less)
  from hex_digit_value(2) [OF this] hex_digit_value(2) [of "of_char c mod 16"] unreserved_not [of c]
  show ?thesis by (auto simp: escape_char_def)
qed

lemma query_escape_clean: "set (query_escape s) \<inter> set ''&='' = {}"
  using escape_char_clean by (fastforce simp: query_escape_def)

lemma str_index_char: "c \<notin> set s \<Longrightarrow> str_index (s @ c # t) [c] = Some (length s)"
  by (induction s) (auto simp: has_prefix_def)

lemma parse_pair_encoded: "parse_pair (query_escape k @ ''='' @ query_escape v) = Some (k, v)"
proof -
  have "CHR ''='' \<notin> set (query_escape k)" using query_escape_clean [of k] by auto
  then have "str_index (query_escape k @ ''='' @ query_escape v) ''='' = Some (length (query_escape k))"
    by (simp add: str_index_char)
  then show ?thesis by (simp add: parse_pair_def query_unescape_escape)
qed

lemma split_word: "d \<notin> set t \<Longrightarrow> split_from d acc (t @ d # s) = (rev acc @ t) # split_from d [] s"
  by (induction t arbitrary: acc) auto

lemma split_last: "d \<notin> set t \<Longrightarrow> split_from d acc t = [rev acc @ t]"
  by (induction t arbitrary: acc) auto

lemma str_split_join:
  "ts \<noteq> [] \<Longrightarrow> \<forall>t\<in>set ts. d \<notin> set t \<Longrightarrow> str_split d (str_join [d] ts) = ts"
  by (induction "[d]" ts rule: str_join.induct) (auto simp: str_split_def split_word split_last)

lemma parse_query_encode: "kvs \<noteq> [] \<Longrightarrow> parse_query (query_encode kvs) = map Some kvs"
proof -
  assume "kvs \<noteq> []"
  let ?ts = "map (\<lambda>(k, v). query_escape k @ ''='' @ query_escape v) kvs"
  have "CHR ''&'' \<notin> set (query_escape k)" for k using query_escape_clean [of k] by auto
  then have "str_split (CHR ''&'') (str_join ''&'' ?ts) = ?ts"
    using \<open>kvs \<noteq> []\<close> by (intro str_split_join) auto
  moreover have "map parse_pair ?ts = map Some kvs" by (auto simp: parse_pair_encoded [simplified])
  ultimately show ?thesis by (simp add: parse_query_def query_encode_def)
qed

text \<open>A path segment stays one: the escape has no character that ends it.\<close>

lemma path_char_clean: "set (path_char c) \<inter> set ''/?#'' = {}"
proof -
  have reserved: "list_all (\<lambda>c. \<not> unreserved c \<and> c \<notin> set ''$&+:=@'') ''/?#''" by code_simp
  have digit: "hex_digit k \<notin> set ''/?#''" if "k < 16" for k
  proof -
    have "of_char (hex_digit k) \<noteq> (47 :: nat)" "of_char (hex_digit k) \<noteq> (63 :: nat)" "of_char (hex_digit k) \<noteq> (35 :: nat)"
      using that by (auto simp: hex_digit_code)
    then show ?thesis by auto
  qed
  have "of_char c < (256 :: nat)" by simp
  then have "of_char c div 16 < (16 :: nat)" by (simp add: less_mult_imp_div_less)
  from digit [OF this] digit [of "of_char c mod 16"] reserved show ?thesis
    by (auto simp: path_char_def list_all_iff)
qed

lemma path_escape_clean: "set (path_escape s) \<inter> set ''/?#'' = {}"
  using path_char_clean by (fastforce simp: path_escape_def)

section \<open>Base64\<close>

text \<open>\<open>base64.RawURLEncoding\<close>\<close>

definition b64_alphabet :: string where
  "b64_alphabet = ''ABCDEFGHIJKLMNOPQRSTUVWXYZabcdefghijklmnopqrstuvwxyz0123456789-_''"

definition b64_char :: "nat \<Rightarrow> char" where
  "b64_char n = b64_alphabet ! (n mod 64)"

fun b64_groups :: "nat list \<Rightarrow> nat list" where
  "b64_groups [] = []"
| "b64_groups [a] = [a div 4, a mod 4 * 16]"
| "b64_groups [a, b] = [a div 4, a mod 4 * 16 + b div 16, b mod 16 * 4]"
| "b64_groups (a # b # c # r) =
     [a div 4, a mod 4 * 16 + b div 16, b mod 16 * 4 + c div 64, c mod 64] @ b64_groups r"

definition base64url :: "string \<Rightarrow> string" where
  "base64url s = map b64_char (b64_groups (map of_char s))"

fun b64_bytes :: "nat list \<Rightarrow> nat list" where
  "b64_bytes (w # x # y # z # r) =
     [w * 4 + x div 16, x mod 16 * 16 + y div 4, y mod 4 * 64 + z] @ b64_bytes r"
| "b64_bytes [w, x, y] = [w * 4 + x div 16, x mod 16 * 16 + y div 4]"
| "b64_bytes [w, x] = [w * 4 + x div 16]"
| "b64_bytes _ = []"

lemma b64_bytes_groups: "\<forall>n\<in>set ns. n < 256 \<Longrightarrow> b64_bytes (b64_groups ns) = ns"
proof (induction ns rule: b64_groups.induct)
  case (4 a b c r)
  from 4(2) have d: "b div 16 < 16" "c div 64 < 4" by (auto intro!: less_mult_imp_div_less)
  then have "(a mod 4 * 16 + b div 16) div 16 = a mod 4" "(a mod 4 * 16 + b div 16) mod 16 = b div 16"
    "(b mod 16 * 4 + c div 64) div 4 = b mod 16" "(b mod 16 * 4 + c div 64) mod 4 = c div 64"
    by auto
  with 4 d show ?case by simp
qed (auto simp: less_mult_imp_div_less)

lemma b64_groups_bound: "\<forall>n\<in>set ns. n < 256 \<Longrightarrow> \<forall>n\<in>set (b64_groups ns). n < 64"
  by (induction ns rule: b64_groups.induct) (auto simp: less_mult_imp_div_less)

lemma length_b64_groups: "length (b64_groups ns) = (length ns * 4 + 2) div 3"
proof (induction ns rule: b64_groups.induct)
  case (4 a b c r)
  have "(length r * 4 + 14) div 3 = (length r * 4 + 2) div 3 + 4" by presburger
  moreover have "length (a # b # c # r) * 4 + 2 = length r * 4 + 14" by simp
  moreover have "length (b64_groups (a # b # c # r)) = length (b64_groups r) + 4" by simp
  ultimately show ?case using 4 by metis
qed simp_all

lemma b64_char_inj: "m < 64 \<Longrightarrow> n < 64 \<Longrightarrow> b64_char m = b64_char n \<longleftrightarrow> m = n"
proof -
  have "distinct b64_alphabet" "length b64_alphabet = 64" by (simp_all add: b64_alphabet_def)
  then show "m < 64 \<Longrightarrow> n < 64 \<Longrightarrow> b64_char m = b64_char n \<longleftrightarrow> m = n"
    by (simp add: b64_char_def nth_eq_iff_index_eq)
qed

lemma base64url_inj: "base64url s = base64url t \<longleftrightarrow> s = t"
proof
  assume eq: "base64url s = base64url t"
  have bytes: "\<forall>n\<in>set (map of_char u). n < (256 :: nat)" for u by auto
  have small: "set (b64_groups (map of_char u)) \<subseteq> {n. n < 64}" for u
    using b64_groups_bound [OF bytes] by auto
  then have "inj_on b64_char (set (b64_groups (map of_char s)) \<union> set (b64_groups (map of_char t)))"
    using b64_char_inj by (intro inj_onI) blast
  from inj_on_map_eq_map [OF this] have eq_groups: "b64_groups (map of_char s) = b64_groups (map of_char t)"
    using eq by (simp only: base64url_def)
  have decode: "map char_of (b64_bytes (b64_groups (map of_char u))) = u" for u :: string
    by (simp add: b64_bytes_groups [OF bytes] comp_def)
  have "s = map char_of (b64_bytes (b64_groups (map of_char s)))" by (rule decode [symmetric])
  also have "\<dots> = t" unfolding eq_groups by (rule decode)
  finally show "s = t" .
qed simp

lemma length_base64url: "length (base64url s) = (length s * 4 + 2) div 3"
  by (simp add: base64url_def length_b64_groups)

lemma base64url_unreserved: "list_all unreserved (base64url s)"
proof -
  have "list_all unreserved b64_alphabet" "length b64_alphabet = 64" by code_simp+
  then have "unreserved (b64_char n)" for n by (simp add: b64_char_def list_all_length)
  then show ?thesis by (simp add: base64url_def list_all_iff)
qed

end
