(* ===== verification/ChatPayload.thy ===== *)
theory ChatPayload
  imports ChatAccess GoUrl
begin

text \<open>
  The sending side of a ChatHub turn (src/internal/chathub/client.go, tool_protocol.go, tools.go):
  the upload of images, the address of the WebSocket, the payload, and \<open>chatWithHandlers\<close> from its
  first check to its result, with the read loop of ChatStream in its place.

  The answers of the network are a record \<open>link\<close>.  What is sent is a list: uploads, the dial, the
  frames written before the reading starts; the answers to pings are counted by ChatStream.
\<close>

section \<open>Tools in the payload\<close>

text \<open>
  \<open>raw_parameters\<close> gives the bytes of the field \<open>parameters\<close> of a function, empty where it has none;
  \<open>raw_value\<close> gives the value that such bytes stand for in what is marshalled.
\<close>

record rawlib =
  raw_parameters :: "string \<Rightarrow> string"
  raw_value :: "string \<Rightarrow> json"

definition tool_struct :: "golib \<Rightarrow> chathub_tool \<Rightarrow> (string \<times> string) option" where
  "tool_struct L t =
     (case unmarshal L (tool_Function t) of
        Some (JObj m) \<Rightarrow>
          (case (decode_string (struct_field m ''name''), decode_string (struct_field m ''description'')) of
             (Some n, Some d) \<Rightarrow> if n = [] then None else Some (n, d)
           | _ \<Rightarrow> None)
      | _ \<Rightarrow> None)"

definition clientPlugin :: "golib \<Rightarrow> rawlib \<Rightarrow> chathub_tool \<Rightarrow> json list" where
  "clientPlugin L R t =
     (case tool_struct L t of
        None \<Rightarrow> []
      | Some (n, d) \<Rightarrow>
          let params = raw_parameters R (tool_Function t)
          in [JObj [(''Id'', JStr n), (''Source'', JStr ''Client''), (''Description'', JStr d),
                (''Parameters'', if params = [] then JNull else raw_value R params)]])"

definition clientPlugins :: "golib \<Rightarrow> rawlib \<Rightarrow> chathub_tool list \<Rightarrow> json" where
  "clientPlugins L R tools = JArr (concat (map (clientPlugin L R) tools))"

definition em_dash :: string where
  "em_dash = utf8 [8212]"

definition tool_definition :: "golib \<Rightarrow> rawlib \<Rightarrow> chathub_tool \<Rightarrow> string list" where
  "tool_definition L R t =
     (case tool_struct L t of
        None \<Rightarrow> []
      | Some (n, d) \<Rightarrow>
          let p = trim_space (raw_parameters R (tool_Function t));
              params = (if p = [] \<or> p = ''null'' then ''{}'' else p)
          in [n @ '' '' @ em_dash @ '' '' @ d @ line_feed @ fence @ n @ line_feed @ params @ line_feed @ fence])"

definition tool_preamble :: string where
  "tool_preamble =
     ''You are an execution agent. The tools below are real tools exposed by the caller, not hypothetical M365 plugins.''
     @ line_feed
     @ ''When the user'' @ [CHR 0x27] @ ''s request requires a tool, call it by emitting ONLY one fenced block whose info string ''
     @ ''is the exact tool name and whose body is a JSON object of arguments. Do not say that the tool is unavailable. ''
     @ ''Do not wrap the call in XML or Markdown prose. Wait for the tool result before claiming completion.''
     @ line_feed @ line_feed"

definition toolProtocolPrompt :: "golib \<Rightarrow> rawlib \<Rightarrow> string \<Rightarrow> chathub_tool list \<Rightarrow> json \<Rightarrow> string" where
  "toolProtocolPrompt L R prompt tools choice =
     (if tools = [] \<or> equal_fold (go_sprint L choice) ''none'' then prompt
      else
        let defs = concat (map (tool_definition L R) tools)
        in if defs = [] then prompt
           else tool_preamble @ ''<tools>'' @ line_feed @ str_join (line_feed @ line_feed) defs @ line_feed
             @ ''</tools>'' @ line_feed @ line_feed @ ''User request:'' @ line_feed @ prompt)"

section \<open>Attachments in the payload\<close>

text \<open>\<open>omitempty\<close>\<close>

definition optional_field :: "string \<Rightarrow> string \<Rightarrow> obj" where
  "optional_field k v = (if v = [] then [] else [(k, JStr v)])"

definition attachment_json :: "attachment \<Rightarrow> json" where
  "attachment_json a = JObj ([(''type'', JStr (att_Type a))] @ optional_field ''url'' (att_URL a)
     @ optional_field ''name'' (att_Name a) @ optional_field ''mimeType'' (att_MimeType a)
     @ optional_field ''detail'' (att_Detail a))"

definition annotation_name :: "attachment \<Rightarrow> string" where
  "annotation_name a = (if att_Name a = [] then ''image.'' @ att_FileType a else att_Name a)"

definition annotation_type :: "attachment \<Rightarrow> string" where
  "annotation_type a =
     (let t = (if att_FileType a = [] then trim_prefix (to_lower (att_MimeType a)) ''image/'' else att_FileType a)
      in if t = [] \<or> t \<in> {''image'', ''*''} then ''jpg'' else t)"

definition annotation :: "attachment \<Rightarrow> json list" where
  "annotation a =
     (if att_Type a \<noteq> ''image'' \<or> att_DocID a = [] then []
      else [JObj [(''id'', JStr (att_DocID a)),
          (''messageAnnotationMetadata'', JObj [(''@type'', JStr ''File''), (''annotationType'', JStr ''File''),
             (''fileType'', JStr (annotation_type a)), (''fileName'', JStr (annotation_name a))]),
          (''messageAnnotationType'', JStr ''ImageFile'')]])"

definition annotations :: "attachment list \<Rightarrow> json list" where
  "annotations atts = concat (map annotation atts)"

definition inline_image :: "attachment list \<Rightarrow> obj" where
  "inline_image atts =
     (case find (\<lambda>a. att_Type a = ''image'' \<and> att_URL a \<noteq> []) atts of
        None \<Rightarrow> []
      | Some a \<Rightarrow>
          if has_prefix (att_URL a) ''data:'' then
            (case str_index (att_URL a) '','' of
               Some i \<Rightarrow> if i + 1 < length (att_URL a) then [(''imageBase64'', JStr (drop (i + 1) (att_URL a)))] else []
             | None \<Rightarrow> [])
          else [(''imageUrl'', JStr (att_URL a))])"

section \<open>The payload\<close>

text \<open>The slice of attachments is written as \<open>null\<close> where it is nil and as \<open>[]\<close> where it is empty:
  \<open>no_attachments\<close>.\<close>

definition user_message :: "json \<Rightarrow> string \<Rightarrow> string \<Rightarrow> attachment list \<Rightarrow> obj" where
  "user_message no_attachments prompt requestID atts =
     [(''author'', JStr ''user''),
      (''attachments'', if atts = [] then no_attachments else JArr (map attachment_json atts)),
      (''inputMethod'', JStr ''Keyboard''),
      (''text'', JStr prompt),
      (''entityAnnotationTypes'', JArr (map JStr [''People'', ''File'', ''Event'', ''Email'', ''TeamsMessage''])),
      (''requestId'', JStr requestID),
      (''locationInfo'', JObj [(''timeZoneOffset'', jnat 8), (''timeZone'', JStr ''Asia/Shanghai'')]),
      (''locale'', JStr ''zh-cn''),
      (''messageType'', JStr ''Chat''),
      (''experienceType'', JStr ''Default''),
      (''adaptiveCards'', JArr []),
      (''clientPreferences'', JObj [])]
     @ (if annotations atts = [] then []
        else [(''messageAnnotations'', JArr (annotations atts)),
              (''connectedFederatedConnections'', JArr [JStr ''dummyId''])])
     @ inline_image atts"

definition optionsSets :: "json list" where
  "optionsSets =
   [JStr ''search_result_progress_messages_with_search_queries'',
    JStr ''update_textdoc_response_after_streaming'',
    JStr ''deepleo_networking_timeout_10minutes_canmore'',
    JStr ''cwc_flux_image'',
    JStr ''cwc_code_interpreter'',
    JStr ''cwc_code_interpreter_amsfix'',
    JStr ''cwcfluxgptv'',
    JStr ''flux_v3_gptv_enable_upload_multi_image_in_turn_wo_ch'',
    JStr ''gptvnorm2048'',
    JStr ''cwc_code_interpreter_citation_fix'',
    JStr ''code_interpreter_interactive_charts_inline_image'',
    JStr ''code_interpreter_matplotlib_patching'',
    JStr ''code_interpreter_interactive_charts'',
    JStr ''cwc_fileupload_odb'',
    JStr ''update_memory_plugin'',
    JStr ''add_custom_instructions'',
    JStr ''cwc_flux_v3'',
    JStr ''flux_v3_progress_messages'',
    JStr ''enable_batch_token_processing'',
    JStr ''enable_gg_gpt'']"

definition chat_frame ::
    "golib \<Rightarrow> rawlib \<Rightarrow> string \<Rightarrow> string \<Rightarrow> string \<Rightarrow> string \<Rightarrow> string \<Rightarrow> bool \<Rightarrow> obj
      \<Rightarrow> chathub_tool list \<Rightarrow> json \<Rightarrow> obj" where
  "chat_frame L R correlation trace sessionID conversationID tone firstTurn message tools choice =
     [(''arguments'', JArr [JObj
        [(''source'', JStr ''officeweb''),
         (''clientCorrelationId'', JStr correlation),
         (''sessionId'', JStr sessionID),
         (''optionsSets'', JArr optionsSets),
         (''options'', JObj []),
         (''allowedMessageTypes'', JArr [JStr ''Chat'', JStr ''EndOfRequest'']),
         (''sliceIds'', JArr []),
         (''threadLevelGptId'', JObj []),
         (''conversationId'', JStr conversationID),
         (''traceId'', JStr trace),
         (''isStartOfSession'', JBool firstTurn),
         (''productThreadType'', JStr ''Office''),
         (''clientInfo'', JObj [(''clientPlatform'', JStr ''mcmcopilot-web''), (''clientAppName'', JStr ''Office'')]),
         (''tone'', JStr tone),
         (''streamingMode'', JStr ''ConciseWithPadding''),
         (''message'', JObj message),
         (''plugins'', clientPlugins L R tools),
         (''toolChoice'', choice)]]),
      (''invocationId'', JStr ''0''),
      (''target'', JStr ''chat''),
      (''type'', jnat 4)]"

definition metrics_frame :: obj where
  "metrics_frame =
     [(''arguments'', JArr [JObj [(''Timestamps'', JObj
        [(''ConnectionStart'', JStr []), (''UserInputStart'', JStr []),
         (''ConnectionEstablished'', JStr []), (''UserInputSubmit'', JStr [])])]]),
      (''target'', JStr ''Metrics''),
      (''type'', jnat 1)]"

text \<open>The ids that are drawn at random for a turn.\<close>

record turn_ids =
  ti_session :: string
  ti_conversation :: string
  ti_request :: string
  ti_correlation :: string
  ti_trace :: string

definition chatPayload ::
    "golib \<Rightarrow> rawlib \<Rightarrow> json \<Rightarrow> turn_ids \<Rightarrow> string \<Rightarrow> string \<Rightarrow> string \<Rightarrow> string \<Rightarrow> bool \<Rightarrow> attachment list
      \<Rightarrow> chathub_tool list \<Rightarrow> json \<Rightarrow> string" where
  "chatPayload L R no_attachments I prompt sessionID conversationID tone firstTurn atts tools choice =
     marshal L (JObj (chat_frame L R (ti_correlation I) (ti_trace I) sessionID conversationID tone firstTurn
       (user_message no_attachments (toolProtocolPrompt L R prompt tools choice) (ti_request I) atts) tools choice))
     @ [record_separator] @ marshal L (JObj metrics_frame) @ [record_separator]"

section \<open>The address\<close>

definition variants :: "string list" where
  "variants =
   [''EnableMcpServerWidgets'', ''feature.EnableMcpServerWidgets'', ''feature.EnableLuForChatCIQ'',
    ''feature.enableChatCIQPlugin'', ''EnableRequestPlugins'', ''feature.EnableSensitivityLabels'',
    ''EnableUnsupportedUrlDetector'', ''feature.IsCustomEngineCopilotEnabled'',
    ''feature.bizchatfluxv3'', ''feature.enablechatpages'', ''feature.enableCodeCanvas'',
    ''feature.turnOnWorkTabRecommendation'', ''turnOffWorkTabUpsellFromClient'',
    ''feature.turnOnDARecommendation'', ''feature.IsStreamingModeInChatRequestEnabled'',
    ''IncludeSourceAttributionsConcise'', ''SkipPublishEmptyMessage'',
    ''feature.EnableDeduplicatingSourceAttributions'', ''Enable3PActionProgressMessages'',
    ''feature.enableClientWebRtc'', ''feature.EnableMeetingRecapOfSeriesMeetingWithCiq'',
    ''feature.EnableReferencesListCompleteSignal'', ''feature.StorageMessageSplitDisabled'',
    ''feature.EnableCuaTakeControlApi'', ''feature.cwcallowedos'', ''feature.disabledisallowedmsgs'',
    ''feature.enableCitationsForSynthesisData'', ''feature.enableGenerateGraphicArtOptionsSet'',
    ''cdximagen'', ''feature.EnableUpdatedUXForConfirmationDialog'',
    ''feature.EnableClientFileURLSupportForOfficeWebPaidCopilot'',
    ''feature.EnableDesignEditorImageGrounding'', ''feature.EnableDesignerEditor'',
    ''feature.OfficeWebToHelix'', ''feature.OfficeDesktopToHelix'', ''feature.M365TeamsHubToHelix'',
    ''feature.OwaHubToHelix'', ''feature.MonarchHubToHelix'', ''feature.Win32OutlookHubToHelix'',
    ''feature.MacOutlookHubToHelix'', ''Agt_bizchat_enableGpt5ForHelix'']"

record hub_account =
  ha_AccessToken :: string
  ha_OID :: string
  ha_TID :: string

definition ws_query :: "hub_account \<Rightarrow> string \<Rightarrow> string \<Rightarrow> string \<Rightarrow> (string \<times> string) list" where
  "ws_query acc sessionID conversationID requestID =
     [(''ConversationId'', conversationID),
      (''X-SessionId'', sessionID),
      (''access_token'', ha_AccessToken acc),
      (''agent'', ''web''),
      (''agentHost'', ''Bizchat.FullScreen''),
      (''chatsessionid'', requestID),
      (''clientrequestid'', requestID),
      (''licenseType'', ''Starter''),
      (''product'', ''Office''),
      (''scenario'', ''OfficeWebIncludedCopilot''),
      (''source'', [CHR 0x22] @ ''officeweb'' @ [CHR 0x22]),
      (''variants'', str_join '','' variants)]"

definition buildWSURL :: "hub_account \<Rightarrow> string \<Rightarrow> string \<Rightarrow> string \<Rightarrow> string" where
  "buildWSURL acc sessionID conversationID requestID =
     ''wss://substrate.office.com/m365Copilot/Chathub'' @ ''/'' @ ha_OID acc @ ''@'' @ ha_TID acc @ ''?''
     @ query_encode (ws_query acc sessionID conversationID requestID)"

section \<open>The upload of images\<close>

text \<open>The multipart fields of an upload, and its headers but the content type with its random boundary.\<close>

record upload_post =
  up_fields :: "(string \<times> string) list"
  up_headers :: "(string \<times> string) list"

datatype upload_answer =
    NotSent string
  | NotRead string
  | Answer int string string

datatype upload_error =
    NoComma
  | NotBase64
  | BadBase64
  | SendFailed string
  | ReadFailed string
  | UploadStatus string string
  | BadUploadResponse
  | UploadRefused string

record uploaded =
  ul_DocID :: string
  ul_FileName :: string
  ul_FileType :: string
  ul_Value :: string

definition decode_value :: "json \<Rightarrow> string option" where
  "decode_value v =
     (case decode_map v of
        Some (Some m) \<Rightarrow> decode_string (struct_field m ''value'')
      | Some None \<Rightarrow> Some []
      | None \<Rightarrow> None)"

definition decode_uploaded :: "json \<Rightarrow> uploaded option" where
  "decode_uploaded v =
     (case decode_map v of
        None \<Rightarrow> None
      | Some None \<Rightarrow> Some \<lparr>ul_DocID = [], ul_FileName = [], ul_FileType = [], ul_Value = []\<rparr>
      | Some (Some m) \<Rightarrow>
          (case (decode_string (struct_field m ''docId''), decode_string (struct_field m ''fileName''),
                 decode_string (struct_field m ''fileType''), decode_value (struct_field m ''result'')) of
             (Some d, Some n, Some t, Some r) \<Rightarrow>
               Some \<lparr>ul_DocID = d, ul_FileName = n, ul_FileType = t, ul_Value = r\<rparr>
           | _ \<Rightarrow> None))"

definition upload_of :: "hub_account \<Rightarrow> string \<Rightarrow> attachment \<Rightarrow> upload_post" where
  "upload_of acc conversationID a = \<lparr>
     up_fields = [(''scenario'', ''UploadImage''), (''conversationId'', conversationID),
       (''FileBase64'', att_URL a), (''optionsSets'', ''cwcgptvsan''),
       (''optionsSets'', ''flux_v3_gptv_enable_upload_multi_image_in_turn_wo_ch''),
       (''optionsSets'', ''gptvnorm2048'')],
     up_headers =
       (if ha_AccessToken acc = [] then [] else [(''Authorization'', ''Bearer '' @ ha_AccessToken acc)])
       @ [(''Accept'', ''application/json''), (''X-Variants'', ''feature.EnableImageSupportInUploadFile''),
          (''X-Scenario'', ''OfficeWebIncludedCopilot'')]
       @ (if ha_OID acc \<noteq> [] \<and> ha_TID acc \<noteq> []
          then [(''X-Anchormailbox'', ''Oid:'' @ ha_OID acc @ ''@'' @ ha_TID acc)] else [])
       @ [(''Origin'', ''https://m365.cloud.microsoft''),
          (''User-Agent'', ''Mozilla/5.0 (Windows NT 10.0; Win64; x64; rv:148.0) Gecko/20100101 Firefox/148.0'')]\<rparr>"

definition is_data_image :: "attachment \<Rightarrow> bool" where
  "is_data_image a \<longleftrightarrow> att_Type a = ''image'' \<and> has_prefix (att_URL a) ''data:''"

definition check_data_url :: "(string \<Rightarrow> bool) \<Rightarrow> string \<Rightarrow> upload_error option" where
  "check_data_url b64_ok url =
     (case str_index url '','' of
        None \<Rightarrow> Some NoComma
      | Some i \<Rightarrow>
          if \<not> str_contains (to_lower (take i url)) '';base64'' then Some NotBase64
          else if \<not> b64_ok (drop (i + 1) url) then Some BadBase64
          else None)"

definition note_upload :: "uploaded \<Rightarrow> attachment \<Rightarrow> attachment" where
  "note_upload u a =
     (let t = trim_prefix (to_lower (ul_FileType u)) ''.''
      in a\<lparr>att_DocID := ul_DocID u, att_FileType := (if t = ''jpeg'' then ''jpg'' else t),
           att_Name := (if att_Name a = [] then ul_FileName u else att_Name a)\<rparr>)"

text \<open>\<open>io.LimitReader(resp.Body, 2<<20)\<close>\<close>

definition upload_limit :: nat where
  "upload_limit = 2 * 2 ^ 20"

definition take_answer :: "golib \<Rightarrow> attachment \<Rightarrow> upload_answer \<Rightarrow> upload_error + attachment" where
  "take_answer L a ans =
     (case ans of
        NotSent e \<Rightarrow> Inl (SendFailed e)
      | NotRead e \<Rightarrow> Inl (ReadFailed e)
      | Answer code status body \<Rightarrow>
          let bytes = take upload_limit body in
          if code < 200 \<or> 300 \<le> code then Inl (UploadStatus status (trim_space bytes))
          else (case Option.bind (unmarshal L bytes) decode_uploaded of
              None \<Rightarrow> Inl BadUploadResponse
            | Some u \<Rightarrow>
                if ul_Value u \<noteq> ''Success'' \<or> ul_DocID u = [] then Inl (UploadRefused (trim_space bytes))
                else Inr (note_upload u a)))"

fun uploadAttachments ::
    "golib \<Rightarrow> (string \<Rightarrow> bool) \<Rightarrow> (upload_post \<Rightarrow> upload_answer) \<Rightarrow> hub_account \<Rightarrow> string \<Rightarrow> attachment list
      \<Rightarrow> (upload_error + attachment list) \<times> upload_post list" where
  "uploadAttachments L b64_ok post acc cid [] = (Inr [], [])"
| "uploadAttachments L b64_ok post acc cid (a # atts) =
     (if \<not> is_data_image a then
        (case uploadAttachments L b64_ok post acc cid atts of
           (Inl e, ps) \<Rightarrow> (Inl e, ps)
         | (Inr done, ps) \<Rightarrow> (Inr (a # done), ps))
      else case check_data_url b64_ok (att_URL a) of
        Some e \<Rightarrow> (Inl e, [])
      | None \<Rightarrow>
          let p = upload_of acc cid a in
          (case take_answer L a (post p) of
             Inl e \<Rightarrow> (Inl e, [p])
           | Inr a1 \<Rightarrow>
               (case uploadAttachments L b64_ok post acc cid atts of
                  (Inl e, ps) \<Rightarrow> (Inl e, p # ps)
                | (Inr done, ps) \<Rightarrow> (Inr (a1 # done), p # ps))))"

section \<open>A turn\<close>

datatype sent_item =
    Upload upload_post
  | Dial string
  | Frame string

datatype turn_error =
    MissingCredentials
  | EmptyPrompt
  | UploadFailed upload_error
  | DialFailed string
  | HandshakeSend string
  | HandshakeReceive string
  | ChatSend string
  | ReadFailure chat_error

datatype turn_end =
    Waiting
  | Panicked
  | Failed turn_error
  | Done chat_result

text \<open>The network of a turn: an error or none for each step before the reading, and the reads.\<close>

record link =
  lk_upload :: "upload_post \<Rightarrow> upload_answer"
  lk_dial :: "string option"
  lk_handshake_send :: "string option"
  lk_handshake_receive :: "string option"
  lk_send :: "string option"
  lk_reads :: "read list"

definition handshake :: string where
  "handshake = ''{'' @ [CHR 0x22] @ ''protocol'' @ [CHR 0x22] @ '':'' @ [CHR 0x22] @ ''json'' @ [CHR 0x22] @ '',''
     @ [CHR 0x22] @ ''version'' @ [CHR 0x22] @ '':1}'' @ [record_separator]"

definition hub_result :: "golib \<Rightarrow> netlib \<Rightarrow> (string \<Rightarrow> bool) \<Rightarrow> string \<Rightarrow> string \<Rightarrow> string \<Rightarrow> turn \<Rightarrow> turn_end" where
  "hub_result L N b64_ok conversationID sessionID requestID st =
     (case imageURLs L N b64_ok (raw_events st) of
        None \<Rightarrow> Panicked
      | Some images \<Rightarrow> Done \<lparr>res_Text = result_text st, res_ConversationID = conversationID,
          res_SessionID = sessionID, res_RequestID = requestID,
          res_Throttling = (case throttling st of None \<Rightarrow> JNull | Some v \<Rightarrow> v),
          res_RawResult = rawResult st, res_Events = raw_events st, res_Images = images\<rparr>)"

definition converse ::
    "golib \<Rightarrow> netlib \<Rightarrow> (string \<Rightarrow> bool) \<Rightarrow> handlers \<Rightarrow> link \<Rightarrow> string \<Rightarrow> string \<Rightarrow> string \<Rightarrow> string \<Rightarrow> string
      \<Rightarrow> turn_end \<times> sent_item list" where
  "converse L N b64_ok H K url payload conversationID sessionID requestID =
     (case lk_dial K of
        Some e \<Rightarrow> (Failed (DialFailed e), [Dial url])
      | None \<Rightarrow>
     (case lk_handshake_send K of
        Some e \<Rightarrow> (Failed (HandshakeSend e), [Dial url])
      | None \<Rightarrow>
     (case lk_handshake_receive K of
        Some e \<Rightarrow> (Failed (HandshakeReceive e), [Dial url, Frame handshake])
      | None \<Rightarrow>
     (case lk_send K of
        Some e \<Rightarrow> (Failed (ChatSend e), [Dial url, Frame handshake])
      | None \<Rightarrow>
          (case read_loop L H (lk_reads K) new_turn of
             None \<Rightarrow> Waiting
           | Some (Inl e) \<Rightarrow> Failed (ReadFailure e)
           | Some (Inr st) \<Rightarrow> hub_result L N b64_ok conversationID sessionID requestID st,
           [Dial url, Frame handshake, Frame payload])))))"

text \<open>The callers never set \<open>Started\<close>.\<close>

definition chatWithHandlers ::
    "golib \<Rightarrow> rawlib \<Rightarrow> netlib \<Rightarrow> (string \<Rightarrow> bool) \<Rightarrow> json \<Rightarrow> handlers \<Rightarrow> link \<Rightarrow> turn_ids \<Rightarrow> hub_account
      \<Rightarrow> chat_request \<Rightarrow> turn_end \<times> sent_item list" where
  "chatWithHandlers L R N b64_ok no_attachments H K I acc req =
     (if ha_AccessToken acc = [] \<or> ha_OID acc = [] \<or> ha_TID acc = [] then (Failed MissingCredentials, [])
      else if trim_space (cr_Text req) = [] \<and> cr_Attachments req = [] then (Failed EmptyPrompt, [])
      else
        let tone = (if cr_Tone req = [] then ''magic'' else cr_Tone req);
            sessionID = (if cr_SessionID req = [] then ti_session I else cr_SessionID req);
            conversationID = (if cr_ConversationID req = [] then ti_conversation I else cr_ConversationID req);
            firstTurn = (cr_SessionID req = [] \<or> cr_ConversationID req = [])
        in case uploadAttachments L b64_ok (lk_upload K) acc conversationID (cr_Attachments req) of
             (Inl e, posts) \<Rightarrow> (Failed (UploadFailed e), map Upload posts)
           | (Inr atts, posts) \<Rightarrow>
               (case converse L N b64_ok H K (buildWSURL acc sessionID conversationID (ti_request I))
                   (chatPayload L R no_attachments I (cr_Text req) sessionID conversationID tone firstTurn atts
                      (cr_Tools req) (cr_ToolChoice req))
                   conversationID sessionID (ti_request I) of
                  (r, out) \<Rightarrow> (r, map Upload posts @ out)))"

section \<open>What a turn sends\<close>

lemma uploads_posted:
  "uploadAttachments L b post acc cid atts = (r, ps) \<Longrightarrow>
     prefix ps (map (upload_of acc cid) (filter is_data_image atts))
     \<and> (\<forall>done. r = Inr done \<longrightarrow> ps = map (upload_of acc cid) (filter is_data_image atts))"
  by (induction L b post acc cid atts arbitrary: r ps rule: uploadAttachments.induct)
    (force simp: Let_def split: if_splits option.splits sum.splits prod.splits)+

text \<open>What the upload makes of an attachment.\<close>

definition announced :: "attachment \<Rightarrow> attachment \<Rightarrow> bool" where
  "announced a a' \<longleftrightarrow> att_URL a' = att_URL a \<and> att_Type a' = att_Type a
     \<and> (if is_data_image a then att_DocID a' \<noteq> [] else a' = a)"

lemma take_answer_announced: "take_answer L a ans = Inr a' \<Longrightarrow> is_data_image a \<Longrightarrow> announced a a'"
  by (auto simp: take_answer_def note_upload_def announced_def Let_def
      split: upload_answer.splits if_splits option.splits)

lemma not_uploaded: "\<not> is_data_image a \<Longrightarrow> announced a a"
  by (simp add: announced_def)

lemma uploads_done:
  "uploadAttachments L b post acc cid atts = (Inr atts1, ps) \<Longrightarrow> list_all2 announced atts atts1"
  by (induction L b post acc cid atts arbitrary: atts1 ps rule: uploadAttachments.induct)
    (auto simp: Let_def not_uploaded intro: take_answer_announced
      split: if_splits option.splits sum.splits prod.splits)

lemma announced_annotation:
  "announced a a' \<Longrightarrow> att_DocID a = [] \<Longrightarrow> length (annotation a') = (if is_data_image a then 1 else 0)"
  by (auto simp: announced_def annotation_def is_data_image_def split: if_splits)

lemma announced_annotations:
  "list_all2 announced atts atts1 \<Longrightarrow> list_all (\<lambda>a. att_DocID a = []) atts \<Longrightarrow>
    length (annotations atts1) = length (filter is_data_image atts)"
  by (induction rule: list_all2_induct) (auto simp: annotations_def announced_annotation)

text \<open>The conversation and the session of a turn.\<close>

definition turn_conversation :: "turn_ids \<Rightarrow> chat_request \<Rightarrow> string" where
  "turn_conversation I req = (if cr_ConversationID req = [] then ti_conversation I else cr_ConversationID req)"

definition turn_session :: "turn_ids \<Rightarrow> chat_request \<Rightarrow> string" where
  "turn_session I req = (if cr_SessionID req = [] then ti_session I else cr_SessionID req)"

definition image_posts :: "turn_ids \<Rightarrow> hub_account \<Rightarrow> chat_request \<Rightarrow> upload_post list" where
  "image_posts I acc req = map (upload_of acc (turn_conversation I req)) (filter is_data_image (cr_Attachments req))"

definition turn_address :: "turn_ids \<Rightarrow> hub_account \<Rightarrow> chat_request \<Rightarrow> string" where
  "turn_address I acc req = buildWSURL acc (turn_session I req) (turn_conversation I req) (ti_request I)"

definition turn_payload ::
    "golib \<Rightarrow> rawlib \<Rightarrow> json \<Rightarrow> turn_ids \<Rightarrow> chat_request \<Rightarrow> attachment list \<Rightarrow> string" where
  "turn_payload L R na I req atts =
     chatPayload L R na I (cr_Text req) (turn_session I req) (turn_conversation I req)
       (if cr_Tone req = [] then ''magic'' else cr_Tone req) (cr_SessionID req = [] \<or> cr_ConversationID req = [])
       atts (cr_Tools req) (cr_ToolChoice req)"

lemma converse_sends:
  "converse L N b H K url payload cid sid rid = (r, out) \<Longrightarrow>
     out \<noteq> [] \<and> prefix out [Dial url, Frame handshake, Frame payload]"
  by (auto simp: converse_def split: option.splits)

lemma converse_done:
  assumes "converse L N b H K url payload cid sid rid = (Done res, out)"
  shows "out = [Dial url, Frame handshake, Frame payload]"
    "res_ConversationID res = cid" "res_SessionID res = sid" "res_RequestID res = rid"
    "\<exists>st. read_loop L H (lk_reads K) new_turn = Some (Inr st) \<and> res_Text res = result_text st"
  using assms by (auto simp: converse_def hub_result_def split: option.splits sum.splits)

lemma chat_cases:
  assumes "chatWithHandlers L R N b na H K I acc req = (r, out)"
  obtains (refused) "out = []" "\<forall>res. r \<noteq> Done res"
  | (not_uploaded) e posts where "ha_AccessToken acc \<noteq> []" "ha_OID acc \<noteq> []" "ha_TID acc \<noteq> []"
      "uploadAttachments L b (lk_upload K) acc (turn_conversation I req) (cr_Attachments req) = (Inl e, posts)"
      "r = Failed (UploadFailed e)" "out = map Upload posts"
  | (conversed) atts posts rest where "ha_AccessToken acc \<noteq> []" "ha_OID acc \<noteq> []" "ha_TID acc \<noteq> []"
      "uploadAttachments L b (lk_upload K) acc (turn_conversation I req) (cr_Attachments req) = (Inr atts, posts)"
      "converse L N b H K (turn_address I acc req) (turn_payload L R na I req atts)
         (turn_conversation I req) (turn_session I req) (ti_request I) = (r, rest)"
      "out = map Upload posts @ rest"
proof -
  show thesis
  proof (cases "ha_AccessToken acc = [] \<or> ha_OID acc = [] \<or> ha_TID acc = []
      \<or> trim_space (cr_Text req) = [] \<and> cr_Attachments req = []")
    case True
    with assms refused show thesis by (auto simp: chatWithHandlers_def split: if_splits)
  next
    case False
    note chat = assms [unfolded chatWithHandlers_def Let_def, folded turn_conversation_def turn_session_def,
      folded turn_address_def turn_payload_def]
    show thesis
    proof (cases "uploadAttachments L b (lk_upload K) acc (turn_conversation I req) (cr_Attachments req)")
      case (Pair u posts)
      with chat False not_uploaded conversed show thesis
        by (cases u) (auto simp: turn_conversation_def turn_session_def turn_address_def turn_payload_def
            split: prod.splits)
    qed
  qed
qed

section \<open>Properties\<close>


text \<open>
  a turn that ends with a result: it belongs to the conversation and the session that were asked
  for, or to the new ones the address named; everything was sent, with every uploaded image
  announced by the id the service gave it; and a completion frame has been read.
\<close>
theorem result_belongs_to_the_request:
  assumes "chatWithHandlers L R N b na H K I acc req = (Done res, out)"
  shows "res_ConversationID res = turn_conversation I req \<and> res_SessionID res = turn_session I req
    \<and> (\<exists>atts. list_all2 announced (cr_Attachments req) atts
        \<and> out = map Upload (image_posts I acc req) @ [Dial (turn_address I acc req), Frame handshake,
            Frame (turn_payload L R na I req atts)])
    \<and> (\<exists>msgs msg post part. lk_reads K = map Message msgs @ Message msg # post
        \<and> part \<in> set (str_split record_separator msg) \<and> completion_frame L part)"
  using assms
proof (cases rule: chat_cases)
  case (conversed atts posts rest)
  note c = converse_done [OF conversed(5)]
  from uploads_posted [OF conversed(4)] have "posts = image_posts I acc req" by (simp add: image_posts_def)
  then have sent: "out = map Upload (image_posts I acc req)
      @ [Dial (turn_address I acc req), Frame handshake, Frame (turn_payload L R na I req atts)]"
    using conversed(6) c(1) by simp
  from c(5) obtain st where "read_loop L H (lk_reads K) new_turn = Some (Inr st)" by blast
  note read_loop_Inr [OF this]
  with sent c(2,3) uploads_done [OF conversed(4)] show ?thesis by blast
qed simp_all

text \<open>
  the address of the WebSocket, parsed again, has the ids of the turn and the token as they were,
  whatever bytes they have: none of them can add or change a parameter.
\<close>
theorem address_carries_the_ids:
  "\<exists>q. buildWSURL acc sid cid rid =
       ''wss://substrate.office.com/m365Copilot/Chathub/'' @ ha_OID acc @ ''@'' @ ha_TID acc @ ''?'' @ q
     \<and> parse_query q = map Some (ws_query acc sid cid rid)"
proof -
  have "ws_query acc sid cid rid \<noteq> []" by (simp add: ws_query_def)
  from parse_query_encode [OF this] show ?thesis
    by (intro exI [of _ "query_encode (ws_query acc sid cid rid)"]) (simp add: buildWSURL_def)
qed

text \<open>
  the payload is two SignalR records, the message and the metrics, whatever the prompt and the tools
  contain.  Hypothesis: \<open>json.Marshal\<close> escapes control characters.
\<close>
theorem payload_is_two_records:
  assumes "\<forall>v. record_separator \<notin> set (marshal L v)"
  shows "str_split record_separator (chatPayload L R na I prompt sid cid tone firstTurn atts tools choice) =
    [marshal L (JObj (chat_frame L R (ti_correlation I) (ti_trace I) sid cid tone firstTurn
       (user_message na (toolProtocolPrompt L R prompt tools choice) (ti_request I) atts) tools choice)),
     marshal L (JObj metrics_frame), []]"
  using assms by (simp add: chatPayload_def str_split_def split_word split_last)

text \<open>
  every image that was uploaded is announced in the payload, and nothing else is: as many
  annotations as data URLs, when the request comes from a client, which cannot name documents.
\<close>
theorem uploaded_images_are_annotated:
  assumes "uploadAttachments L b post acc cid atts = (Inr atts1, ps)"
    and "list_all (\<lambda>a. att_DocID a = []) atts"
  shows "length (annotations atts1) = length ps"
  using announced_annotations [OF uploads_done [OF assms(1)] assms(2)] uploads_posted [OF assms(1)] by simp

section \<open>Witnesses\<close>

definition picture_lib :: golib where
  "picture_lib = frame_lib\<lparr>unmarshal := (\<lambda>s. if s = ''{up}'' then Some (JObj
      [(''docId'', JStr ''d1''), (''fileName'', JStr ''a.png''), (''fileType'', JStr ''.PNG''),
       (''result'', JObj [(''value'', JStr ''Success'')])])
     else unmarshal frame_lib s)\<rparr>"

definition picture :: attachment where
  "picture = zero_attachment\<lparr>att_Type := ''image'', att_URL := ''data:image/png;base64,AA''\<rparr>"

definition stored_picture :: attachment where
  "stored_picture = picture\<lparr>att_DocID := ''d1'', att_FileType := ''png'', att_Name := ''a.png''\<rparr>"

definition picture_link :: link where
  "picture_link = \<lparr>lk_upload = (\<lambda>_. Answer 200 ''200 OK'' ''{up}''), lk_dial = None, lk_handshake_send = None,
     lk_handshake_receive = None, lk_send = None, lk_reads = [Message ''done'']\<rparr>"

definition picture_ids :: turn_ids where
  "picture_ids = \<lparr>ti_session = ''s'', ti_conversation = ''c'', ti_request = ''r'', ti_correlation = ''k'', ti_trace = ''t''\<rparr>"

definition me :: hub_account where
  "me = \<lparr>ha_AccessToken = ''tok'', ha_OID = ''o'', ha_TID = ''t''\<rparr>"

definition picture_request :: chat_request where
  "picture_request = plain_request ''look'' [] [picture]"

definition no_raw :: rawlib where
  "no_raw = \<lparr>raw_parameters = (\<lambda>_. []), raw_value = (\<lambda>_. JNull)\<rparr>"

definition picture_result :: chat_result where
  "picture_result = (text_result [])\<lparr>res_ConversationID := ''c'', res_SessionID := ''s'', res_RequestID := ''r'',
     res_Events := [''done'']\<rparr>"

lemma picture_upload:
  "uploadAttachments picture_lib (\<lambda>_. True) (lk_upload picture_link) me ''c'' [picture] =
     (Inr [stored_picture], [upload_of me ''c'' picture])"
proof -
  have "is_data_image picture" "check_data_url (\<lambda>_. True) (att_URL picture) = None" by code_simp+
  moreover have "take upload_limit ''{up}'' = ''{up}''" by (simp add: upload_limit_def)
  moreover have "Option.bind (unmarshal picture_lib ''{up}'') decode_uploaded =
      Some \<lparr>ul_DocID = ''d1'', ul_FileName = ''a.png'', ul_FileType = ''.PNG'', ul_Value = ''Success''\<rparr>" by code_simp
  moreover have "note_upload \<lparr>ul_DocID = ''d1'', ul_FileName = ''a.png'', ul_FileType = ''.PNG'', ul_Value = ''Success''\<rparr>
      picture = stored_picture" by code_simp
  ultimately show ?thesis by (simp add: take_answer_def picture_link_def)
qed

lemma picture_read:
  "read_loop picture_lib quiet (lk_reads picture_link) new_turn = Some (Inr (new_turn\<lparr>raw_events := [''done'']\<rparr>))"
  by code_simp

lemma picture_images: "imageURLs picture_lib N (\<lambda>_. True) [''done''] = Some []"
  by (simp add: imageURLs_def picture_lib_def frame_lib_def image_key_def)

lemma chat_done:
  assumes "ha_AccessToken acc \<noteq> []" "ha_OID acc \<noteq> []" "ha_TID acc \<noteq> []"
    and "trim_space (cr_Text req) \<noteq> [] \<or> cr_Attachments req \<noteq> []"
    and "uploadAttachments L b (lk_upload K) acc (turn_conversation I req) (cr_Attachments req) = (Inr atts, posts)"
    and "lk_dial K = None" "lk_handshake_send K = None" "lk_handshake_receive K = None" "lk_send K = None"
    and "read_loop L H (lk_reads K) new_turn = Some (Inr st)"
    and "hub_result L N b (turn_conversation I req) (turn_session I req) (ti_request I) st = Done res"
  shows "\<exists>u payload. chatWithHandlers L R N b na H K I acc req =
    (Done res, map Upload posts @ [Dial u, Frame handshake, Frame payload])"
  using assms unfolding chatWithHandlers_def turn_conversation_def turn_session_def converse_def Let_def
  by simp

lemma picture_turn:
  "\<exists>out. chatWithHandlers picture_lib no_raw N (\<lambda>_. True) JNull quiet picture_link picture_ids me picture_request
     = (Done picture_result, out)"
proof -
  have c: "turn_conversation picture_ids picture_request = ''c''" "turn_session picture_ids picture_request = ''s''"
    by (simp_all add: turn_conversation_def turn_session_def picture_request_def plain_request_def picture_ids_def)
  have up: "uploadAttachments picture_lib (\<lambda>_. True) (lk_upload picture_link) me
      (turn_conversation picture_ids picture_request) (cr_Attachments picture_request) =
      (Inr [stored_picture], [upload_of me ''c'' picture])"
    unfolding c using picture_upload by (simp add: picture_request_def plain_request_def)
  have res: "hub_result picture_lib N (\<lambda>_. True) (turn_conversation picture_ids picture_request)
      (turn_session picture_ids picture_request) (ti_request picture_ids) (new_turn\<lparr>raw_events := [''done'']\<rparr>)
      = Done picture_result"
    unfolding c by (simp add: hub_result_def picture_images picture_result_def text_result_def picture_ids_def
        new_turn_def result_text_def)
  have me: "ha_AccessToken me \<noteq> []" "ha_OID me \<noteq> []" "ha_TID me \<noteq> []" by (simp_all add: me_def)
  have req: "trim_space (cr_Text picture_request) \<noteq> [] \<or> cr_Attachments picture_request \<noteq> []"
    by (simp add: picture_request_def plain_request_def)
  have link: "lk_dial picture_link = None" "lk_handshake_send picture_link = None"
    "lk_handshake_receive picture_link = None" "lk_send picture_link = None" by (simp_all add: picture_link_def)
  from chat_done [OF me req up link picture_read res] show ?thesis by blast
qed


theorem result_belongs_to_the_request_witness:
  "\<exists>out atts. chatWithHandlers picture_lib no_raw http_only (\<lambda>_. True) JNull quiet picture_link picture_ids me
      picture_request = (Done picture_result, out) \<and> list_all2 announced [picture] atts
    \<and> out = map Upload (image_posts picture_ids me picture_request)
        @ [Dial (turn_address picture_ids me picture_request), Frame handshake,
           Frame (turn_payload picture_lib no_raw JNull picture_ids picture_request atts)]"
proof -
  obtain out where run: "chatWithHandlers picture_lib no_raw http_only (\<lambda>_. True) JNull quiet picture_link picture_ids me
      picture_request = (Done picture_result, out)" using picture_turn by blast
  have "cr_Attachments picture_request = [picture]" by (simp add: picture_request_def plain_request_def)
  with result_belongs_to_the_request [OF run] run show ?thesis by auto
qed

theorem payload_is_two_records_witness:
  "length (str_split record_separator (chatPayload frame_lib no_raw JNull picture_ids [record_separator] ''s'' ''c''
     ''magic'' True [] [] JNull)) = 3"
  by (subst payload_is_two_records) (simp_all add: frame_lib_def record_separator_def)

theorem uploaded_images_are_annotated_witness: "length (annotations [stored_picture]) = 1"
  using uploaded_images_are_annotated [OF picture_upload] by (simp add: picture_def zero_attachment_def)

end
