(* ===== verification/ChatLink.thy ===== *)
theory ChatLink
  imports ResponsesStream ChatPayload
begin

text \<open>
  The chat completions handler on top of the ChatHub client: \<open>openaiChat\<close> with
  \<open>chatWithHandlers\<close> (src/internal/chathub/client.go) in the place of the parameter \<open>upstream\<close>.

  The first part shows that what the caller's handlers do cannot change the result of a turn, so
  that one kind of turn serves both entry points, \<open>Chat\<close> and \<open>ChatWithEvents\<close>; the second, that the text
  events of a turn are its streamed text.  Then the two components are composed.
\<close>

section \<open>Handlers do not change the result\<close>

definition silent :: handlers where
  "silent = \<lparr>has_delta = False, delta_fails = (\<lambda>_. False), has_event = False, event_fails = (\<lambda>_. False)\<rparr>"

definition listening :: handlers where
  "listening = \<lparr>has_delta = True, delta_fails = (\<lambda>_. False), has_event = True, event_fails = (\<lambda>_. False)\<rparr>"

definition patient :: "handlers \<Rightarrow> bool" where
  "patient H \<longleftrightarrow> (\<forall>d. \<not> delta_fails H d) \<and> (\<forall>ev. \<not> event_fails H ev)"

lemma patient_simps [simp]: "patient silent" "patient listening" "has_delta listening" "has_event listening"
  by (simp_all add: patient_def silent_def listening_def)

text \<open>A turn without what only the handlers see of it.\<close>

definition core :: "turn \<Rightarrow> turn" where
  "core st = st\<lparr>emitted := [], events_out := [], trail := [], seenStreamTools := {}\<rparr>"

lemma core_fields [simp]:
  "streamedText (core st) = streamedText st" "deltas (core st) = deltas st" "final (core st) = final st"
  "raw_events (core st) = raw_events st" "rawResult (core st) = rawResult st" "throttling (core st) = throttling st"
  "core (core st) = core st" "core new_turn = new_turn"
  by (simp_all add: core_def new_turn_def)

abbreviation core_sum :: "chat_error + turn \<Rightarrow> chat_error + turn" where
  "core_sum \<equiv> map_sum (\<lambda>e. e) core"

fun core_progress :: "progress \<Rightarrow> progress" where
  "core_progress (Running st) = Running (core st)"
| "core_progress (Finished st) = Finished (core st)"
| "core_progress (Aborted e) = Aborted e"

named_theorems unheard \<open>steps of a turn under the handlers of its caller and without any\<close>

lemma fold_steps_hom:
  "(\<And>x s. map_sum (\<lambda>e. e) h (f x s) = g x (h s)) \<Longrightarrow>
    map_sum (\<lambda>e. e) h (fold_steps f xs s) = fold_steps g xs (h s)"
proof (induction xs arbitrary: s)
  case (Cons x xs)
  show ?case
    using Cons.prems [of x s, symmetric] Cons.IH [OF Cons.prems] by (cases "f x s") auto
qed simp

lemma emitDelta_core [unheard]: "patient H \<Longrightarrow> core_sum (emitDelta H d st) = emitDelta silent d (core st)"
  by (simp add: emitDelta_def patient_def silent_def core_def Let_def)

lemma take_text_core [unheard]: "patient H \<Longrightarrow> core_sum (take_text H t st) = take_text silent t (core st)"
proof -
  assume p: "patient H"
  have "core (st\<lparr>deltas := deltas st @ [t]\<rparr>) = core st\<lparr>deltas := deltas (core st) @ [t]\<rparr>" by (simp add: core_def)
  then show ?thesis by (auto simp: take_text_def emitSnapshot_def emitDelta_core [OF p])
qed

lemma send_events_core: "patient H \<Longrightarrow> core_sum (fold_steps (send_event H) evs st) = Inr (core st)"
  by (induction evs arbitrary: st) (auto simp: send_event_def patient_def core_def)

lemma frame_events_core [unheard]: "patient H \<Longrightarrow> core_sum (frame_events L H arg st) = frame_events L silent arg (core st)"
proof -
  assume p: "patient H"
  have "core (st\<lparr>seenStreamTools := seen\<rparr>) = core st" for seen by (simp add: core_def)
  with send_events_core [OF p] show ?thesis by (simp add: frame_events_def silent_def Let_def split: prod.split)
qed

lemma frame_message_core [unheard]: "patient H \<Longrightarrow> core_sum (frame_message H m st) = frame_message silent m (core st)"
  by (simp add: frame_message_def take_text_core)

lemma note_throttling_core [simp]: "core (note_throttling m st) = note_throttling m (core st)"
  by (simp add: note_throttling_def core_def split: option.split)

lemma update_arg_core [unheard]: "patient H \<Longrightarrow> core_sum (update_arg L H v st) = update_arg L silent v (core st)"
proof (cases "is_obj v")
  case (Some arg)
  assume p: "patient H"
  have messages: "core_sum (fold_steps (frame_message H) ms s) = fold_steps (frame_message silent) ms (core s)" for ms s
    by (rule fold_steps_hom) (rule frame_message_core [OF p])
  show ?thesis
  proof (cases "frame_events L H arg st")
    case (Inl e)
    with frame_events_core [OF p, of L arg st, symmetric] Some show ?thesis by (simp add: update_arg_def)
  next
    case (Inr st1)
    then have one: "frame_events L silent arg (core st) = Inr (core st1)"
      using frame_events_core [OF p, of L arg st] by simp
    show ?thesis
      using take_text_core [OF p, of "cursor_text arg" st1, symmetric] Some Inr one messages
      by (cases "take_text H (cursor_text arg) st1") (auto simp: update_arg_def)
  qed
qed (simp add: update_arg_def)

lemma result_frame_core [simp]: "core (result_frame m st) = result_frame m (core st)"
  by (simp add: result_frame_def note_throttling_def core_def Let_def split: option.split)

lemma frame_step_core [unheard]:
  "patient H \<Longrightarrow> core_progress (frame_step L H part st) = frame_step L silent part (core st)"
proof -
  assume p: "patient H"
  let ?st1 = "st\<lparr>raw_events := raw_events st @ [trim_space part]\<rparr>"
  have st1: "core ?st1 = core st\<lparr>raw_events := raw_events (core st) @ [trim_space part]\<rparr>"
    "core (?st1\<lparr>pongs := n\<rparr>) = core ?st1\<lparr>pongs := n\<rparr>" for n by (simp_all add: core_def)
  have pongs: "pongs (core s) = pongs s" for s by (simp add: core_def)
  have args: "core_sum (fold_steps (update_arg L H) vs s) = fold_steps (update_arg L silent) vs (core s)" for vs s
    by (rule fold_steps_hom) (rule update_arg_core [OF p])
  have sums: "core_progress (case x of Inl e \<Rightarrow> Aborted e | Inr s \<Rightarrow> Running s) =
      (case core_sum x of Inl e \<Rightarrow> Aborted e | Inr s \<Rightarrow> Running s)" for x by (cases x) auto
  show ?thesis
    by (simp add: frame_step_def Let_def st1 pongs args sums split: option.split json.split)
qed

lemma frames_core [unheard]:
  "patient H \<Longrightarrow> core_progress (frames L H parts st) = frames L silent parts (core st)"
proof (induction parts arbitrary: st)
  case (Cons part parts)
  from frame_step_core [OF Cons.prems, of L part st, symmetric] Cons show ?case
    by (cases "frame_step L H part st") auto
qed simp

lemma read_loop_core:
  "patient H \<Longrightarrow> map_option core_sum (read_loop L H rs st) = read_loop L silent rs (core st)"
proof (induction L H rs st rule: read_loop.induct)
  case (5 L H msg rs st)
  from frames_core [OF 5(2), of L "str_split record_separator msg" st, symmetric] 5 show ?case
    by (cases "frames L H (str_split record_separator msg) st") auto
qed simp_all

lemma core_eqD: "core a = core b \<Longrightarrow> result_text a = result_text b \<and> raw_events a = raw_events b
    \<and> throttling a = throttling b \<and> rawResult a = rawResult b"
  by (metis core_fields(2,3,4,5,6) result_text_def)

section \<open>The text events are the streamed text\<close>

fun event_text :: "stream_event \<Rightarrow> string" where
  "event_text ev = (if se_Kind ev = ''text'' then se_Text ev else [])"

definition trail_ok :: "turn \<Rightarrow> bool" where
  "trail_ok st \<longleftrightarrow> concat (map event_text (trail st)) = streamedText st"

lemma then_walk_all:
  assumes "\<And>y seen. y \<in> set ys \<Longrightarrow> list_all P (fst (f y seen))" and "list_all P (fst acc)"
  shows "list_all P (fst (fold (\<lambda>y. then_walk (f y)) ys acc))"
  using assms
proof (induction ys arbitrary: acc)
  case (Cons y ys)
  obtain out seen where acc: "acc = (out, seen)" by fastforce
  obtain out' seen' where f: "f y seen = (out', seen')" by fastforce
  have "list_all P (out @ out')" using Cons.prems(1) [of y seen] Cons.prems(2) acc f by simp
  with Cons acc f show ?case by simp
qed simp

lemma tool_walk_kinds: "list_all (\<lambda>ev. se_Kind ev = ''tool'') (fst (tool_walk L v seen))"
proof (induction L v seen rule: tool_walk.induct)
  case (1 L xs seen)
  then show ?case by (simp add: then_walk_all)
next
  case (2 L m seen)
  have "list_all (\<lambda>ev. se_Kind ev = ''tool'') (fst (tool_event L m seen))"
    by (simp add: tool_event_def Let_def split: prod.split)
  with 2 then_walk_all [of m "\<lambda>ev. se_Kind ev = ''tool''" "\<lambda>(_, x). tool_walk L x" "tool_event L m seen"]
  show ?case by (fastforce simp: case_prod_unfold)
qed simp_all

lemma send_events_trail:
  "fold_steps (send_event H) evs st = Inr st' \<Longrightarrow> list_all (\<lambda>ev. se_Kind ev \<noteq> ''text'') evs \<Longrightarrow> trail_ok st \<Longrightarrow> trail_ok st'"
proof (induction evs arbitrary: st)
  case (Cons ev evs)
  then show ?case by (auto simp: send_event_def trail_ok_def split: if_splits)
qed simp

lemma frame_events_trail: "frame_events L H arg st = Inr st' \<Longrightarrow> trail_ok st \<Longrightarrow> trail_ok st'"
proof (cases "has_event H")
  case True
  assume f: "frame_events L H arg st = Inr st'" and ok: "trail_ok st"
  obtain tools seen where w: "extractToolEvents L (JObj arg) (seenStreamTools st) = (tools, seen)" by fastforce
  have "list_all (\<lambda>ev. se_Kind ev \<noteq> ''text'') tools"
    using tool_walk_kinds [of L "JObj arg" "seenStreamTools st"] w
    by (auto simp: extractToolEvents_def list_all_iff)
  then have "list_all (\<lambda>ev. se_Kind ev \<noteq> ''text'') (tools @ filter (\<lambda>ev. se_Kind ev \<noteq> ''text'') xs)" for xs
    by (auto simp: list_all_iff)
  moreover have "trail_ok (st\<lparr>seenStreamTools := seen\<rparr>)" using ok by (simp add: trail_ok_def)
  ultimately show "trail_ok st'" using f True w send_events_trail by (auto simp: frame_events_def Let_def)
qed (simp add: frame_events_def)

lemma take_text_trail: "has_delta H \<Longrightarrow> take_text H t st = Inr st' \<Longrightarrow> trail_ok st \<Longrightarrow> trail_ok st'"
  by (auto simp: take_text_def emitSnapshot_def emitDelta_def delta_event_def trail_ok_def Let_def split: if_splits)

lemma trail_ok_cong: "trail st' = trail st \<Longrightarrow> streamedText st' = streamedText st \<Longrightarrow> trail_ok st' = trail_ok st"
  by (simp add: trail_ok_def)

lemma note_throttling_trail [simp]: "trail_ok (note_throttling m st) = trail_ok st"
  by (rule trail_ok_cong) (simp_all add: note_throttling_def split: option.split)

lemma result_frame_trail [simp]: "trail_ok (result_frame m st) = trail_ok st"
  by (rule trail_ok_cong) (simp_all add: result_frame_def note_throttling_def Let_def split: option.split)

lemma update_arg_trail:
  assumes "has_delta H" and "update_arg L H v st = Inr st'" and "trail_ok st"
  shows "trail_ok st'"
proof (cases "is_obj v")
  case None
  with assms show ?thesis by (simp add: update_arg_def)
next
  case (Some arg)
  with assms(2) obtain st1 st2 where
    1: "frame_events L H arg st = Inr st1" and
    2: "(if cursor_text arg = [] then Inr st1 else take_text H (cursor_text arg) st1) = Inr st2" and
    3: "fold_steps (frame_message H) (as_arr (get arg ''messages'')) (note_throttling arg st2) = Inr st'"
    by (auto simp: update_arg_def split: sum.splits)
  have "trail_ok st2"
    using 2 take_text_trail [OF assms(1)] frame_events_trail [OF 1 assms(3)] by (auto split: if_splits)
  then have "trail_ok (note_throttling arg st2)" by simp
  with 3 show ?thesis
    by (rule fold_steps_keeps [where P = trail_ok, rotated])
      (auto simp: frame_message_def split: if_splits dest: take_text_trail [OF assms(1)])
qed

fun trail_progress :: "progress \<Rightarrow> bool" where
  "trail_progress (Running st) = trail_ok st"
| "trail_progress (Finished st) = trail_ok st"
| "trail_progress (Aborted e) = True"

lemma frame_step_trail: "has_delta H \<Longrightarrow> trail_ok st \<Longrightarrow> trail_progress (frame_step L H part st)"
proof -
  assume h: "has_delta H" and ok: "trail_ok st"
  have st1: "trail_ok (st\<lparr>raw_events := evs\<rparr>)" "trail_ok (st\<lparr>raw_events := evs, pongs := n\<rparr>)" for evs n
    using ok by (simp_all add: trail_ok_def)
  have "trail_ok s'" if "fold_steps (update_arg L H) vs (st\<lparr>raw_events := evs\<rparr>) = Inr s'" for vs evs s'
    using that st1(1) by (rule fold_steps_keeps [where P = trail_ok, rotated]) (rule update_arg_trail [OF h])
  with st1 ok show ?thesis by (auto simp: frame_step_def Let_def split: option.split json.split sum.split)
qed

lemma frames_trail: "has_delta H \<Longrightarrow> trail_ok st \<Longrightarrow> trail_progress (frames L H parts st)"
proof (induction parts arbitrary: st)
  case (Cons part parts)
  from frame_step_trail [OF Cons.prems, of L part] Cons show ?case
    by (cases "frame_step L H part st") auto
qed simp

lemma read_loop_trail:
  "has_delta H \<Longrightarrow> read_loop L H rs st = Some (Inr st') \<Longrightarrow> trail_ok st \<Longrightarrow> trail_ok st'"
proof (induction L H rs st rule: read_loop.induct)
  case (5 L H msg rs st)
  from frames_trail [OF 5(2) 5(4), of L "str_split record_separator msg"] 5 show ?case
    by (cases "frames L H (str_split record_separator msg) st") auto
qed simp_all

section \<open>The composition\<close>

text \<open>
  The events handed out before a turn has ended, as a success or not.  With handlers that never
  fail a frame that aborts the turn hands out nothing.
\<close>

fun frames_heard :: "golib \<Rightarrow> handlers \<Rightarrow> string list \<Rightarrow> turn \<Rightarrow> turn" where
  "frames_heard L H [] st = st"
| "frames_heard L H (part # parts) st =
     (case frame_step L H part st of
        Running st1 \<Rightarrow> frames_heard L H parts st1
      | Finished st1 \<Rightarrow> st1
      | Aborted e \<Rightarrow> st)"

fun turn_heard :: "golib \<Rightarrow> handlers \<Rightarrow> read list \<Rightarrow> turn \<Rightarrow> turn" where
  "turn_heard L H (Message msg # rs) st =
     (case frames L H (str_split record_separator msg) st of
        Running st1 \<Rightarrow> turn_heard L H rs st1
      | _ \<Rightarrow> frames_heard L H (str_split record_separator msg) st)"
| "turn_heard L H rs st = st"

text \<open>
  ChatHub as the handler sees it.  \<open>hb_link i\<close> is the network of the \<open>i\<close>-th turn, \<open>hb_ids i\<close> its
  random ids, \<open>hb_uuid i k\<close> the id the handler draws for its \<open>k\<close>-th event, and \<open>hb_error\<close> the text
  of an error.  A turn that panics or still waits for the network has no value in \<open>upstream\<close>; it
  is given the empty error, and the theorems are about turns that ended.
\<close>

record hub =
  hb_raw :: rawlib
  hb_net :: netlib
  hb_base64 :: "string \<Rightarrow> bool"
  hb_no_attachments :: json
  hb_link :: "nat \<Rightarrow> link"
  hb_ids :: "nat \<Rightarrow> turn_ids"
  hb_uuid :: "nat \<Rightarrow> nat \<Rightarrow> string"
  hb_error :: "turn_error \<Rightarrow> string"

definition hub_account_of :: "AccountToken \<Rightarrow> hub_account" where
  "hub_account_of acc = \<lparr>ha_AccessToken = at_AccessToken acc, ha_OID = at_OID acc, ha_TID = at_TID acc\<rparr>"

definition hub_chat :: "golib \<Rightarrow> hub \<Rightarrow> hub_account \<Rightarrow> nat \<Rightarrow> chat_request \<Rightarrow> turn_end \<times> sent_item list" where
  "hub_chat L E acc i req = chatWithHandlers L (hb_raw E) (hb_net E) (hb_base64 E) (hb_no_attachments E) listening
     (hb_link E i) (hb_ids E i) acc req"

definition payload_sent :: "sent_item list \<Rightarrow> bool" where
  "payload_sent out = (case rev out of Frame payload # Frame h # _ \<Rightarrow> True | _ \<Rightarrow> False)"

definition hub_upstream ::
    "golib \<Rightarrow> hub \<Rightarrow> hub_account \<Rightarrow> nat \<Rightarrow> chat_request \<Rightarrow> (string \<times> stream_event) list \<times> (string + chat_result)" where
  "hub_upstream L E acc i req =
     (case hub_chat L E acc i req of (r, out) \<Rightarrow>
        (map (\<lambda>(k, ev). (hb_uuid E i k, ev)) (enumerate 0
           (if payload_sent out then trail (turn_heard L listening (lk_reads (hb_link E i)) new_turn) else [])),
         case r of Done res \<Rightarrow> Inr res | Failed e \<Rightarrow> Inl (hb_error E e) | _ \<Rightarrow> Inl []))"

text \<open>The handler, with turns of the account it has chosen.\<close>

definition linked :: "gateway \<Rightarrow> hub \<Rightarrow> prepared \<Rightarrow> world \<Rightarrow> world" where
  "linked G E p w = w\<lparr>upstream := hub_upstream (lib G) E (hub_account_of (p_account p))\<rparr>"

definition linkedChat ::
    "gateway \<Rightarrow> hub \<Rightarrow> world \<Rightarrow> string \<Rightarrow> body_read \<Rightarrow> server \<Rightarrow> chat_reply \<times> server" where
  "linkedChat G E w http_method input s =
     (case prepare G w http_method input s of
        (Inl e, s1) \<Rightarrow> (Rejected e, s1)
      | (Inr p, s1) \<Rightarrow> openaiChat G (linked G E p w) http_method input s)"

lemma pick_account_linked: "pick_account K (linked G E p w) = pick_account K w"
  by (simp add: fun_eq_iff pick_account_def linked_def)

lemma prepare_linked [simp]: "prepare G (linked G E p w) m input s = prepare G w m input s"
  unfolding prepare_def prepare_body_def by (subst pick_account_linked) (rule refl)

lemma frames_heard_Finished: "frames L H parts st = Finished st' \<Longrightarrow> frames_heard L H parts st = st'"
  by (induction parts arbitrary: st) (auto split: progress.splits)

lemma turn_heard_done: "read_loop L H rs st = Some (Inr st') \<Longrightarrow> turn_heard L H rs st = st'"
  by (induction L H rs st rule: read_loop.induct) (auto simp: frames_heard_Finished split: progress.splits)

text \<open>What a turn that ended well gives to the handler.\<close>

lemma hub_upstream_done:
  assumes "snd (hub_upstream L E acc i req) = Inr res"
  obtains st where "read_loop L listening (lk_reads (hb_link E i)) new_turn = Some (Inr st)"
    "res_Text res = result_text st"
    "map snd (fst (hub_upstream L E acc i req)) = trail st"
    "ha_AccessToken acc \<noteq> []"
proof -
  obtain r out where c: "hub_chat L E acc i req = (r, out)" by fastforce
  with assms have "r = Done res" by (auto simp: hub_upstream_def split: turn_end.splits)
  with c have run: "chatWithHandlers L (hb_raw E) (hb_net E) (hb_base64 E) (hb_no_attachments E) listening
     (hb_link E i) (hb_ids E i) acc req = (Done res, out)" by (simp add: hub_chat_def)
  then show thesis
  proof (cases rule: chat_cases)
    case (conversed atts posts rest)
    note d = converse_done [OF conversed(5)]
    from d(5) obtain st where st: "read_loop L listening (lk_reads (hb_link E i)) new_turn = Some (Inr st)"
      "res_Text res = result_text st" by blast
    have "payload_sent out" using d(1) conversed(6) by (simp add: payload_sent_def)
    then have "map snd (fst (hub_upstream L E acc i req)) = trail st"
      by (simp add: hub_upstream_def c turn_heard_done [OF st(1)] case_prod_unfold comp_def)
    with st conversed(1) show thesis by (intro that)
  qed simp_all
qed

lemma gate_run_all_text:
  "all_text (gate_run evs g) = all_text g @ concat (map (event_text \<circ> snd) evs)"
  unfolding gate_run_def
proof (induction evs arbitrary: g)
  case (Cons e evs)
  have "all_text (gate_event (fst e) (snd e) g) = all_text g @ event_text (snd e)"
    by (auto simp: gate_event_def gate_text_def Let_def split: option.split)
  with Cons show ?case by (simp add: case_prod_unfold)
qed simp

section \<open>From the handler's reply back to its turn\<close>

lemma text_chunks_text: "concat (map line_text (text_chunks cid created model parts)) = concat parts"
proof -
  have "map line_text (text_chunks cid created model parts) = map snd (enumerate 0 parts)"
    unfolding text_chunks_def map_map by (rule map_cong [OF refl]) (simp add: chunk_def case_prod_unfold)
  then show ?thesis by simp
qed

lemma finish_text:
  assumes "stream_finish L tools choice n t (gate_run evs new_gate) = (TextDone, g)"
  shows "concat (sent g) = (if all_text (gate_run evs new_gate) = [] \<and> trim_space t \<noteq> [] then t
      else all_text (gate_run evs new_gate))"
  using assms gate_run_complete [OF new_gate_ok(1), of evs]
  by (auto simp: stream_finish_def recover_text_def gate_complete_def Let_def split: if_splits)

lemma stream_answer_text_shown:
  assumes "stream_answer G w p s = (StreamedText es, s1)"
  obtains i req evs res where "upstream w i req = (evs, Inr res)"
    "concat (map line_text es) = (if all_text (gate_run evs new_gate) = [] \<and> trim_space (res_Text res) \<noteq> []
       then res_Text res else all_text (gate_run evs new_gate))"
proof -
  obtain evs result t where c: "chat_turn w (p_account p) (stream_request G p) s = ((evs, result), t)"
    by (metis prod.exhaust_sel)
  then have up: "upstream w (length (sv_turns s)) (stream_request G p) = (evs, result)"
    by (simp add: chat_turn_def)
  from assms c obtain res g where r: "result = Inr res"
    "stream_finish (lib G) (p_tools p) (oq_ToolChoice (p_body p)) (call_limit G) (res_Text res) (gate_run evs new_gate)
       = (TextDone, g)"
    and es: "concat (map line_text es) = concat (sent g)"
    by (auto simp: stream_answer_def text_chunks_text Let_def split: sum.splits prod.splits stream_reply.splits)
  show thesis using that [OF up [unfolded r(1)]] finish_text [OF r(2)] es by simp
qed

lemma stream_path_text:
  assumes "stream_path G w p s = (StreamedText es, s1)"
  obtains t where "stream_answer G w p t = (StreamedText es, s1)"
  using assms by (auto simp: stream_path_def split: if_splits sum.splits prod.splits)

lemma json_path_text:
  assumes "json_path G w p s = (TextReply model res content, s1)"
  obtains i req evs res0 where "upstream w i req = (evs, Inr res0)" "TextReply model res content = text_reply p model res0"
proof -
  obtain a t where j: "json_router G w p s = (a, t)" by fastforce
  show thesis
  proof (cases a)
    case (Some r)
    with assms j have "json_router G w p s = (Some (TextReply model res content), t)" by (simp add: json_path_def)
    then show thesis by (rule json_router_reply) simp_all
  next
    case None
    with assms j have "json_answer G w p t = (TextReply model res content, s1)" by (simp add: json_path_def)
    then show thesis
    proof (cases rule: json_answer_cases)
      case (recovered m res' u)
      then show thesis by (elim native_recovery_reply) simp
    next
      case (shown m res' u)
      from shown(1) have "snd (upstream w (length (sv_turns t)) (answer_request G p)) = Inr res'"
        by (auto simp: Chat_def chat_turn_def)
      moreover from shown(2) have "m = model" by (simp add: text_reply_def Let_def)
      ultimately show thesis using that shown(2) by (metis prod.collapse)
    qed simp_all
  qed
qed

section \<open>Properties\<close>

text \<open>
  the caller's handlers cannot change what a turn results in: as long as they do not fail, the read
  loop ends in the same way and with the same text, frames and throttling as without handlers, so
  that \<open>Chat\<close> and \<open>ChatWithEvents\<close> have the same results.
\<close>
theorem handlers_do_not_change_the_result:
  assumes "patient H"
  shows "map_option core_sum (read_loop L H rs new_turn) = read_loop L silent rs new_turn"
  using read_loop_core [OF assms, of L rs new_turn] by simp

text \<open>
  C23: the handler on top of the client, streaming: the text in the client's event stream is the text that
  ChatHub streamed in one turn, or the turn's result where nothing was streamed, and that turn has
  read its completion frame.
\<close>
theorem streamed_text_is_the_text_of_a_turn:
  assumes "linkedChat G E w http_method input s = (StreamedText es, s1)"
  shows "\<exists>i st. read_loop (lib G) listening (lk_reads (hb_link E i)) new_turn = Some (Inr st)
    \<and> concat (map line_text es) =
        (if streamedText st = [] \<and> trim_space (result_text st) \<noteq> [] then result_text st else streamedText st)
    \<and> (\<exists>msgs msg post part. lk_reads (hb_link E i) = map Message msgs @ Message msg # post
         \<and> part \<in> set (str_split record_separator msg) \<and> completion_frame (lib G) part)"
proof -
  from assms obtain p where o: "openaiChat G (linked G E p w) http_method input s = (StreamedText es, s1)"
    by (auto simp: linkedChat_def split: sum.splits prod.splits)
  then show ?thesis
  proof (cases rule: handler_cases)
    case (streaming q t)
    obtain u where "stream_answer G (linked G E p w) q u = (StreamedText es, s1)"
      by (rule stream_path_text [OF streaming(3)])
    then obtain i req evs res where up: "upstream (linked G E p w) i req = (evs, Inr res)"
      and es: "concat (map line_text es) = (if all_text (gate_run evs new_gate) = [] \<and> trim_space (res_Text res) \<noteq> []
       then res_Text res else all_text (gate_run evs new_gate))" by (rule stream_answer_text_shown)
    let ?up = "hub_upstream (lib G) E (hub_account_of (p_account p)) i req"
    from up have u: "?up = (evs, Inr res)" by (simp add: linked_def)
    then have "snd ?up = Inr res" by simp
    then obtain st where st: "read_loop (lib G) listening (lk_reads (hb_link E i)) new_turn = Some (Inr st)"
      "res_Text res = result_text st" "map snd (fst ?up) = trail st" by (rule hub_upstream_done)
    have "trail_ok st" by (rule read_loop_trail [OF _ st(1)]) (simp_all add: trail_ok_def new_turn_def)
    moreover have "map snd evs = trail st" using st(3) u by simp
    ultimately have "all_text (gate_run evs new_gate) = streamedText st"
      by (simp add: gate_run_all_text trail_ok_def new_gate_def flip: map_map)
    with st(1,2) es read_loop_Inr [OF st(1)] show ?thesis by (intro exI [of _ i] exI [of _ st]) simp
  next
    case (plain q t)
    then show ?thesis using json_path_reply [OF plain(3)] by (auto simp: text_reply_def Let_def)
  qed simp
qed


section \<open>Witnesses\<close>

lemma quiet_patient: "patient quiet"
  by (simp add: patient_def quiet_def)

theorem handlers_do_not_change_the_result_witness:
  "read_loop frame_lib silent [Message ''hi'', Message ''done''] new_turn = Some (Inr (core hi_turn))"
  using handlers_do_not_change_the_result [OF quiet_patient, of frame_lib "[Message ''hi'', Message ''done'']"]
  unfolding hi_run by simp

text \<open>A gateway in native mode, and a ChatHub that streams the text \<open>hi\<close> in every turn.\<close>

definition hub_gateway :: gateway where
  "hub_gateway = (demo ''native'')\<lparr>gw_lib := \<lparr>base = frame_lib, ledger_json = (\<lambda>_ _ _. ''{}'')\<rparr>\<rparr>"

definition hi_hub :: hub where
  "hi_hub = \<lparr>hb_raw = no_raw, hb_net = http_only, hb_base64 = (\<lambda>_. True), hb_no_attachments = JNull,
     hb_link = (\<lambda>_. picture_link\<lparr>lk_reads := [Message ''hi'', Message ''done'']\<rparr>),
     hb_ids = (\<lambda>_. picture_ids), hb_uuid = (\<lambda>i k. ''e''), hb_error = (\<lambda>_. ''failed'')\<rparr>"

definition hi_request :: "bool \<Rightarrow> oaiReq" where
  "hi_request stream = (ask stream JNull hello)\<lparr>oq_Tools := []\<rparr>"

lemma hi_read: "read_loop frame_lib listening [Message ''hi'', Message ''done''] new_turn = Some (Inr hi_turn)"
  using hi_run by (simp add: quiet_def listening_def)

lemma hi_turn_texts [simp]: "streamedText hi_turn = ''hi''" "result_text hi_turn = ''hi''"
  by (simp_all add: hi_turn_def new_turn_def result_text_def)

lemma hi_images: "imageURLs frame_lib http_only (\<lambda>_. True) [''hi'', ''done''] = Some []"
  by code_simp

lemma hi_upstream:
  assumes "ha_AccessToken acc \<noteq> []" "ha_OID acc \<noteq> []" "ha_TID acc \<noteq> []"
    and "trim_space (cr_Text req) \<noteq> []" "cr_Attachments req = []"
  shows "\<exists>res. hub_upstream frame_lib hi_hub acc i req = ([(''e'', delta_event ''hi'')], Inr res)
    \<and> res_Text res = ''hi'' \<and> res_Events res = [''hi'', ''done'']"
proof -
  have t: "trail hi_turn = [delta_event ''hi'']" "raw_events hi_turn = [''hi'', ''done'']" "result_text hi_turn = ''hi''"
    by (simp_all add: hi_turn_def new_turn_def result_text_def)
  have heard: "turn_heard frame_lib listening [Message ''hi'', Message ''done''] new_turn = hi_turn"
    by (rule turn_heard_done [OF hi_read])
  let ?K = "hb_link hi_hub i"
  have link: "lk_dial ?K = None" "lk_handshake_send ?K = None" "lk_handshake_receive ?K = None" "lk_send ?K = None"
    "lk_reads ?K = [Message ''hi'', Message ''done'']"
    and hub: "hb_net hi_hub = http_only" "hb_base64 hi_hub = (\<lambda>_. True)"
    by (simp_all add: hi_hub_def picture_link_def)
  have up: "uploadAttachments frame_lib (\<lambda>_. True) (lk_upload ?K) acc c (cr_Attachments req) = (Inr [], [])" for c
    by (simp add: assms(5))
  obtain res where res: "hub_result frame_lib http_only (\<lambda>_. True) (turn_conversation (hb_ids hi_hub i) req)
      (turn_session (hb_ids hi_hub i) req) (ti_request (hb_ids hi_hub i)) hi_turn = Done res"
      "res_Text res = ''hi''" "res_Events res = [''hi'', ''done'']"
    by (simp add: hub_result_def t hi_images)
  from chat_done [OF assms(1-3) disjI1 [OF assms(4)] up link(1-4) hi_read [folded link(5)] res(1)]
  obtain out where "hub_chat frame_lib hi_hub acc i req = (Done res, out)" "payload_sent out"
    unfolding hub_chat_def hub by (fastforce simp: payload_sent_def)
  moreover have "lk_reads (hb_link hi_hub i) = [Message ''hi'', Message ''done'']" "hb_uuid hi_hub i k = ''e''" for k
    by (simp_all add: hi_hub_def)
  ultimately show ?thesis using t res(2,3) by (simp add: hub_upstream_def heard del: turn_heard.simps)
qed

text \<open>What the guards make of the request.\<close>

definition hi_ready :: "bool \<Rightarrow> bool" where
  "hi_ready stream =
     (case fst (prepare hub_gateway (answers []) ''POST'' (Body (hi_request stream)) demo_server) of
        Inl e \<Rightarrow> False
      | Inr p \<Rightarrow> p_account p = demo_account \<and> oq_Stream (p_body p) = stream \<and> p_tools p = []
          \<and> oq_Attachments (p_body p) = [] \<and> oq_Tools (p_body p) = []
          \<and> p_prompt p \<noteq> [] \<and> visible (hd (p_prompt p)))"

lemma hi_all_ready: "hi_ready True" "hi_ready False"
  by code_simp+

lemma no_fenced_calls: "fencedToolCalls L src [] choice = []"
proof -
  have "c \<notin> set (fencedToolCalls L src [] choice)" for c
    using fencedToolCalls_legal [of c L src "[]" choice] by (auto simp: allowedToolNames_def)
  then show ?thesis by (cases "fencedToolCalls L src [] choice") auto
qed

lemma no_native_calls: "nativeToolCalls frame_lib [''hi'', ''done''] [] = []"
  by code_simp

lemma stream_answer_speaks:
  assumes "upstream w (length (sv_turns s)) (stream_request G p) = (evs, Inr res)"
    and "p_tools p = []" and "streamedTools (gate_run evs new_gate) = []"
  shows "\<exists>es t. stream_answer G w p s = (StreamedText es, t)"
  using assms
  by (simp add: stream_answer_def chat_turn_def stream_finish_def no_fenced_calls recover_text_def Let_def)

lemma json_answer_speaks:
  assumes "snd (upstream w (length (sv_turns s)) (answer_request G p)) = Inr res"
    and "nativeToolCalls (lib G) (res_Events res) (oq_Tools (p_body p)) = []" and "p_tools p = []"
  shows "\<exists>model t. json_answer G w p s = (text_reply p model res, t)"
  using assms
  by (cases "upstream w (length (sv_turns s)) (answer_request G p)")
    (auto simp: json_answer_def native_recovery_def Chat_def chat_turn_def no_fenced_calls Let_def)

lemma hi_gateway: "lib hub_gateway = frame_lib" "ToolPlanningMode (gw_settings hub_gateway) = ''native''"
  by (simp_all add: hub_gateway_def demo_def lib_def)

lemma hi_account: "ha_AccessToken (hub_account_of demo_account) \<noteq> []" "ha_OID (hub_account_of demo_account) \<noteq> []"
    "ha_TID (hub_account_of demo_account) \<noteq> []"
  by (simp_all add: hub_account_of_def demo_account_def)

lemma hi_prepared:
  assumes "hi_ready stream"
  obtains p t where "prepare hub_gateway (answers []) ''POST'' (Body (hi_request stream)) demo_server = (Inr p, t)"
    "p_account p = demo_account" "oq_Stream (p_body p) = stream" "p_tools p = []" "oq_Tools (p_body p) = []"
    "cr_Attachments (stream_request hub_gateway p) = []" "cr_Attachments (answer_request hub_gateway p) = []"
    "trim_space (cr_Text (stream_request hub_gateway p)) \<noteq> []" "trim_space (cr_Text (answer_request hub_gateway p)) \<noteq> []"
proof (cases "prepare hub_gateway (answers []) ''POST'' (Body (hi_request stream)) demo_server")
  case (Pair a t)
  with assms obtain p where p: "a = Inr p" "p_account p = demo_account" "oq_Stream (p_body p) = stream" "p_tools p = []"
    "oq_Attachments (p_body p) = []" "oq_Tools (p_body p) = []" "p_prompt p \<noteq> []" "visible (hd (p_prompt p))"
    by (auto simp: hi_ready_def split: sum.splits)
  have "trim_space (p_prompt p @ more) \<noteq> []" for more using p(7,8) by (intro trim_space_nonempty) auto
  then show thesis
    using that Pair p
    by (simp add: stream_request_def answer_request_def stream_answer_text_def answer_text_def Let_def)
qed

theorem streamed_text_is_the_text_of_a_turn_witness:
  "\<exists>es s1. linkedChat hub_gateway hi_hub (answers []) ''POST'' (Body (hi_request True)) demo_server = (StreamedText es, s1)
    \<and> concat (map line_text es) = ''hi''"
proof -
  obtain p t where p: "prepare hub_gateway (answers []) ''POST'' (Body (hi_request True)) demo_server = (Inr p, t)"
    "p_account p = demo_account" "oq_Stream (p_body p)" "p_tools p = []"
    "cr_Attachments (stream_request hub_gateway p) = []" "trim_space (cr_Text (stream_request hub_gateway p)) \<noteq> []"
    using hi_prepared [OF hi_all_ready(1)] by metis
  let ?w = "linked hub_gateway hi_hub p (answers [])"
  from hi_upstream [OF hi_account p(6,5)] obtain res where up:
    "upstream ?w (length (sv_turns t)) (stream_request hub_gateway p) = ([(''e'', delta_event ''hi'')], Inr res)"
    "res_Text res = ''hi''" by (auto simp: linked_def hi_gateway p(2))
  have "streamedTools (gate_run [(''e'', delta_event ''hi'')] new_gate) = []" by code_simp
  from stream_answer_speaks [OF up(1) p(4) this] obtain es s1 where
    "stream_answer hub_gateway ?w p t = (StreamedText es, s1)" by blast
  then have run: "linkedChat hub_gateway hi_hub (answers []) ''POST'' (Body (hi_request True)) demo_server = (StreamedText es, s1)"
    using p(1,3,4) by (simp add: linkedChat_def openaiChat_def stream_path_def)
  from streamed_text_is_the_text_of_a_turn [OF run] obtain i st where
    "read_loop frame_lib listening (lk_reads (hb_link hi_hub i)) new_turn = Some (Inr st)"
    "concat (map line_text es) = (if streamedText st = [] \<and> trim_space (result_text st) \<noteq> [] then result_text st else streamedText st)"
    unfolding hi_gateway by blast
  moreover have "lk_reads (hb_link hi_hub i) = [Message ''hi'', Message ''done'']" by (simp add: hi_hub_def)
  moreover from calculation have "st = hi_turn" using hi_read by (simp del: read_loop.simps)
  ultimately have "concat (map line_text es) = ''hi''" by simp
  with run show ?thesis by blast
qed


end
