(* ===== verification/JsonDecode.thy ===== *)
theory JsonDecode
  imports ToolDecision
begin

text \<open>
  How \<open>json.Unmarshal\<close> fills fields of the basic types: null leaves the zero value, a value of another
  type is an error.  A number in the text counts as an integer when its value is one.
\<close>

definition decode_int :: "json \<Rightarrow> int option" where
  "decode_int v = (case v of
      JNull \<Rightarrow> Some 0
    | JNum NegZero \<Rightarrow> Some 0
    | JNum (Finite r) \<Rightarrow> (case quotient_of r of (n, d) \<Rightarrow>
        if d = 1 \<and> - (2 ^ 63) \<le> n \<and> n < 2 ^ 63 then Some n else None)
    | _ \<Rightarrow> None)"

definition decode_bool :: "json \<Rightarrow> bool option" where
  "decode_bool v = (case v of JNull \<Rightarrow> Some False | JBool b \<Rightarrow> Some b | _ \<Rightarrow> None)"

definition decode_list :: "(json \<Rightarrow> 'a option) \<Rightarrow> json \<Rightarrow> 'a list option" where
  "decode_list f v = (case v of JNull \<Rightarrow> Some [] | JArr xs \<Rightarrow> those (map f xs) | _ \<Rightarrow> None)"

text \<open>A pointer: \<open>nil\<close> for null.\<close>

definition decode_pointer :: "(json \<Rightarrow> 'a option) \<Rightarrow> json \<Rightarrow> 'a option option" where
  "decode_pointer f v = (if v = JNull then Some None else map_option Some (f v))"

text \<open>A \<open>json.RawMessage\<close>: what is there, null included.\<close>

definition raw_field :: "obj \<Rightarrow> string \<Rightarrow> json option" where
  "raw_field m k = map_option snd (find (\<lambda>(k', _). equal_fold k' k) (rev m))"

end
