(* ===== verification/McpClient.thy ===== *)
theory McpClient
  imports JsonDecode Prelude
begin

text \<open>
  The client of a Model Context Protocol server, src/internal/mcp/client.go and tools.go: JSON-RPC
  over the standard input and output of a process.  A request writes one line and starts a goroutine
  that reads lines until a response arrives; the caller waits for that goroutine or for the end of
  its context, whichever comes first.

  The operations are functions on the client; what the waiting yields is an argument of theirs.  The
  section on goroutines has the client, the goroutines and the server as one system, where several
  goroutines can be reading at a time, and derives what the waiting can yield.

  A number in a line counts as an integer when its value is one; a value that does not decode is
  dropped with its error (Go keeps the fields it could decode).
\<close>

section \<open>Messages\<close>

record mcp_tool =
  mt_Name :: string
  mt_Description :: string
  mt_InputSchema :: "obj option"

text \<open>\<open>cres_Content\<close> is \<open>None\<close> for the nil slice.\<close>

record call_result =
  cres_Content :: "obj option list option"
  cres_StructuredData :: json
  cres_IsError :: bool

record rpc_error =
  re_Code :: int
  re_Message :: string

text \<open>Of a response; \<open>rr_Result\<close> is \<open>None\<close> where the field is not there.  Its other fields are decoded
  but not read.\<close>

record rpc_response =
  rr_ID :: "int option"
  rr_Result :: "json option"
  rr_Error :: "rpc_error option"

definition rpcError :: "json \<Rightarrow> rpc_error option" where
  "rpcError v = do {
     m \<leftarrow> is_obj v;
     code \<leftarrow> decode_int (struct_field m ''code'');
     message \<leftarrow> decode_string (struct_field m ''message'');
     Some \<lparr>re_Code = code, re_Message = message\<rparr>
   }"

definition rpcResponse :: "json \<Rightarrow> rpc_response option" where
  "rpcResponse v = (if v = JNull then Some \<lparr>rr_ID = None, rr_Result = None, rr_Error = None\<rparr> else do {
     m \<leftarrow> is_obj v;
     _ \<leftarrow> decode_string (struct_field m ''jsonrpc'');
     i \<leftarrow> decode_pointer decode_int (struct_field m ''id'');
     _ \<leftarrow> decode_string (struct_field m ''method'');
     e \<leftarrow> decode_pointer rpcError (struct_field m ''error'');
     Some \<lparr>rr_ID = i, rr_Result = raw_field m ''result'', rr_Error = e\<rparr>
   })"

definition rpc_decode :: "golib \<Rightarrow> string \<Rightarrow> rpc_response option" where
  "rpc_decode L line = Option.bind (unmarshal L line) rpcResponse"

definition decode_tool :: "json \<Rightarrow> mcp_tool option" where
  "decode_tool v = (if v = JNull then Some \<lparr>mt_Name = [], mt_Description = [], mt_InputSchema = None\<rparr> else do {
     m \<leftarrow> is_obj v;
     name \<leftarrow> decode_string (struct_field m ''name'');
     description \<leftarrow> decode_string (struct_field m ''description'');
     schema \<leftarrow> decode_map (struct_field m ''inputSchema'');
     Some \<lparr>mt_Name = name, mt_Description = description, mt_InputSchema = schema\<rparr>
   })"

definition decode_tools :: "json \<Rightarrow> mcp_tool list option" where
  "decode_tools v = (if v = JNull then Some [] else do {
     m \<leftarrow> is_obj v;
     decode_list decode_tool (struct_field m ''tools'')
   })"

definition decode_call_result :: "json \<Rightarrow> call_result option" where
  "decode_call_result v = (if v = JNull then Some \<lparr>cres_Content = None, cres_StructuredData = JNull, cres_IsError = False\<rparr> else do {
     m \<leftarrow> is_obj v;
     content \<leftarrow> decode_pointer (decode_list decode_map) (struct_field m ''content'');
     is_error \<leftarrow> decode_bool (struct_field m ''isError'');
     Some \<lparr>cres_Content = content, cres_StructuredData = struct_field m ''structuredContent'', cres_IsError = is_error\<rparr>
   })"

section \<open>The goroutine of a request\<close>

text \<open>What a read of the process's output yields: a line, or an error, after which there is nothing more.\<close>

datatype mcp_line = Line string | Broken string

datatype mcp_error =
    ClientClosed
  | WriteFailed string
  | ContextDone string
  | ReadFailed string
  | BadLine
  | RpcFailed int string
  | BadResult

text \<open>One turn of the loop: \<open>None\<close> for a notification, which is ignored.\<close>

definition heard :: "golib \<Rightarrow> mcp_line \<Rightarrow> (mcp_error + rpc_response) option" where
  "heard L l = (case l of
      Broken e \<Rightarrow> Some (Inl (ReadFailed e))
    | Line t \<Rightarrow> (case rpc_decode L t of
        None \<Rightarrow> Some (Inl BadLine)
      | Some r \<Rightarrow> if rr_ID r = None then None else Some (Inr r)))"

text \<open>The whole loop; \<open>None\<close> where it is still reading.\<close>

fun reader :: "golib \<Rightarrow> mcp_line list \<Rightarrow> ((mcp_error + rpc_response) \<times> mcp_line list) option" where
  "reader L [] = None"
| "reader L (l # ls) = (case heard L l of
      None \<Rightarrow> reader L ls
    | Some x \<Rightarrow> Some (x, case l of Broken _ \<Rightarrow> l # ls | Line _ \<Rightarrow> ls))"

section \<open>The client\<close>

record client =
  nextID :: int
  closed :: bool
  killed :: bool
  toolCache :: "mcp_tool list"
  stdin_lines :: "string list"

definition StartStdio :: client where
  "StartStdio = \<lparr>nextID = 1, closed = False, killed = False, toolCache = [], stdin_lines = []\<rparr>"

definition optional_params :: "json option \<Rightarrow> obj" where
  "optional_params p = (case p of None \<Rightarrow> [] | Some v \<Rightarrow> [(''params'', v)])"

definition request_line :: "golib \<Rightarrow> int \<Rightarrow> string \<Rightarrow> json option \<Rightarrow> string" where
  "request_line L i meth params =
     marshal L (JObj ([(''id'', JNum (Finite (of_int i))), (''jsonrpc'', JStr ''2.0''), (''method'', JStr meth)]
       @ optional_params params)) @ [CHR 0x0A]"

definition notification_line :: "golib \<Rightarrow> string \<Rightarrow> json option \<Rightarrow> string" where
  "notification_line L meth params =
     marshal L (JObj ([(''jsonrpc'', JStr ''2.0''), (''method'', JStr meth)] @ optional_params params)) @ [CHR 0x0A]"

text \<open>\<open>request\<close> up to its goroutine; \<open>wr\<close> is the error of the write, if it fails.\<close>

definition request_start ::
    "golib \<Rightarrow> string \<Rightarrow> json option \<Rightarrow> string option \<Rightarrow> client \<Rightarrow> (mcp_error + int) \<times> client" where
  "request_start L meth params wr c =
     (if closed c then (Inl ClientClosed, c)
      else
        let i = nextID c;
            c1 = c\<lparr>nextID := wrap64 (i + 1)\<rparr>
        in case wr of
             Some e \<Rightarrow> (Inl (WriteFailed e), c1)
           | None \<Rightarrow> (Inr i, c1\<lparr>stdin_lines := stdin_lines c1 @ [request_line L i meth params]\<rparr>))"

text \<open>\<open>request\<close> after the select.\<close>

definition request_end :: "(json \<Rightarrow> 'a option) \<Rightarrow> mcp_error + rpc_response \<Rightarrow> mcp_error + 'a" where
  "request_end decode x = (case x of
      Inl e \<Rightarrow> Inl e
    | Inr r \<Rightarrow> (case rr_Error r of
        Some e \<Rightarrow> Inl (RpcFailed (re_Code e) (re_Message e))
      | None \<Rightarrow> (case Option.bind (rr_Result r) decode of None \<Rightarrow> Inl BadResult | Some y \<Rightarrow> Inr y)))"

definition rpc_request ::
    "golib \<Rightarrow> string \<Rightarrow> json option \<Rightarrow> (json \<Rightarrow> 'a option) \<Rightarrow> string option \<Rightarrow> mcp_error + rpc_response
      \<Rightarrow> client \<Rightarrow> (mcp_error + 'a) \<times> client" where
  "rpc_request L meth params decode wr waited c =
     (case request_start L meth params wr c of
        (Inl e, c1) \<Rightarrow> (Inl e, c1)
      | (Inr i, c1) \<Rightarrow> (request_end decode waited, c1))"

definition notify :: "golib \<Rightarrow> string \<Rightarrow> json option \<Rightarrow> string option \<Rightarrow> client \<Rightarrow> mcp_error option \<times> client" where
  "notify L meth params wr c =
     (if closed c then (Some ClientClosed, c)
      else case wr of
        Some e \<Rightarrow> (Some (WriteFailed e), c)
      | None \<Rightarrow> (None, c\<lparr>stdin_lines := stdin_lines c @ [notification_line L meth params]\<rparr>))"

definition init_params :: json where
  "init_params = JObj [(''capabilities'', JObj []),
     (''clientInfo'', JObj [(''name'', JStr ''m365-native''), (''version'', JStr ''0.1.0'')]),
     (''protocolVersion'', JStr ''2024-11-05'')]"

definition Initialize ::
    "golib \<Rightarrow> string option \<Rightarrow> mcp_error + rpc_response \<Rightarrow> string option \<Rightarrow> client \<Rightarrow> mcp_error option \<times> client" where
  "Initialize L wr waited wr2 c =
     (case rpc_request L ''initialize'' (Some init_params) decode_map wr waited c of
        (Inl e, c1) \<Rightarrow> (Some e, c1)
      | (Inr _, c1) \<Rightarrow> notify L ''notifications/initialized'' None wr2 c1)"

definition ListTools ::
    "golib \<Rightarrow> string option \<Rightarrow> mcp_error + rpc_response \<Rightarrow> client \<Rightarrow> (mcp_error + mcp_tool list) \<times> client" where
  "ListTools L wr waited c = rpc_request L ''tools/list'' None decode_tools wr waited c"

definition CallTool ::
    "golib \<Rightarrow> string \<Rightarrow> json \<Rightarrow> string option \<Rightarrow> mcp_error + rpc_response \<Rightarrow> client
      \<Rightarrow> (mcp_error + call_result) \<times> client" where
  "CallTool L name args wr waited c =
     rpc_request L ''tools/call'' (Some (JObj [(''arguments'', args), (''name'', JStr name)])) decode_call_result wr waited c"

text \<open>The result is the outcome of the kill, when the process is killed.\<close>

definition Close :: "string option \<Rightarrow> client \<Rightarrow> string option \<times> client" where
  "Close kill c = (if closed c then (None, c) else (kill, c\<lparr>closed := True, killed := True\<rparr>))"

section \<open>The cache of tools\<close>

definition Replace :: "mcp_tool list \<Rightarrow> client \<Rightarrow> client" where
  "Replace tools c = c\<lparr>toolCache := tools\<rparr>"

definition CachedTools :: "client \<Rightarrow> mcp_tool list" where
  "CachedTools c = toolCache c"

definition Find :: "string \<Rightarrow> client \<Rightarrow> mcp_tool option" where
  "Find name c = find (\<lambda>t. mt_Name t = name) (toolCache c)"

definition RefreshTools ::
    "golib \<Rightarrow> string option \<Rightarrow> mcp_error + rpc_response \<Rightarrow> client \<Rightarrow> (mcp_error + mcp_tool list) \<times> client" where
  "RefreshTools L wr waited c =
     (case ListTools L wr waited c of
        (Inl e, c1) \<Rightarrow> (Inl e, c1)
      | (Inr tools, c1) \<Rightarrow> (Inr tools, Replace tools c1))"

section \<open>The result of a call\<close>

definition block_text :: "obj option \<Rightarrow> string list" where
  "block_text b =
     (let m = (case b of None \<Rightarrow> [] | Some m \<Rightarrow> m) in
      if as_str (get m ''type'') \<noteq> ''text'' then []
      else if as_str (get m ''text'') \<noteq> [] then [as_str (get m ''text'')] else [])"

definition call_text :: "call_result \<Rightarrow> string" where
  "call_text r = str_join [CHR 0x0A] (concat (map block_text (case cres_Content r of None \<Rightarrow> [] | Some bs \<Rightarrow> bs)))"

definition ContentJSON :: "golib \<Rightarrow> call_result \<Rightarrow> string" where
  "ContentJSON L r =
     marshal L (case cres_Content r of
        None \<Rightarrow> JNull
      | Some bs \<Rightarrow> JArr (map (\<lambda>b. case b of None \<Rightarrow> JNull | Some m \<Rightarrow> JObj m) bs))"

section \<open>Goroutines\<close>

text \<open>
  The client, its goroutines and the server.  \<open>asking\<close> is the id of the request that holds the mutex
  and waits, \<open>channel\<close> what its goroutine has sent it; \<open>readers\<close> are the goroutines still in their
  loop, by the id of the request that started them: a caller that gives up does not stop its
  goroutine.  A line goes to one of them as a whole (they share the buffered reader without a lock,
  so that even this is more than the code ensures).  \<open>out_lines\<close> is what the server has written and
  nobody has read, \<open>owed\<close> the ids of the requests written that the server has not answered,
  \<open>outcomes\<close> how the requests ended.
\<close>

record mcp_sys =
  cl :: client
  asking :: "int option"
  channel :: "(mcp_error + rpc_response) option"
  readers :: "int list"
  out_lines :: "mcp_line list"
  owed :: "int list"
  outcomes :: "(int \<times> (mcp_error + rpc_response)) list"

definition new_sys :: mcp_sys where
  "new_sys = \<lparr>cl = StartStdio, asking = None, channel = None, readers = [], out_lines = [], owed = [], outcomes = []\<rparr>"

datatype action =
    Ask string "json option" "string option"
  | Serve mcp_line
  | ReadBy int
  | Receive
  | GiveUp string
  | Tell string "json option" "string option"
  | Shut "string option"

text \<open>The id a line answers.\<close>

definition answers_id :: "golib \<Rightarrow> mcp_line \<Rightarrow> int option" where
  "answers_id L l = (case heard L l of Some (Inr r) \<Rightarrow> rr_ID r | _ \<Rightarrow> None)"

definition read_by :: "golib \<Rightarrow> int \<Rightarrow> mcp_sys \<Rightarrow> mcp_sys option" where
  "read_by L i s = (case out_lines s of
      [] \<Rightarrow> None
    | l # ls \<Rightarrow>
        if i \<notin> set (readers s) then None
        else
          let s1 = s\<lparr>out_lines := (case l of Broken _ \<Rightarrow> l # ls | Line _ \<Rightarrow> ls)\<rparr>
          in Some (case heard L l of
                None \<Rightarrow> s1
              | Some x \<Rightarrow> s1\<lparr>readers := remove1 i (readers s),
                  channel := (if asking s = Some i then Some x else channel s)\<rparr>))"

definition finish_request :: "mcp_error + rpc_response \<Rightarrow> int \<Rightarrow> mcp_sys \<Rightarrow> mcp_sys" where
  "finish_request x i s = s\<lparr>asking := None, channel := None, outcomes := outcomes s @ [(i, x)]\<rparr>"

text \<open>\<open>None\<close> where the action cannot happen: while a request waits it holds the mutex.\<close>

fun act :: "golib \<Rightarrow> action \<Rightarrow> mcp_sys \<Rightarrow> mcp_sys option" where
  "act L (Ask meth params wr) s =
     (if asking s \<noteq> None then None
      else Some (case request_start L meth params wr (cl s) of
             (Inl e, c1) \<Rightarrow> s\<lparr>cl := c1\<rparr>
           | (Inr i, c1) \<Rightarrow> s\<lparr>cl := c1, asking := Some i, channel := None, readers := readers s @ [i],
               owed := owed s @ [i]\<rparr>))"
| "act L (Serve l) s =
     Some (s\<lparr>out_lines := out_lines s @ [l],
        owed := (case answers_id L l of None \<Rightarrow> owed s | Some i \<Rightarrow> remove1 i (owed s))\<rparr>)"
| "act L (ReadBy i) s = read_by L i s"
| "act L Receive s = (case (asking s, channel s) of
      (Some i, Some x) \<Rightarrow> Some (finish_request x i s)
    | _ \<Rightarrow> None)"
| "act L (GiveUp e) s = (case asking s of
      Some i \<Rightarrow> Some (finish_request (Inl (ContextDone e)) i s)
    | None \<Rightarrow> None)"
| "act L (Tell meth params wr) s =
     (if asking s \<noteq> None then None else Some (s\<lparr>cl := snd (notify L meth params wr (cl s))\<rparr>))"
| "act L (Shut kill) s =
     (if asking s \<noteq> None then None else Some (s\<lparr>cl := snd (Close kill (cl s))\<rparr>))"

text \<open>A server that keeps to the protocol: whole lines that decode, and only answers that it owes.\<close>

definition honest :: "golib \<Rightarrow> action \<Rightarrow> mcp_sys \<Rightarrow> bool" where
  "honest L a s = (case a of
      Serve l \<Rightarrow> (case heard L l of
          None \<Rightarrow> True
        | Some (Inl _) \<Rightarrow> False
        | Some (Inr r) \<Rightarrow> list_ex (\<lambda>i. rr_ID r = Some i) (owed s))
    | _ \<Rightarrow> True)"

definition patient :: "golib \<Rightarrow> action \<Rightarrow> mcp_sys \<Rightarrow> bool" where
  "patient L a s = (honest L a s \<and> (case a of GiveUp _ \<Rightarrow> False | _ \<Rightarrow> True))"

inductive runs :: "golib \<Rightarrow> (action \<Rightarrow> mcp_sys \<Rightarrow> bool) \<Rightarrow> action list \<Rightarrow> mcp_sys \<Rightarrow> bool" for L P where
  start: "runs L P [] new_sys"
| step: "runs L P as s \<Longrightarrow> P a s \<Longrightarrow> act L a s = Some s' \<Longrightarrow> runs L P (as @ [a]) s'"

section \<open>Runs\<close>

text \<open>What a goroutine would make of the lines.\<close>

definition sounds :: "golib \<Rightarrow> mcp_line list \<Rightarrow> (mcp_error + rpc_response) list" where
  "sounds L ls = List.map_filter (heard L) ls"

lemma sounds_simps [simp]:
  "sounds L [] = []"
  "sounds L (l # ls) = (case heard L l of None \<Rightarrow> sounds L ls | Some x \<Rightarrow> x # sounds L ls)"
  "sounds L (ls @ ls') = sounds L ls @ sounds L ls'"
  by (auto simp: sounds_def List.map_filter_def split: option.split)

lemma finish_simps [simp]:
  "asking (finish_request x i s) = None" "channel (finish_request x i s) = None" "readers (finish_request x i s) = readers s"
  "out_lines (finish_request x i s) = out_lines s" "owed (finish_request x i s) = owed s" "cl (finish_request x i s) = cl s"
  "outcomes (finish_request x i s) = outcomes s @ [(i, x)]"
  by (simp_all add: finish_request_def)

lemma read_byE:
  assumes "read_by L i s = Some s'"
  obtains l ls where "out_lines s = l # ls" "i \<in> set (readers s)" "heard L l = None"
      "s' = s\<lparr>out_lines := ls\<rparr>"
  | l ls x where "out_lines s = l # ls" "i \<in> set (readers s)" "heard L l = Some x"
      "s' = s\<lparr>out_lines := (case l of Broken _ \<Rightarrow> l # ls | Line _ \<Rightarrow> ls), readers := remove1 i (readers s),
         channel := (if asking s = Some i then Some x else channel s)\<rparr>"
proof (cases "out_lines s")
  case (Cons l ls)
  with assms have i: "i \<in> set (readers s)" by (auto simp: read_by_def split: if_splits)
  show thesis
  proof (cases "heard L l")
    case None
    moreover from None have "\<exists>t. l = Line t" by (cases l) (auto simp: heard_def)
    ultimately show thesis using assms Cons i that(1) by (auto simp: read_by_def)
  qed (use assms Cons i that(2) in \<open>auto simp: read_by_def Let_def\<close>)
qed (use assms in \<open>simp add: read_by_def\<close>)

text \<open>While every request is waited for, at most one answer is on its way, and it is the right one.\<close>

definition in_step :: "golib \<Rightarrow> mcp_sys \<Rightarrow> bool" where
  "in_step L s \<longleftrightarrow> (case asking s of
      None \<Rightarrow> readers s = [] \<and> owed s = [] \<and> sounds L (out_lines s) = []
    | Some i \<Rightarrow> (case channel s of
        None \<Rightarrow> readers s = [i] \<and> (owed s = [i] \<and> sounds L (out_lines s) = []
          \<or> owed s = [] \<and> (\<exists>r. sounds L (out_lines s) = [Inr r] \<and> rr_ID r = Some i))
      | Some x \<Rightarrow> readers s = [] \<and> owed s = [] \<and> sounds L (out_lines s) = [] \<and> (\<exists>r. x = Inr r \<and> rr_ID r = Some i)))"

lemma start_cases:
  obtains e c1 where "request_start L meth params wr c = (Inl e, c1)"
  | c1 where "request_start L meth params wr c = (Inr (nextID c), c1)"
proof (cases "closed c")
  case True
  with that(1) show thesis by (simp add: request_start_def)
next
  case False
  with that show thesis by (cases wr) (simp_all add: request_start_def Let_def)
qed

lemma in_step_act:
  assumes "in_step L s" "patient L a s" "act L a s = Some s'"
  shows "in_step L s'"
proof (cases a)
  case (Ask meth params wr)
  show ?thesis
    by (rule start_cases [of L meth params wr "cl s"])
      (use assms Ask in \<open>auto simp: in_step_def split: if_splits\<close>)
next
  case (Serve l)
  then show ?thesis
    using assms
    by (auto simp: in_step_def patient_def honest_def answers_id_def split: option.splits sum.splits)
next
  case (ReadBy i)
  with assms(3) have "read_by L i s = Some s'" by simp
  then show ?thesis
    by (rule read_byE) (use assms(1) in \<open>auto simp: in_step_def heard_def split: option.splits mcp_line.splits if_splits\<close>)
qed (use assms in \<open>auto simp: in_step_def patient_def split: option.splits if_splits\<close>)

lemma runs_in_step: "runs L (patient L) as s \<Longrightarrow> in_step L s"
proof (induction rule: runs.induct)
  case start
  then show ?case by (simp add: in_step_def new_sys_def)
qed (rule in_step_act)

fun acts :: "golib \<Rightarrow> (action \<Rightarrow> mcp_sys \<Rightarrow> bool) \<Rightarrow> action list \<Rightarrow> mcp_sys \<Rightarrow> mcp_sys option" where
  "acts L P [] s = Some s"
| "acts L P (a # as) s = (if P a s then Option.bind (act L a s) (acts L P as) else None)"

lemma acts_append: "acts L P (as @ bs) s = Option.bind (acts L P as s) (acts L P bs)"
  by (induction as arbitrary: s) (auto split: Option.bind_split)

lemma runs_acts: "runs L P as s \<Longrightarrow> acts L P bs s = Some s' \<Longrightarrow> runs L P (as @ bs) s'"
proof (induction bs arbitrary: as s)
  case (Cons b bs)
  from Cons.prems(2) obtain s1 where "P b s" "act L b s = Some s1" "acts L P bs s1 = Some s'"
    by (auto split: if_splits Option.bind_splits)
  with Cons.IH [OF runs.step [OF Cons.prems(1)]] show ?case by simp
qed simp

lemmas acts_run = runs_acts [OF runs.start, unfolded append_Nil]

text \<open>A goroutine that reads alone.\<close>

lemma lone_reader_steps:
  assumes "reader L ls = Some (x, rest)" "out_lines s = ls" "asking s = Some i" "readers s = [i]"
  shows "\<exists>n. acts L (\<lambda>_ _. True) (replicate n (ReadBy i)) s = Some (s\<lparr>out_lines := rest, readers := [], channel := Some x\<rparr>)"
  using assms
proof (induction L ls arbitrary: s rule: reader.induct)
  case (2 L l ls)
  show ?case
  proof (cases "heard L l")
    case None
    with 2(3-) have "read_by L i s = Some (s\<lparr>out_lines := ls\<rparr>)"
      by (cases l) (auto simp: read_by_def heard_def)
    moreover have "\<exists>n. acts L (\<lambda>_ _. True) (replicate n (ReadBy i)) (s\<lparr>out_lines := ls\<rparr>)
        = Some (s\<lparr>out_lines := ls, out_lines := rest, readers := [], channel := Some x\<rparr>)"
      using None 2(2-) by (intro 2(1)) auto
    ultimately show ?thesis by (auto intro: exI [of _ "Suc _"])
  next
    case (Some y)
    with 2(2) have "y = x" "rest = (case l of Broken _ \<Rightarrow> l # ls | Line _ \<Rightarrow> ls)" by auto
    with Some 2(3-) have "acts L (\<lambda>_ _. True) (replicate 1 (ReadBy i)) s = Some (s\<lparr>out_lines := rest, readers := [], channel := Some x\<rparr>)"
      by (simp add: read_by_def)
    then show ?thesis by blast
  qed
qed simp

text \<open>The ids: the requests so far have used up those below \<open>nextID\<close>, in this order.\<close>

definition asked :: "mcp_sys \<Rightarrow> int list" where
  "asked s = map fst (outcomes s) @ (case asking s of None \<Rightarrow> [] | Some i \<Rightarrow> [i])"

lemma act_asked:
  assumes "act L a s = Some s'"
  shows "asked s' = asked s \<and> nextID (cl s') = nextID (cl s)
    \<or> (asked s' = asked s \<or> asked s' = asked s @ [nextID (cl s)]) \<and> nextID (cl s') = wrap64 (nextID (cl s) + 1)"
proof (cases a)
  case (Ask meth params wr)
  with assms show ?thesis
    by (auto simp: asked_def request_start_def Let_def split: if_splits option.splits)
next
  case (ReadBy i)
  with assms have "read_by L i s = Some s'" by simp
  then show ?thesis by (rule read_byE) (simp_all add: asked_def)
qed (use assms in \<open>auto simp: asked_def notify_def Close_def split: option.splits if_splits\<close>)

lemma runs_asked:
  assumes "runs L P as s" "length as < 2 ^ 62"
  shows "sorted_wrt (<) (asked s) \<and> (\<forall>i\<in>set (asked s). 1 \<le> i \<and> i < nextID (cl s))
    \<and> 1 \<le> nextID (cl s) \<and> nextID (cl s) \<le> int (length as) + 1"
  using assms
proof (induction rule: runs.induct)
  case start
  then show ?case by (simp add: asked_def new_sys_def StartStdio_def)
next
  case (step as s a s')
  then have IH: "sorted_wrt (<) (asked s)" "\<forall>i\<in>set (asked s). 1 \<le> i \<and> i < nextID (cl s)"
      "1 \<le> nextID (cl s)" "nextID (cl s) \<le> int (length as) + 1" by auto
  have w: "wrap64 (nextID (cl s) + 1) = nextID (cl s) + 1"
    using IH(3,4) step.prems by (intro wrap64_id) auto
  from IH(2) have "\<forall>i\<in>set (asked s). i \<le> nextID (cl s)" by auto
  with act_asked [OF step.hyps(3)] IH show ?case
    unfolding w by (auto simp: sorted_wrt_append)
qed

text \<open>Goroutines left behind.\<close>

definition gave_up :: "action \<Rightarrow> bool" where
  "gave_up a = (case a of GiveUp _ \<Rightarrow> True | _ \<Rightarrow> False)"

definition at_work :: "mcp_sys \<Rightarrow> nat" where
  "at_work s = (if asking s \<noteq> None \<and> channel s = None then 1 else 0)"

lemma act_readers:
  assumes "act L a s = Some s'" "length (readers s) \<le> n + at_work s"
  shows "length (readers s') \<le> n + (if gave_up a then 1 else 0) + at_work s'"
proof (cases a)
  case (Ask meth params wr)
  show ?thesis
    by (rule start_cases [of L meth params wr "cl s"])
      (use assms Ask in \<open>auto simp: at_work_def split: if_splits\<close>)
next
  case (ReadBy i)
  with assms(1) have "read_by L i s = Some s'" by simp
  then show ?thesis
    by (rule read_byE) (use assms(2) ReadBy in \<open>auto simp: at_work_def length_remove1 split: if_splits\<close>)
qed (use assms in \<open>auto simp: at_work_def gave_up_def split: option.splits if_splits\<close>)

lemma runs_readers: "runs L P as s \<Longrightarrow> length (readers s) \<le> length (filter gave_up as) + at_work s"
proof (induction rule: runs.induct)
  case (step as s a s')
  from act_readers [OF step.hyps(3) step.IH] show ?case by auto
qed (simp add: new_sys_def)

section \<open>Properties\<close>

text \<open>
  C34: as long as every caller waits for its answer and the server keeps to the protocol, each request
  that has ended got the answer with its own id, whatever notifications come between.
\<close>
theorem patient_requests_get_their_answers:
  assumes "runs L (patient L) as s" and "(i, x) \<in> set (outcomes s)"
  shows "\<exists>r. x = Inr r \<and> rr_ID r = Some i"
  using assms
proof (induction rule: runs.induct)
  case (step as s a s')
  note inv = runs_in_step [OF step.hyps(1)]
  show ?case
  proof (cases "(i, x) \<in> set (outcomes s)")
    case False
    with step.prems step.hyps(3) have "a = Receive" "asking s = Some i" "channel s = Some x"
      if "\<And>e. a \<noteq> GiveUp e"
      using that by (cases a; auto simp: read_by_def Let_def request_start_def split: option.splits if_splits list.splits)+
    with inv step.hyps(2) show ?thesis by (auto simp: in_step_def patient_def split: action.splits)
  qed (rule step.IH)
qed (simp add: new_sys_def)


text \<open>
  the goroutines still reading are at most those of callers that gave up and that of the request
  waited for.
\<close>
theorem readers_are_bounded:
  assumes "runs L P as s"
  shows "length (readers s) \<le> length (filter gave_up as) + 1"
  using runs_readers [OF assms] by (simp add: at_work_def split: if_splits)

text \<open>
  every request has an id of its own, larger than those before it, and ends at most once.
\<close>
theorem requests_end_once:
  assumes "runs L P as s" and "length as < 2 ^ 62"
  shows "sorted_wrt (<) (map fst (outcomes s))"
  using runs_asked [OF assms] by (simp add: asked_def sorted_wrt_append)

text \<open>
  a goroutine that reads alone implements \<open>reader\<close>: its request ends with the first line that is not
  a notification, and the lines after it are left.
\<close>
theorem lone_reader_refines_reader:
  assumes "asking s = Some i" and "readers s = [i]" and "reader L (out_lines s) = Some (x, rest)"
  shows "\<exists>n. acts L (\<lambda>_ _. True) (replicate n (ReadBy i) @ [Receive]) s
    = Some (finish_request x i (s\<lparr>out_lines := rest, readers := [], channel := Some x\<rparr>))"
proof -
  obtain n where "acts L (\<lambda>_ _. True) (replicate n (ReadBy i)) s = Some (s\<lparr>out_lines := rest, readers := [], channel := Some x\<rparr>)"
    using lone_reader_steps [OF assms(3) refl assms(1,2)] by blast
  with assms(1) show ?thesis by (intro exI [of _ n]) (simp add: acts_append)
qed

text \<open>
  the handshake: the notification that ends it is written only after the server's answer was a
  result, and a client that has been closed writes nothing.
\<close>
theorem handshake_in_order:
  "stdin_lines (snd (Initialize L wr waited wr2 c)) = stdin_lines c
     @ (if closed c \<or> wr \<noteq> None then []
        else request_line L (nextID c) ''initialize'' (Some init_params)
          # (if isl (request_end decode_map waited) \<or> wr2 \<noteq> None then []
             else [notification_line L ''notifications/initialized'' None]))"
  by (cases "closed c"; cases wr; cases wr2; cases "request_end decode_map waited")
    (auto simp: Initialize_def rpc_request_def request_start_def notify_def Let_def)

text \<open>
  a failed refresh keeps the tools known before; after a successful one a name finds the first of
  the new tools that has it.
\<close>
theorem refresh_replaces_or_keeps:
  "case RefreshTools L wr waited c of
     (Inl e, c1) \<Rightarrow> CachedTools c1 = CachedTools c
   | (Inr tools, c1) \<Rightarrow> CachedTools c1 = tools \<and> Find name c1 = find (\<lambda>t. mt_Name t = name) tools"
  by (cases "closed c"; cases wr)
    (auto simp: RefreshTools_def ListTools_def rpc_request_def request_start_def Let_def CachedTools_def
      Find_def Replace_def split: sum.splits)

section \<open>Witnesses\<close>

text \<open>A codec with one answer and one notification.\<close>

definition rpc_lib :: golib where
  "rpc_lib = \<lparr>marshal = (\<lambda>_. ''x''),
     unmarshal = (\<lambda>t. if t = ''answer'' then Some (JObj [(''id'', JNum (Finite 1)), (''result'', JObj [])])
       else if t = ''note'' then Some (JObj [(''method'', JStr ''progress'')]) else None),
     sprint_composite = (\<lambda>_. []), sha256_hex = (\<lambda>s. s)\<rparr>"

definition one :: rpc_response where
  "one = \<lparr>rr_ID = Some 1, rr_Result = Some (JObj []), rr_Error = None\<rparr>"

lemma rpc_lib_heard:
  "rpc_decode rpc_lib ''answer'' = Some one"
  "heard rpc_lib (Line ''note'') = None" "heard rpc_lib (Line ''answer'') = Some (Inr one)"
  by code_simp+

definition one_call :: "action list" where
  "one_call = [Ask ''tools/list'' None None, Serve (Line ''note''), Serve (Line ''answer''), ReadBy 1, ReadBy 1, Receive]"

definition after_one_call :: mcp_sys where
  "after_one_call = new_sys\<lparr>cl := StartStdio\<lparr>nextID := 2, stdin_lines := [''x'' @ [CHR 0x0A]]\<rparr>,
     outcomes := [(1, Inr one)]\<rparr>"

lemma one_call_runs: "runs rpc_lib (patient rpc_lib) one_call after_one_call"
  by (rule acts_run) code_simp

theorem patient_requests_get_their_answers_witness:
  "(1, Inr one) \<in> set (outcomes after_one_call) \<and> (\<exists>r. Inr one = (Inr r :: mcp_error + rpc_response) \<and> rr_ID r = Some 1)"
proof -
  have "(1, Inr one) \<in> set (outcomes after_one_call)" by (simp add: after_one_call_def)
  with patient_requests_get_their_answers [OF one_call_runs this] show ?thesis by blast
qed

theorem readers_are_bounded_witness: "length (readers after_one_call) \<le> length (filter gave_up one_call) + 1"
  by (rule readers_are_bounded [OF one_call_runs])

theorem requests_end_once_witness: "sorted_wrt (<) (map fst (outcomes after_one_call))"
  by (rule requests_end_once [OF one_call_runs]) (simp add: one_call_def)

definition mid_call :: mcp_sys where
  "mid_call = new_sys\<lparr>asking := Some 1, readers := [1], out_lines := [Line ''note'', Line ''answer'', Line ''note'']\<rparr>"

theorem lone_reader_refines_reader_witness:
  "\<exists>n. acts rpc_lib (\<lambda>_ _. True) (replicate n (ReadBy 1) @ [Receive]) mid_call
    = Some (finish_request (Inr one) 1 (mid_call\<lparr>out_lines := [Line ''note''], readers := [], channel := Some (Inr one)\<rparr>))"
  by (rule lone_reader_refines_reader) (simp_all add: mid_call_def rpc_lib_heard)


end
