(* ===== verification/Deployments.thy ===== *)
theory Deployments
  imports GoUrl ToolDecision Storage
begin

text \<open>
  The list of relay workers, src/internal/web/deployments.go: the deployment of a worker through the
  Cloudflare API, the list with its file, the change of an address and the health check.

  The list is a Go slice, and the health check keeps a pointer into it while it waits for the network.
  The state therefore has the arrays behind the slice, by number: \<open>backing\<close> is the one the list is in
  and \<open>spare\<close> the number of its free places; an append to a full array copies the list to a new one,
  and old pointers lead to the old one.  Random bytes, the clock, the answers of the network and the outcome of writing
  the file are arguments.
\<close>

section \<open>The store\<close>

record deployment =
  dep_ID :: string
  dep_Provider :: string
  dep_Name :: string
  dep_AccountID :: string
  dep_DefaultURL :: string
  dep_CustomURL :: string
  dep_ActiveURL :: string
  dep_Status :: string
  dep_LatencyMs :: int
  dep_LastCheckedAt :: instant
  dep_LastError :: string

record deploymentStore =
  arrays :: "nat \<Rightarrow> deployment list"
  backing :: nat
  spare :: nat
  deployment_file :: "deployment list"

definition Items :: "deploymentStore \<Rightarrow> deployment list" where
  "Items s = arrays s (backing s)"

definition set_array :: "nat \<Rightarrow> deployment list \<Rightarrow> deploymentStore \<Rightarrow> deploymentStore" where
  "set_array a ds s = s\<lparr>arrays := (arrays s)(a := ds)\<rparr>"

type_synonym deployment_save = "deployment list save_outcome"

text \<open>\<open>f\<close> is what the file decodes to: nothing where it is missing or unreadable.\<close>

definition openDeployments :: "deployment list \<Rightarrow> deploymentStore" where
  "openDeployments f = \<lparr>arrays = (\<lambda>_. f), backing = 0, spare = 0, deployment_file = f\<rparr>"

definition save_deployments :: "deployment_save \<Rightarrow> deploymentStore \<Rightarrow> deploymentStore" where
  "save_deployments out s = s\<lparr>deployment_file := written out (Items s)\<rparr>"

text \<open>\<open>append\<close>; \<open>room\<close> is the free space the runtime gives to a new array.\<close>

definition append_item :: "nat \<Rightarrow> deployment \<Rightarrow> deploymentStore \<Rightarrow> deploymentStore" where
  "append_item room d s =
     (if spare s > 0 then (set_array (backing s) (Items s @ [d]) s)\<lparr>spare := spare s - 1\<rparr>
      else (set_array (Suc (backing s)) (Items s @ [d]) s)\<lparr>backing := Suc (backing s), spare := room\<rparr>)"

text \<open>The index of the first item with an id.\<close>

fun find_item :: "string \<Rightarrow> deployment list \<Rightarrow> nat option" where
  "find_item i [] = None"
| "find_item i (d # ds) = (if dep_ID d = i then Some 0 else map_option Suc (find_item i ds))"

section \<open>The deployment of a worker\<close>

text \<open>\<open>workerNamePattern\<close>\<close>

definition worker_name :: "string \<Rightarrow> bool" where
  "worker_name s \<longleftrightarrow> 1 \<le> length s \<and> length s \<le> 64 \<and>
     list_all (\<lambda>c. let n = of_char c :: nat
        in 48 \<le> n \<and> n \<le> 57 \<or> 65 \<le> n \<and> n \<le> 90 \<or> 97 \<le> n \<and> n \<le> 122 \<or> n = 95 \<or> n = 45) s"

datatype http_answer = HttpFailed string | HttpAnswer int string

datatype deploy_error =
    FieldsEmpty
  | BadWorkerName
  | CloudflareFailed string
  | DeployRefused string
  | LookupRefused string
  | NoSubdomain

record cf_request =
  cf_Method :: string
  cf_URL :: string
  cf_Token :: string
  cf_Body :: string

definition cloudflareAPIBase :: string where
  "cloudflareAPIBase = ''https://api.cloudflare.com/client/v4''"

definition worker_script :: string where
  "worker_script = ''export default {async fetch(request){if(new URL(request.url).pathname==='' @ [CHR 0x27]
     @ ''/health'' @ [CHR 0x27] @ '')return new Response('' @ [CHR 0x27] @ ''ok'' @ [CHR 0x27]
     @ '');return new Response('' @ [CHR 0x27] @ ''m365-native worker relay is configured'' @ [CHR 0x27]
     @ '',{status:200})}}''"

definition account_url :: "string \<Rightarrow> string" where
  "account_url account =
     trim_right_char (CHR 0x2F) cloudflareAPIBase @ ''/accounts/'' @ path_escape account @ ''/workers''"

definition cf_deploy :: "string \<Rightarrow> string \<Rightarrow> string \<Rightarrow> cf_request" where
  "cf_deploy account name token =
     \<lparr>cf_Method = ''PUT'', cf_URL = account_url account @ ''/scripts/'' @ path_escape name,
      cf_Token = token, cf_Body = worker_script\<rparr>"

definition cf_lookup :: "string \<Rightarrow> string \<Rightarrow> cf_request" where
  "cf_lookup account token =
     \<lparr>cf_Method = ''GET'', cf_URL = account_url account @ ''/subdomain'', cf_Token = token, cf_Body = []\<rparr>"

definition limit_1MB :: nat where
  "limit_1MB = 2 ^ 20"

text \<open>The subdomain in the answer, empty where the answer does not decode.\<close>

definition subdomain_of :: "golib \<Rightarrow> string \<Rightarrow> string" where
  "subdomain_of L body =
     (case Option.bind (unmarshal L body) decode_map of
        Some (Some m) \<Rightarrow> (case decode_map (struct_field m ''result'') of
            Some (Some r) \<Rightarrow> (case decode_string (struct_field r ''subdomain'') of Some s \<Rightarrow> s | None \<Rightarrow> [])
          | _ \<Rightarrow> [])
      | _ \<Rightarrow> [])"

definition randomState :: "string \<Rightarrow> string" where
  "randomState rnd = base64url rnd"

definition new_deployment :: "string \<Rightarrow> string \<Rightarrow> string \<Rightarrow> string \<Rightarrow> deployment" where
  "new_deployment rnd account name subdomain =
     (let u = ''https://'' @ name @ ''.'' @ subdomain @ ''.workers.dev''
      in \<lparr>dep_ID = ''cf-'' @ randomState rnd, dep_Provider = ''cloudflare'', dep_Name = name,
          dep_AccountID = account, dep_DefaultURL = u, dep_CustomURL = [], dep_ActiveURL = u,
          dep_Status = ''deployed'', dep_LatencyMs = 0, dep_LastCheckedAt = zero_time, dep_LastError = []\<rparr>)"

text \<open>\<open>rnd\<close>: the 24 bytes of \<open>randomState\<close>.  The second component is what is sent.\<close>

definition deployCloudflare ::
    "golib \<Rightarrow> string \<Rightarrow> http_answer \<Rightarrow> http_answer \<Rightarrow> string \<Rightarrow> string \<Rightarrow> string
      \<Rightarrow> (deploy_error + deployment) \<times> cf_request list" where
  "deployCloudflare L rnd put_answer get_answer account name token =
     (if account = [] \<or> name = [] \<or> token = [] then (Inl FieldsEmpty, [])
      else if \<not> worker_name name then (Inl BadWorkerName, [])
      else (case put_answer of
        HttpFailed e \<Rightarrow> (Inl (CloudflareFailed e), [cf_deploy account name token])
      | HttpAnswer status body \<Rightarrow>
          if status div 100 \<noteq> 2 then
            (Inl (DeployRefused (trim_space (take limit_1MB body))), [cf_deploy account name token])
          else
            (case get_answer of
               HttpFailed e \<Rightarrow> Inl (CloudflareFailed e)
             | HttpAnswer status2 body2 \<Rightarrow>
                 if status2 div 100 \<noteq> 2 then Inl (LookupRefused (trim_space (take limit_1MB body2)))
                 else if subdomain_of L (take limit_1MB body2) = [] then Inl NoSubdomain
                 else Inr (new_deployment rnd account name (subdomain_of L (take limit_1MB body2))),
             [cf_deploy account name token, cf_lookup account token])))"

section \<open>The handlers\<close>

datatype deployment_reply =
    ListReply "deployment list"
  | DeploymentReply bool deployment
  | DeployFailed deploy_error
  | RefusedReply int string
  | PanicReply

record deploy_body =
  db_Provider :: string
  db_Name :: string
  db_AccountID :: string
  db_Token :: string

text \<open>\<open>body\<close> is what the body decodes to within 64 KiB, \<open>None\<close> where it does not.\<close>

definition deployments ::
    "golib \<Rightarrow> string \<Rightarrow> http_answer \<Rightarrow> http_answer \<Rightarrow> nat \<Rightarrow> deployment_save \<Rightarrow> string \<Rightarrow> deploy_body option
      \<Rightarrow> deploymentStore \<Rightarrow> (deployment_reply \<times> cf_request list) \<times> deploymentStore" where
  "deployments L rnd put_answer get_answer room out http_method body s =
     (if http_method = ''GET'' then ((ListReply (Items s), []), s)
      else if http_method = ''POST'' then
        (case body of
           None \<Rightarrow> ((RefusedReply 400 ''bad json'', []), s)
         | Some b \<Rightarrow>
             if db_Provider b \<noteq> ''cloudflare'' then ((RefusedReply 400 ''only cloudflare is implemented'', []), s)
             else
               (case deployCloudflare L rnd put_answer get_answer (db_AccountID b) (db_Name b) (db_Token b) of
                  (Inl e, reqs) \<Rightarrow> ((DeployFailed e, reqs), s)
                | (Inr d, reqs) \<Rightarrow>
                    let s1 = save_deployments out (append_item room d s)
                    in ((if save_ok out then DeploymentReply True d else RefusedReply 500 ''storage_error'', reqs), s1)))
      else ((RefusedReply 405 ''method not allowed'', []), s))"

definition set_url :: "string \<Rightarrow> deployment \<Rightarrow> deployment" where
  "set_url custom d =
     (let u = trim_right_char (CHR 0x2F) (trim_space custom)
      in d\<lparr>dep_CustomURL := u, dep_ActiveURL := (if u = [] then dep_DefaultURL d else u)\<rparr>)"

text \<open>\<open>custom\<close> is the field of the body; a body that does not decode counts as one without it.\<close>

definition deploymentAction ::
    "deployment_save \<Rightarrow> string \<Rightarrow> string \<Rightarrow> string option \<Rightarrow> deploymentStore
      \<Rightarrow> deployment_reply \<times> deploymentStore" where
  "deploymentAction out http_method i custom s =
     (case find_item i (Items s) of
        None \<Rightarrow> (RefusedReply 404 ''deployment not found'', s)
      | Some k \<Rightarrow>
          if http_method = ''PUT'' then
            let d = set_url (case custom of None \<Rightarrow> [] | Some u \<Rightarrow> u) (Items s ! k);
                s1 = save_deployments out (set_array (backing s) ((Items s)[k := d]) s)
            in (if save_ok out then DeploymentReply True d else RefusedReply 500 ''storage_error'', s1)
          else (RefusedReply 405 ''method not allowed'', s))"

section \<open>The health check\<close>

text \<open>The pointer \<open>d\<close>: the array and the place in it.\<close>

record item_ref =
  ref_array :: nat
  ref_index :: nat

definition check_start :: "string \<Rightarrow> deploymentStore \<Rightarrow> (item_ref \<times> string) option" where
  "check_start i s =
     (case find_item i (Items s) of
        None \<Rightarrow> None
      | Some k \<Rightarrow>
          let d = Items s ! k;
              target = (if dep_ActiveURL d = [] then dep_DefaultURL d else dep_ActiveURL d)
          in Some (\<lparr>ref_array = backing s, ref_index = k\<rparr>, trim_right_char (CHR 0x2F) target @ ''/health''))"

text \<open>What the request yields: \<open>BadAddress\<close> where no request can be made of the address (its error
  is dropped, and the client gets a nil request).\<close>

datatype health_answer = BadAddress | NoHealth string | Health int string

definition note_health :: "health_answer \<Rightarrow> int \<Rightarrow> instant \<Rightarrow> deployment \<Rightarrow> deployment" where
  "note_health h lat now d = (case h of
      BadAddress \<Rightarrow> d
    | NoHealth e \<Rightarrow> d\<lparr>dep_Status := ''unhealthy'', dep_LastError := e\<rparr>
    | Health code status \<Rightarrow>
        if code \<noteq> 200 then d\<lparr>dep_Status := ''unhealthy'', dep_LastError := ''health returned '' @ status\<rparr>
        else d\<lparr>dep_Status := ''healthy'', dep_LastError := [], dep_LatencyMs := lat, dep_LastCheckedAt := now\<rparr>)"

definition deref :: "item_ref \<Rightarrow> deploymentStore \<Rightarrow> deployment" where
  "deref r s = arrays s (ref_array r) ! ref_index r"

definition check_finish ::
    "deployment_save \<Rightarrow> item_ref \<Rightarrow> health_answer \<Rightarrow> int \<Rightarrow> instant \<Rightarrow> deploymentStore \<Rightarrow> deployment_reply \<times> deploymentStore" where
  "check_finish out r h lat now s =
     (case h of
        BadAddress \<Rightarrow> (PanicReply, s)
      | _ \<Rightarrow>
        let d = note_health h lat now (deref r s);
            s1 = set_array (ref_array r) ((arrays s (ref_array r))[ref_index r := d]) s
        in (DeploymentReply (case h of NoHealth _ \<Rightarrow> False | _ \<Rightarrow> True) d, save_deployments out s1))"

definition deploymentCheck ::
    "deployment_save \<Rightarrow> string \<Rightarrow> (string \<Rightarrow> health_answer) \<Rightarrow> int \<Rightarrow> instant \<Rightarrow> deploymentStore
      \<Rightarrow> deployment_reply \<times> deploymentStore" where
  "deploymentCheck out i fetch lat now s =
     (case check_start i s of
        None \<Rightarrow> (RefusedReply 404 ''deployment not found'', s)
      | Some (r, u) \<Rightarrow> check_finish out r (fetch u) lat now s)"

section \<open>Laws of the operations\<close>

lemma set_array_simps [simp]:
  "arrays (set_array a ds s) b = (if b = a then ds else arrays s b)" "backing (set_array a ds s) = backing s"
  "spare (set_array a ds s) = spare s" "deployment_file (set_array a ds s) = deployment_file s"
  by (simp_all add: set_array_def)

lemma Items_set_array [simp]: "Items (set_array a ds s) = (if a = backing s then ds else Items s)"
  by (simp add: Items_def)

lemma open_simps [simp]: "Items (openDeployments f) = f" "deployment_file (openDeployments f) = f"
  by (simp_all add: Items_def openDeployments_def)

lemma Items_append [simp]: "Items (append_item room d s) = Items s @ [d]"
  by (simp add: append_item_def Items_def set_array_def)

lemma save_simps [simp]:
  "Items (save_deployments out s) = Items s" "arrays (save_deployments out s) = arrays s"
  "backing (save_deployments out s) = backing s" "spare (save_deployments out s) = spare s"
  "deployment_file (save_deployments out s) = written out (Items s)"
  by (simp_all add: save_deployments_def Items_def)

lemma find_item_Some: "find_item i ds = Some k \<Longrightarrow> k < length ds \<and> dep_ID (ds ! k) = i"
  by (induction ds arbitrary: k) (auto split: if_splits)

lemma deployments_cases:
  assumes "deployments L rnd p g room out http_method body s = ((x, reqs), s')"
  obtains (kept) "s' = s" "\<And>ok d. x \<noteq> DeploymentReply ok d"
  | (added) b d where "body = Some b" "http_method = ''POST''"
      "deployCloudflare L rnd p g (db_AccountID b) (db_Name b) (db_Token b) = (Inr d, reqs)"
      "s' = save_deployments out (append_item room d s)"
      "x = (if save_ok out then DeploymentReply True d else RefusedReply 500 ''storage_error'')"
  using assms by (auto simp: deployments_def Let_def split: if_splits option.splits prod.splits sum.splits)

lemma action_cases:
  assumes "deploymentAction out http_method i custom s = (x, s')"
  obtains (kept) "s' = s" "\<And>ok d. x \<noteq> DeploymentReply ok d"
  | (changed) k d where "find_item i (Items s) = Some k" "http_method = ''PUT''"
      "d = set_url (case custom of None \<Rightarrow> [] | Some u \<Rightarrow> u) (Items s ! k)"
      "s' = save_deployments out (set_array (backing s) ((Items s)[k := d]) s)"
      "x = (if save_ok out then DeploymentReply True d else RefusedReply 500 ''storage_error'')"
  using assms by (auto simp: deploymentAction_def Let_def split: if_splits option.splits)

lemma finish_cases:
  assumes "check_finish out r h lat now s = (x, s')"
  obtains (panic) "h = BadAddress" "x = PanicReply" "s' = s"
  | (noted) "h \<noteq> BadAddress" "x = DeploymentReply (case h of NoHealth _ \<Rightarrow> False | _ \<Rightarrow> True) (note_health h lat now (deref r s))"
      "s' = save_deployments out (set_array (ref_array r) ((arrays s (ref_array r))[ref_index r := note_health h lat now (deref r s)]) s)"
  using assms by (cases h) (auto simp: check_finish_def Let_def)

section \<open>The file\<close>

datatype deployment_op =
    Post golib string http_answer http_answer nat deployment_save "deploy_body option"
  | Put_url deployment_save string "string option"

fun deployment_exec :: "deployment_op \<Rightarrow> deploymentStore \<Rightarrow> bool \<times> deploymentStore" where
  "deployment_exec (Post L rnd p g room out body) s =
     (case deployments L rnd p g room out ''POST'' body s of
        ((x, reqs), s') \<Rightarrow> (case x of DeploymentReply _ _ \<Rightarrow> True | _ \<Rightarrow> False, s'))"
| "deployment_exec (Put_url out i custom) s =
     (case deploymentAction out ''PUT'' i custom s of
        (x, s') \<Rightarrow> (case x of DeploymentReply _ _ \<Rightarrow> True | _ \<Rightarrow> False, s'))"

interpretation relays: durable Items deployment_file "\<lambda>f. Items (openDeployments f)" deployment_exec
proof unfold_locales
  fix op s s'
  assume ex: "deployment_exec op s = (True, s')"
  show "Items (openDeployments (deployment_file s')) = Items s'"
  proof (cases op)
    case (Post L rnd p g room out body)
    obtain x reqs t where "deployments L rnd p g room out ''POST'' body s = ((x, reqs), t)" by (metis prod.exhaust)
    moreover from this ex Post have "t = s'" "\<exists>ok d. x = DeploymentReply ok d" by (auto split: deployment_reply.splits)
    ultimately show ?thesis by (cases rule: deployments_cases) (auto simp: written_ok split: if_splits)
  next
    case (Put_url out i custom)
    obtain x t where "deploymentAction out ''PUT'' i custom s = (x, t)" by fastforce
    moreover from this ex Put_url have "t = s'" "\<exists>ok d. x = DeploymentReply ok d" by (auto split: deployment_reply.splits)
    ultimately show ?thesis by (cases rule: action_cases) (auto simp: written_ok split: if_splits)
  qed
qed

section \<open>Interleavings\<close>

text \<open>The states reachable when requests come in between a health check's two steps; the second
  argument has the checks under way.\<close>

inductive reaches :: "deployment list \<Rightarrow> deploymentStore \<Rightarrow> item_ref list \<Rightarrow> bool" for f where
  opened: "reaches f (openDeployments f) []"
| posted: "reaches f s rs \<Longrightarrow> deployments L rnd p g room out meth body s = (x, s') \<Longrightarrow> reaches f s' rs"
| changed: "reaches f s rs \<Longrightarrow> deploymentAction out meth i custom s = (y, s') \<Longrightarrow> reaches f s' rs"
| began: "reaches f s rs \<Longrightarrow> check_start i s = Some (r, u) \<Longrightarrow> reaches f s (r # rs)"
| ended: "reaches f s rs \<Longrightarrow> r \<in> set rs \<Longrightarrow> check_finish out r h lat now s = (y, s') \<Longrightarrow> reaches f s' (remove1 r rs)"

text \<open>What no operation changes of a deployment, and the address that is in use.\<close>

definition identity_of :: "deployment \<Rightarrow> string \<times> string \<times> string \<times> string \<times> string" where
  "identity_of d = (dep_ID d, dep_Provider d, dep_Name d, dep_AccountID d, dep_DefaultURL d)"

definition active_ok :: "deployment \<Rightarrow> bool" where
  "active_ok d \<longleftrightarrow> dep_ActiveURL d = (if dep_CustomURL d = [] then dep_DefaultURL d else dep_CustomURL d)"

lemma identity_simps [simp]:
  "identity_of (set_url u d) = identity_of d" "identity_of (note_health h lat now d) = identity_of d"
  "active_ok (set_url u d)" "active_ok (note_health h lat now d) = active_ok d"
  by (auto simp: identity_of_def active_ok_def set_url_def note_health_def Let_def split: health_answer.split)

lemma new_deployment_ok [simp]: "active_ok (new_deployment rnd account name subdomain)"
  by (simp add: active_ok_def new_deployment_def Let_def)

lemma deployCloudflare_new:
  assumes "deployCloudflare L rnd p g account name token = (Inr d, reqs)"
  shows "\<exists>sub. d = new_deployment rnd account name sub \<and> sub \<noteq> [] \<and> worker_name name
    \<and> reqs = [cf_deploy account name token, cf_lookup account token]"
  using assms by (auto simp: deployCloudflare_def split: if_splits http_answer.splits)

text \<open>Each step keeps every deployment where it is.\<close>

definition keeps :: "deploymentStore \<Rightarrow> deploymentStore \<Rightarrow> bool" where
  "keeps s s' \<longleftrightarrow> prefix (map identity_of (Items s)) (map identity_of (Items s'))
     \<and> (list_all active_ok (Items s) \<longrightarrow> list_all active_ok (Items s'))
     \<and> backing s \<le> backing s' \<and> (\<forall>a\<le>backing s. length (arrays s a) \<le> length (arrays s' a))"

lemma keeps_refl: "keeps s s"
  by (simp add: keeps_def)

lemma map_update_same: "f x = f (xs ! k) \<Longrightarrow> map f (xs[k := x]) = map f xs"
  by (cases "k < length xs") (simp_all add: map_update list_update_same_conv list_update_beyond)

lemma list_all_list_update: "list_all P xs \<Longrightarrow> (k < length xs \<Longrightarrow> P x) \<Longrightarrow> list_all P (xs[k := x])"
  by (cases "k < length xs") (auto simp: list_all_length nth_list_update)

lemma deployments_keeps: "deployments L rnd p g room out meth body s = (x, s') \<Longrightarrow> keeps s s'"
proof -
  assume "deployments L rnd p g room out meth body s = (x, s')"
  moreover obtain y reqs where "x = (y, reqs)" by fastforce
  ultimately have "deployments L rnd p g room out meth body s = ((y, reqs), s')" by simp
  then show "keeps s s'"
  proof (cases rule: deployments_cases)
    case (added b d)
    with deployCloudflare_new [OF added(3)] show ?thesis
      by (auto simp: keeps_def append_item_def set_array_def Items_def save_deployments_def)
  qed (simp add: keeps_refl)
qed

lemma action_keeps: "deploymentAction out meth i custom s = (x, s') \<Longrightarrow> keeps s s'"
proof -
  assume "deploymentAction out meth i custom s = (x, s')"
  then show "keeps s s'"
    by (cases rule: action_cases) (auto simp: keeps_refl keeps_def map_update_same list_all_list_update Items_def)
qed

lemma finish_keeps: "check_finish out r h lat now s = (x, s') \<Longrightarrow> keeps s s'"
proof -
  assume "check_finish out r h lat now s = (x, s')"
  then show "keeps s s'"
  proof (cases rule: finish_cases)
    case noted
    have "active_ok (note_health h lat now (deref r s))"
      if "list_all active_ok (arrays s (ref_array r))" "ref_index r < length (arrays s (ref_array r))"
      using that by (simp add: deref_def list_all_length)
    with noted show ?thesis
      by (auto simp: keeps_def map_update_same deref_def Items_def intro!: list_all_list_update)
  qed (simp add: keeps_refl)
qed

lemmas steps_keep = deployments_keeps action_keeps finish_keeps

definition in_range :: "deploymentStore \<Rightarrow> item_ref \<Rightarrow> bool" where
  "in_range s r \<longleftrightarrow> ref_array r \<le> backing s \<and> ref_index r < length (arrays s (ref_array r))"

lemma in_range_keeps: "keeps s s' \<Longrightarrow> in_range s r \<Longrightarrow> in_range s' r"
  by (auto simp: keeps_def in_range_def intro: less_le_trans)

lemma check_start_in_range: "check_start i s = Some (r, u) \<Longrightarrow> in_range s r"
  by (auto simp: check_start_def in_range_def Let_def Items_def dest: find_item_Some split: option.splits)

text \<open>No pointer of a check is ever out of range, so that \<open>deref\<close> is defined.\<close>

lemma reaches_in_range: "reaches f s rs \<Longrightarrow> list_all (in_range s) rs"
proof (induction rule: reaches.induct)
  case (posted s rs L rnd p g room out meth body x s')
  with deployments_keeps [OF posted.hyps(2)] show ?case by (auto simp: list_all_iff in_range_keeps)
next
  case (changed s rs out meth i custom y s')
  with action_keeps [OF changed.hyps(2)] show ?case by (auto simp: list_all_iff in_range_keeps)
next
  case (began s rs i r u)
  then show ?case by (simp add: check_start_in_range)
next
  case (ended s rs r out h lat now y s')
  with finish_keeps [OF ended.hyps(3)] show ?case by (auto simp: list_all_iff in_range_keeps dest!: subsetD [OF set_remove1_subset])
qed simp

lemma reaches_keeps:
  "reaches f s rs \<Longrightarrow> prefix (map identity_of f) (map identity_of (Items s))
     \<and> (list_all active_ok f \<longrightarrow> list_all active_ok (Items s))"
proof (induction rule: reaches.induct)
  case opened
  then show ?case by (simp add: Items_def openDeployments_def)
next
  case (posted s rs L rnd p g room out meth body x s')
  with deployments_keeps [OF posted.hyps(2)] show ?case by (auto simp: keeps_def)
next
  case (changed s rs out meth i custom y s')
  with action_keeps [OF changed.hyps(2)] show ?case by (auto simp: keeps_def)
next
  case (ended s rs r out h lat now y s')
  with finish_keeps [OF ended.hyps(3)] show ?case by (auto simp: keeps_def)
qed

section \<open>Properties\<close>


text \<open>
  after additions and changes of an address that all reported success, a restart finds the list that
  was in memory.
\<close>
theorem deployments_survive_restart:
  assumes "relays.exec_all ops (openDeployments f) = (oks, s)" and "list_all (\<lambda>ok. ok) oks"
  shows "Items (openDeployments (deployment_file s)) = Items s"
proof -
  have "relays.synced (openDeployments f)" unfolding relays.synced_def by simp
  from relays.exec_all_synced [OF assms this] show ?thesis unfolding relays.synced_def .
qed

text \<open>
  the token goes to the Cloudflare API only: nothing is sent before all three fields are there and
  the worker's name fits; then the script is put and the subdomain looked up, each below the path
  segment that the account id becomes, whatever it contains; a deployment is recorded after both.
\<close>
theorem token_goes_to_cloudflare:
  assumes "deployCloudflare L rnd p g account name token = (x, reqs)"
  shows "(reqs \<noteq> [] \<longrightarrow> token \<noteq> [] \<and> worker_name name)
    \<and> prefix reqs [cf_deploy account name token, cf_lookup account token]
    \<and> (\<forall>q\<in>set reqs. \<exists>seg. has_prefix (cf_URL q) (''https://api.cloudflare.com/client/v4/accounts/'' @ seg @ ''/workers/'')
        \<and> set seg \<inter> set ''/?#'' = {})
    \<and> (isl x \<or> length reqs = 2)"
proof -
  have sent: "(reqs \<noteq> [] \<longrightarrow> token \<noteq> [] \<and> worker_name name)
      \<and> prefix reqs [cf_deploy account name token, cf_lookup account token] \<and> (isl x \<or> length reqs = 2)"
    using assms by (auto simp: deployCloudflare_def split: if_splits http_answer.splits)
  have "trim_right_char (CHR 0x2F) cloudflareAPIBase = cloudflareAPIBase" by code_simp
  then have base: "account_url account @ ''/'' = ''https://api.cloudflare.com/client/v4/accounts/'' @ path_escape account @ ''/workers/''"
    by (simp add: account_url_def cloudflareAPIBase_def)
  have "\<exists>seg. has_prefix (cf_URL q) (''https://api.cloudflare.com/client/v4/accounts/'' @ seg @ ''/workers/'')
      \<and> set seg \<inter> set ''/?#'' = {}" if "q = cf_deploy account name token \<or> q = cf_lookup account token" for q
  proof -
    from that have "\<exists>rest. cf_URL q = (account_url account @ ''/'') @ rest" by (auto simp: cf_deploy_def cf_lookup_def)
    then show ?thesis
      unfolding base using path_escape_clean [of account] by (intro exI [of _ "path_escape account"]) (auto simp: has_prefix_def)
  qed
  moreover have "set reqs \<subseteq> {cf_deploy account name token, cf_lookup account token}"
    using set_mono_prefix sent by fastforce
  ultimately show ?thesis using sent by blast
qed

text \<open>
  a health check's outcome can be lost: when a deployment is added while the check waits and the list
  has to move to a new array, the reply says that the worker is healthy, and the list does not.
\<close>
theorem health_update_can_be_lost:
  assumes "check_start i s = Some (r, u)" and "spare s = 0"
    and "deployments L rnd p g room out meth body s = ((DeploymentReply True d, reqs), s1)"
    and "check_finish out2 r (Health 200 status) lat now s1 = (y, s2)"
  shows "Items s2 = Items s1 \<and> (\<exists>d'. y = DeploymentReply True d' \<and> dep_ID d' = i \<and> dep_Status d' = ''healthy'')"
proof -
  from assms(1) obtain k where k: "find_item i (Items s) = Some k" "r = \<lparr>ref_array = backing s, ref_index = k\<rparr>"
    by (auto simp: check_start_def Let_def split: option.splits)
  from assms(3) have s1: "s1 = save_deployments out (append_item room d s)"
    by (cases rule: deployments_cases) (auto split: if_splits)
  with assms(2) k(2) have "backing s1 \<noteq> ref_array r" "deref r s1 = Items s ! k"
    by (simp_all add: append_item_def deref_def Items_def set_array_def)
  moreover from find_item_Some [OF k(1)] have "dep_ID (Items s ! k) = i" by simp
  ultimately show ?thesis
    using assms(4) by (auto simp: check_finish_def note_health_def Let_def)
qed

text \<open>
  a change of the address with a body that does not decode reports success and removes the custom
  address.
\<close>
theorem unreadable_body_clears_the_address:
  assumes "find_item i (Items s) = Some k" and "k < length (Items s)"
  shows "\<exists>d s'. deploymentAction Saved ''PUT'' i None s = (DeploymentReply True d, s')
    \<and> Items s' = (Items s)[k := d] \<and> dep_CustomURL d = [] \<and> dep_ActiveURL d = dep_DefaultURL (Items s ! k)"
proof -
  have "trim_right_char (CHR 0x2F) (trim_space []) = []" by code_simp
  with assms(1) show ?thesis by (simp add: deploymentAction_def Let_def set_url_def)
qed

section \<open>Witnesses\<close>

definition relay_lib :: golib where
  "relay_lib = \<lparr>marshal = (\<lambda>_. []),
     unmarshal = (\<lambda>_. Some (JObj [(''result'', JObj [(''subdomain'', JStr ''me'')])])),
     sprint_composite = (\<lambda>_. []), sha256_hex = (\<lambda>s. s)\<rparr>"

definition relay :: deployment where
  "relay = new_deployment ''abc'' ''acc'' ''w1'' ''me''"

definition relay_body :: deploy_body where
  "relay_body = \<lparr>db_Provider = ''cloudflare'', db_Name = ''w1'', db_AccountID = ''acc'', db_Token = ''t''\<rparr>"

definition one_relay :: deploymentStore where
  "one_relay = save_deployments Saved (append_item 0 relay (openDeployments []))"

definition two_relays :: deploymentStore where
  "two_relays = save_deployments Saved (append_item 0 relay one_relay)"

lemma relay_deployed:
  "deployCloudflare relay_lib ''abc'' (HttpAnswer 200 []) (HttpAnswer 200 []) ''acc'' ''w1'' ''t''
     = (Inr relay, [cf_deploy ''acc'' ''w1'' ''t'', cf_lookup ''acc'' ''t''])"
proof -
  have "worker_name ''w1''" by code_simp
  moreover have "subdomain_of relay_lib x = ''me''" for x
  proof -
    have "struct_field [(''result'', JObj [(''subdomain'', JStr ''me'')])] ''result'' = JObj [(''subdomain'', JStr ''me'')]"
      "struct_field [(''subdomain'', JStr ''me'')] ''subdomain'' = JStr ''me''" by code_simp+
    then show ?thesis by (simp add: subdomain_of_def relay_lib_def)
  qed
  ultimately show ?thesis by (simp add: deployCloudflare_def relay_def)
qed

lemma relay_posted:
  "deployments relay_lib ''abc'' (HttpAnswer 200 []) (HttpAnswer 200 []) 0 Saved ''POST'' (Some relay_body) s
     = ((DeploymentReply True relay, [cf_deploy ''acc'' ''w1'' ''t'', cf_lookup ''acc'' ''t'']),
        save_deployments Saved (append_item 0 relay s))"
  using relay_deployed by (simp add: deployments_def relay_body_def)

lemma relays_reached: "reaches [] one_relay []"
  using reaches.posted [OF reaches.opened relay_posted] by (simp add: one_relay_def)


theorem deployments_survive_restart_witness: "Items (openDeployments (deployment_file one_relay)) = [relay]"
proof -
  have "relays.exec_all [Post relay_lib ''abc'' (HttpAnswer 200 []) (HttpAnswer 200 []) 0 Saved (Some relay_body)] (openDeployments [])
      = ([True], one_relay)"
    by (simp add: relay_posted one_relay_def)
  from deployments_survive_restart [OF this] show ?thesis by (simp add: one_relay_def)
qed

theorem token_goes_to_cloudflare_witness:
  "\<forall>q\<in>{cf_deploy ''acc'' ''w1'' ''t'', cf_lookup ''acc'' ''t''}. \<exists>seg.
     has_prefix (cf_URL q) (''https://api.cloudflare.com/client/v4/accounts/'' @ seg @ ''/workers/'') \<and> set seg \<inter> set ''/?#'' = {}"
  using token_goes_to_cloudflare [OF relay_deployed] by simp

lemma relay_found: "find_item ''cf-YWJj'' [relay] = Some 0"
  by code_simp

theorem health_update_can_be_lost_witness:
  "\<exists>y s2. check_finish Saved \<lparr>ref_array = 1, ref_index = 0\<rparr> (Health 200 ''200 OK'') 5 1 two_relays = (y, s2)
    \<and> Items s2 = [relay, relay] \<and> (\<exists>d. y = DeploymentReply True d \<and> dep_Status d = ''healthy'')"
proof -
  have items: "Items one_relay = [relay]" "backing one_relay = 1" "spare one_relay = 0"
    by (simp_all add: one_relay_def) (simp_all add: append_item_def openDeployments_def set_array_def)
  then have two: "Items two_relays = [relay, relay]" by (simp add: two_relays_def)
  obtain u where "check_start ''cf-YWJj'' one_relay = Some (\<lparr>ref_array = 1, ref_index = 0\<rparr>, u)"
    using relay_found items by (simp add: check_start_def Let_def)
  moreover obtain y s2 where run: "check_finish Saved \<lparr>ref_array = 1, ref_index = 0\<rparr> (Health 200 ''200 OK'') 5 1 two_relays = (y, s2)"
    by fastforce
  ultimately have "Items s2 = Items two_relays \<and> (\<exists>d. y = DeploymentReply True d \<and> dep_ID d = ''cf-YWJj'' \<and> dep_Status d = ''healthy'')"
    using health_update_can_be_lost [OF _ items(3) relay_posted [of one_relay, folded two_relays_def]] by blast
  with run two show ?thesis by auto
qed

theorem unreadable_body_clears_the_address_witness:
  "\<exists>d s'. deploymentAction Saved ''PUT'' ''cf-YWJj'' None one_relay = (DeploymentReply True d, s') \<and> dep_CustomURL d = []"
proof -
  have "Items one_relay = [relay]" by (simp add: one_relay_def)
  with unreadable_body_clears_the_address [of "''cf-YWJj''" one_relay 0] relay_found show ?thesis by auto
qed

end
