(* ===== verification/DebugLog.thy ===== *)
theory DebugLog
  imports GoJson Prelude
begin

text \<open>
  What wraps every handler: the id of a request (src/internal/web/request_id.go), the trace of requests
  (http_trace.go), and the record of API requests for the console (debug.go).

  A handler is what it emits to the response writer: \<open>WriteHeader\<close>, \<open>Write\<close> and \<open>Flush\<close>, in order.
  Each writer keeps its own count and passes everything on.
\<close>

section \<open>Response writers\<close>

datatype emit = Header int | Bytes string | Flush

fun bytes_of :: "emit list \<Rightarrow> string" where
  "bytes_of [] = []"
| "bytes_of (Bytes b # es) = b @ bytes_of es"
| "bytes_of (_ # es) = bytes_of es"

lemma bytes_of_append [simp]: "bytes_of (es @ es') = bytes_of es @ bytes_of es'"
  by (induction es rule: bytes_of.induct) auto

text \<open>The status the client sees: that of the first \<open>WriteHeader\<close>, unless something is written before
  it, and 200 where nothing is said.\<close>

fun sent_status :: "emit list \<Rightarrow> int" where
  "sent_status (Header s # _) = s"
| "sent_status _ = 200"

section \<open>The trace\<close>

record trace_writer =
  tw_status :: int
  tw_bytes :: int
  tw_out :: "emit list"

definition default_status :: "int \<Rightarrow> int" where
  "default_status s = (if s = 0 then 200 else s)"

definition trace_emit :: "emit \<Rightarrow> trace_writer \<Rightarrow> trace_writer" where
  "trace_emit e w = (case e of
      Header s \<Rightarrow> w\<lparr>tw_status := (if tw_status w = 0 then s else tw_status w), tw_out := tw_out w @ [e]\<rparr>
    | Bytes b \<Rightarrow> w\<lparr>tw_status := default_status (tw_status w), tw_bytes := tw_bytes w + int (length b),
        tw_out := tw_out w @ [e]\<rparr>
    | Flush \<Rightarrow> w\<lparr>tw_status := default_status (tw_status w), tw_out := tw_out w @ [e]\<rparr>)"

datatype trace_line = TraceStart string string string | TraceEnd string int int

definition httpTrace :: "string \<Rightarrow> string \<Rightarrow> string \<Rightarrow> emit list \<Rightarrow> emit list \<times> trace_line list" where
  "httpTrace request_id http_method path es =
     (if \<not> has_prefix path ''/api/'' \<and> \<not> has_prefix path ''/v1/'' then (es, [])
      else
        let w = fold trace_emit es \<lparr>tw_status = 0, tw_bytes = 0, tw_out = []\<rparr>
        in (tw_out w, [TraceStart request_id http_method path,
              TraceEnd request_id (default_status (tw_status w)) (tw_bytes w)]))"

section \<open>The id of a request\<close>

text \<open>A header is set on the response and the id goes into the context; the client's header is not read.\<close>

definition requestID :: "string \<Rightarrow> (string \<times> string) list \<Rightarrow> (string \<times> string) list \<times> string" where
  "requestID new_uuid headers =
     (filter (\<lambda>(k, _). k \<noteq> ''X-Request-ID'') headers @ [(''X-Request-ID'', new_uuid)], new_uuid)"

section \<open>Records\<close>

record debugRecord =
  dr_ID :: string
  dr_At :: instant
  dr_Path :: string
  dr_Method :: string
  dr_Status :: int
  dr_Level :: string
  dr_DurationMS :: int
  dr_InputTokens :: "int option"
  dr_OutputTokens :: "int option"
  dr_TokenSource :: string
  dr_CacheHit :: "bool option"
  dr_CacheSource :: string
  dr_Client :: json
  dr_Upstream :: json
  dr_Gateway :: json

text \<open>\<open>debug_file\<close> has the records appended to the file.\<close>

record debugStore =
  records :: "debugRecord list"
  debug_file :: "debugRecord list"

definition openDebugStore :: debugStore where
  "openDebugStore = \<lparr>records = [], debug_file = []\<rparr>"

definition secret_keys :: "string list" where
  "secret_keys = [''api_key'', ''apiKey'', ''authorization'', ''access_token'', ''accessToken'']"

definition redacted :: json where
  "redacted = JStr ''[redacted]''"

definition redactBody :: "golib \<Rightarrow> string \<Rightarrow> json" where
  "redactBody L b = (case unmarshal L b of
      None \<Rightarrow> JStr b
    | Some v \<Rightarrow> (case is_obj v of
        None \<Rightarrow> v
      | Some m \<Rightarrow> JObj (map (\<lambda>(k, v). (k, if k \<in> set secret_keys then redacted else v)) m)))"

definition debugLevel :: "int \<Rightarrow> string" where
  "debugLevel status = (if status \<ge> 500 then ''error'' else if status \<ge> 400 then ''warn'' else ''info'')"

definition debugLevelRank :: "string \<Rightarrow> int" where
  "debugLevelRank level =
     (if level = ''debug'' then 0
      else if level = ''info'' then 1
      else if level = ''warn'' then 2
      else if level = ''error'' then 3
      else if level = ''silent'' then 4
      else 1)"

definition ring_size :: nat where
  "ring_size = 500"

text \<open>\<open>configured\<close> is the log level of the settings; \<open>opens\<close> says whether the file can be opened.\<close>

definition wanted :: "string \<Rightarrow> debugRecord \<Rightarrow> bool" where
  "wanted configured r \<longleftrightarrow> \<not> (configured = ''silent'' \<or> debugLevelRank (dr_Level r) < debugLevelRank configured)"

definition add_record :: "string \<Rightarrow> bool \<Rightarrow> debugRecord \<Rightarrow> debugStore \<Rightarrow> debugStore" where
  "add_record configured opens r d =
     (if \<not> wanted configured r then d
      else
        let rs = records d @ [r];
            d1 = d\<lparr>records := (if length rs > ring_size then drop (length rs - ring_size) rs else rs)\<rparr>
        in if opens then d1\<lparr>debug_file := debug_file d1 @ [r]\<rparr> else d1)"

definition list_records :: "debugStore \<Rightarrow> debugRecord list" where
  "list_records d = rev (records d)"

definition get_record :: "string \<Rightarrow> debugStore \<Rightarrow> debugRecord option" where
  "get_record i d = find (\<lambda>r. dr_ID r = i) (records d)"

section \<open>Capturing an answer\<close>

definition maxDebugCaptureBytes :: nat where
  "maxDebugCaptureBytes = 256 * 2 ^ 10"

definition maxDebugRequestBytes :: nat where
  "maxDebugRequestBytes = 10 * 2 ^ 20"

record limitedBuffer =
  lb_bytes :: string
  truncated :: bool

definition limited_write :: "string \<Rightarrow> limitedBuffer \<Rightarrow> limitedBuffer" where
  "limited_write p b =
     (if length (lb_bytes b) \<ge> maxDebugCaptureBytes then b\<lparr>truncated := True\<rparr>
      else if length p > maxDebugCaptureBytes - length (lb_bytes b) then
        b\<lparr>lb_bytes := lb_bytes b @ take (maxDebugCaptureBytes - length (lb_bytes b)) p, truncated := True\<rparr>
      else b\<lparr>lb_bytes := lb_bytes b @ p\<rparr>)"

record captureWriter =
  cw_status :: int
  cw_body :: limitedBuffer
  cw_out :: "emit list"

definition new_capture :: captureWriter where
  "new_capture = \<lparr>cw_status = 0, cw_body = \<lparr>lb_bytes = [], truncated = False\<rparr>, cw_out = []\<rparr>"

definition capture_emit :: "emit \<Rightarrow> captureWriter \<Rightarrow> captureWriter" where
  "capture_emit e c = (case e of
      Header s \<Rightarrow> c\<lparr>cw_status := s, cw_out := cw_out c @ [e]\<rparr>
    | Bytes b \<Rightarrow> c\<lparr>cw_status := default_status (cw_status c), cw_body := limited_write b (cw_body c),
        cw_out := cw_out c @ [e]\<rparr>
    | Flush \<Rightarrow> c\<lparr>cw_status := default_status (cw_status c), cw_out := cw_out c @ [e]\<rparr>)"

definition capture :: "emit list \<Rightarrow> captureWriter" where
  "capture es = fold capture_emit es new_capture"

definition not_captured :: json where
  "not_captured = JObj [(''captured'', JBool False),
     (''reason'', JStr ''ChatHub transport tracing not yet attached to request context'')]"

definition debug_record ::
    "golib \<Rightarrow> string \<Rightarrow> instant \<Rightarrow> int \<Rightarrow> string \<Rightarrow> string \<Rightarrow> string \<Rightarrow> captureWriter \<Rightarrow> debugRecord" where
  "debug_record L new_uuid start duration path http_method body c =
     \<lparr>dr_ID = ''dbg_'' @ new_uuid, dr_At = start, dr_Path = path, dr_Method = http_method,
      dr_Status = cw_status c, dr_Level = debugLevel (cw_status c), dr_DurationMS = duration,
      dr_InputTokens = None, dr_OutputTokens = None, dr_TokenSource = ''unavailable_from_chathub'',
      dr_CacheHit = None, dr_CacheSource = ''not_reported_by_upstream'', dr_Client = redactBody L body,
      dr_Upstream = not_captured, dr_Gateway = redactBody L (lb_bytes (cw_body c))\<rparr>"

definition too_large :: "emit list" where
  "too_large = [Header 413, Bytes (''request body too large'' @ [CHR 0x0A])]"

text \<open>\<open>body\<close> is \<open>None\<close> where it cannot be read; \<open>next\<close> is the handler behind.\<close>

definition debugMiddleware ::
    "golib \<Rightarrow> string \<Rightarrow> bool \<Rightarrow> string \<Rightarrow> instant \<Rightarrow> int \<Rightarrow> string \<Rightarrow> string \<Rightarrow> string option
      \<Rightarrow> (string option \<Rightarrow> emit list) \<Rightarrow> debugStore \<Rightarrow> emit list \<times> debugStore" where
  "debugMiddleware L configured opens new_uuid start duration path http_method body handler d =
     (if \<not> has_prefix path ''/v1/'' then (handler body, d)
      else (case body of
        None \<Rightarrow> (too_large, d)
      | Some b \<Rightarrow>
          if length b > maxDebugRequestBytes then (too_large, d)
          else
            let c = capture (handler (Some b))
            in (cw_out c, add_record configured opens
                  (debug_record L new_uuid start duration path http_method b c) d)))"

section \<open>Laws\<close>

text \<open>The last \<open>k\<close> elements.\<close>

definition lastn :: "nat \<Rightarrow> 'a list \<Rightarrow> 'a list" where
  "lastn k xs = drop (length xs - k) xs"

lemma lastn_lastn_snoc: "0 < k \<Longrightarrow> lastn k (lastn k xs @ [x]) = lastn k (xs @ [x])"
  by (cases "length xs < k") (auto simp: lastn_def Suc_diff_le)

lemma length_lastn: "length (lastn k xs) \<le> k"
  by (simp add: lastn_def)

lemma add_record_records:
  "records (add_record configured opens r d) =
     (if wanted configured r then lastn ring_size (records d @ [r]) else records d)"
  by (simp add: add_record_def Let_def lastn_def)

lemma capture_snoc [simp]: "capture (es @ [e]) = capture_emit e (capture es)"
  by (simp add: capture_def)

lemma capture_Nil [simp]: "capture [] = new_capture"
  by (simp add: capture_def)

lemma cw_out_capture [simp]: "cw_out (capture es) = es"
  by (induction es rule: rev_induct) (simp_all add: new_capture_def capture_emit_def split: emit.split)

text \<open>An empty write to a full buffer also counts as cut off.\<close>

lemma capture_body: "lb_bytes (cw_body (capture es)) = take maxDebugCaptureBytes (bytes_of es)"
proof (induction es rule: rev_induct)
  case (snoc e es)
  have "lb_bytes (limited_write p b) = take maxDebugCaptureBytes (s @ p)"
    if "lb_bytes b = take maxDebugCaptureBytes s" for p b s
    using that by (auto simp: limited_write_def min_def)
  with snoc show ?case by (simp add: capture_emit_def split: emit.split)
qed (simp add: new_capture_def)

lemma trace_out: "tw_out (fold trace_emit es w) = tw_out w @ es"
  by (induction es arbitrary: w) (simp_all add: trace_emit_def split: emit.split)

lemma trace_bytes: "tw_bytes (fold trace_emit es w) = tw_bytes w + int (length (bytes_of es))"
  by (induction es arbitrary: w rule: bytes_of.induct) (simp_all add: trace_emit_def)

lemma trace_status_set: "tw_status w \<noteq> 0 \<Longrightarrow> tw_status (fold trace_emit es w) = tw_status w"
  by (induction es arbitrary: w) (simp_all add: trace_emit_def default_status_def split: emit.split)

text \<open>\<open>WriteHeader\<close> refuses a status below 100.\<close>

definition status_codes :: "emit list \<Rightarrow> bool" where
  "status_codes es \<longleftrightarrow> list_all (\<lambda>e. case e of Header s \<Rightarrow> s \<noteq> 0 | _ \<Rightarrow> True) es"

lemma trace_status:
  assumes "status_codes es" "tw_status w = 0"
  shows "default_status (tw_status (fold trace_emit es w)) = sent_status es"
proof (cases es)
  case (Cons e es')
  then have "fold trace_emit es w = fold trace_emit es' (trace_emit e w)" by simp
  with assms Cons show ?thesis
    by (cases e) (simp_all add: status_codes_def trace_status_set trace_emit_def default_status_def)
qed (use assms in \<open>simp add: default_status_def\<close>)

lemma capture_status_kept:
  "\<forall>s. Header s \<notin> set es \<Longrightarrow> cw_status c \<noteq> 0 \<Longrightarrow> cw_status (fold capture_emit es c) = cw_status c"
  by (induction es arbitrary: c) (auto simp: capture_emit_def default_status_def split: emit.split)

section \<open>Properties\<close>

text \<open>
  the wrappers are invisible to the client: what a handler emits arrives unchanged behind the trace and
  the record of API requests, unless the body is larger than 10 MiB, in which case the handler does not
  run; the trace reports the status the client saw and the number of bytes.
\<close>
theorem wrappers_change_nothing:
  assumes "status_codes es"
  shows "fst (httpTrace rid m path es) = es
    \<and> (has_prefix path ''/api/'' \<or> has_prefix path ''/v1/'' \<longrightarrow>
        snd (httpTrace rid m path es) = [TraceStart rid m path, TraceEnd rid (sent_status es) (int (length (bytes_of es)))])
    \<and> fst (debugMiddleware L conf opens u t0 dur path m (Some b) h d) =
        (if has_prefix path ''/v1/'' \<and> length b > maxDebugRequestBytes then too_large else h (Some b))"
  using trace_status [OF assms] by (simp add: httpTrace_def debugMiddleware_def Let_def trace_out trace_bytes)

text \<open>
  the console shows the last 500 of the records that passed the log level in force when they were
  made, newest first, and a record is found by its id while it is among them.
\<close>
theorem ring_keeps_the_latest:
  "list_records (fold (\<lambda>(conf, opens, r). add_record conf opens r) entries openDebugStore) =
     rev (lastn 500 (map (\<lambda>(conf, opens, r). r) (filter (\<lambda>(conf, opens, r). wanted conf r) entries)))"
proof -
  have "records (fold (\<lambda>(conf, opens, r). add_record conf opens r) entries openDebugStore) =
      lastn ring_size (map (\<lambda>(conf, opens, r). r) (filter (\<lambda>(conf, opens, r). wanted conf r) entries))"
    by (induction entries rule: rev_induct)
      (auto simp: add_record_records lastn_lastn_snoc ring_size_def openDebugStore_def lastn_def [of _ "[]"])
  then show ?thesis by (simp add: list_records_def ring_size_def)
qed

text \<open>
  the answer in a record is at most 256 KiB, a prefix of what the client got; one that was cut off, or
  is not JSON, is kept as it is.
\<close>
theorem captured_answer_is_bounded:
  "lb_bytes (cw_body (capture es)) = take maxDebugCaptureBytes (bytes_of es)
    \<and> length (lb_bytes (cw_body (capture es))) \<le> 256 * 1024"
  by (simp add: capture_body maxDebugCaptureBytes_def)

text \<open>
  the credentials at the top level of a JSON body never reach a record.
\<close>
theorem top_level_secrets_are_redacted:
  assumes "redactBody L b = JObj m" and "k \<in> {''api_key'', ''apiKey'', ''authorization'', ''access_token'', ''accessToken''}"
  shows "lookup m k = None \<or> lookup m k = Some redacted"
proof -
  have "k \<in> set secret_keys" using assms(2) by (auto simp: secret_keys_def)
  then have "lookup (map (\<lambda>(k, v). (k, if k \<in> set secret_keys then redacted else v)) m0) k \<in> {None, Some redacted}" for m0
    by (induction m0) (auto split: if_splits)
  with assms(1) show ?thesis by (auto simp: redactBody_def split: option.splits)
qed

text \<open>
  a credential one level down is recorded as it is, and so is a whole body that does not decode, such as
  a long answer that was cut off.
\<close>
theorem nested_secrets_are_recorded:
  "unmarshal L b = Some (JObj [(''auth'', JObj [(''api_key'', JStr s)])]) \<Longrightarrow>
     redactBody L b = JObj [(''auth'', JObj [(''api_key'', JStr s)])]"
  "unmarshal L b' = None \<Longrightarrow> redactBody L b' = JStr b'"
  by (simp_all add: redactBody_def secret_keys_def)

text \<open>
  the body of a request is recorded in full, whatever its size up to 10 MiB: the limit on captures is
  for answers only.
\<close>
theorem request_is_recorded_in_full:
  assumes "has_prefix path ''/v1/''" and "length b \<le> maxDebugRequestBytes" and "wanted conf r"
    and "r = debug_record L u t0 dur path m b (capture (h (Some b)))"
  shows "hd (list_records (snd (debugMiddleware L conf opens u t0 dur path m (Some b) h d))) = r \<and> dr_Client r = redactBody L b"
  using assms
  by (auto simp: debugMiddleware_def Let_def list_records_def add_record_records lastn_def ring_size_def debug_record_def
      hd_rev)

text \<open>
  the recorded status is the one the client saw when the handler sends at most one, and first; an
  answer without any writes is recorded with status 0.
\<close>
theorem recorded_status:
  assumes "\<forall>s. Header s \<notin> set es" and "status_codes [e]"
  shows "cw_status (capture (e # es)) = sent_status (e # es) \<and> cw_status (capture []) = 0"
proof -
  have "cw_status (capture_emit e new_capture) \<noteq> 0" "cw_status (capture_emit e new_capture) = sent_status (e # es)"
    using assms(2) by (cases e; simp add: capture_emit_def new_capture_def default_status_def status_codes_def)+
  with capture_status_kept [OF assms(1)] show ?thesis by (simp add: capture_def new_capture_def)
qed

text \<open>
  a second \<open>WriteHeader\<close>, which the server ignores, changes the recorded status.
\<close>
theorem superfluous_status_is_recorded: "cw_status (capture [Header a, Header b]) = b \<and> sent_status [Header a, Header b] = a"
  by (simp add: capture_def capture_emit_def)

section \<open>Witnesses\<close>

theorem wrappers_change_nothing_witness:
  "httpTrace ''i'' ''POST'' ''/v1/models'' [Header 404, Bytes ''no'', Header 500]
     = ([Header 404, Bytes ''no'', Header 500], [TraceStart ''i'' ''POST'' ''/v1/models'', TraceEnd ''i'' 404 2])"
  using wrappers_change_nothing [of "[Header 404, Bytes ''no'', Header 500]" "''i''" "''POST''" "''/v1/models''"]
  by (simp add: status_codes_def has_prefix_def prod_eq_iff)

definition plain_lib :: golib where
  "plain_lib = \<lparr>marshal = (\<lambda>_. []), unmarshal = (\<lambda>_. Some (JObj [(''model'', JStr ''m''), (''api_key'', JStr ''k'')])),
     sprint_composite = (\<lambda>_. []), sha256_hex = (\<lambda>s. s)\<rparr>"

lemma plain_redacted: "redactBody plain_lib b = JObj [(''model'', JStr ''m''), (''api_key'', redacted)]"
  by (simp add: redactBody_def plain_lib_def secret_keys_def)

theorem top_level_secrets_are_redacted_witness:
  "lookup [(''model'', JStr ''m''), (''api_key'', redacted)] ''api_key'' = Some redacted"
  using top_level_secrets_are_redacted [OF plain_redacted, of "''api_key''"] by simp

theorem recorded_status_witness: "cw_status (capture [Header 404, Bytes ''no'']) = 404"
  using recorded_status [of "[Bytes ''no'']" "Header 404"] by (simp add: status_codes_def)

definition small_record :: debugRecord where
  "small_record = debug_record plain_lib ''u'' 1 2 ''/v1/x'' ''POST'' ''b'' (capture [Bytes ''ok''])"

theorem request_is_recorded_in_full_witness:
  "hd (list_records (snd (debugMiddleware plain_lib ''info'' True ''u'' 1 2 ''/v1/x'' ''POST'' (Some ''b'') (\<lambda>_. [Bytes ''ok'']) openDebugStore)))
     = small_record"
proof -
  have "has_prefix ''/v1/x'' ''/v1/''" by code_simp
  moreover have "length ''b'' \<le> maxDebugRequestBytes" by (simp add: maxDebugRequestBytes_def)
  moreover have "cw_status (capture [Bytes ''ok'']) = 200"
    by (simp add: capture_def capture_emit_def new_capture_def default_status_def)
  then have "dr_Level small_record = ''info''" by (simp add: small_record_def debug_record_def debugLevel_def)
  then have "wanted ''info'' small_record" by (simp add: wanted_def debugLevelRank_def)
  ultimately show ?thesis
    using request_is_recorded_in_full [of "''/v1/x''" "''b''" "''info''" small_record plain_lib] by (simp add: small_record_def)
qed

end
