(* ===== verification/ApiKeys.thy ===== *)
theory ApiKeys
  imports GoJson Storage
begin

text \<open>
  API keys, src/internal/web/keys.go: a key is made from 32 random bytes, only its SHA-256 is
  stored, and each change of the list is written to the key file.  Random bytes, the clock and
  the outcome of the file writes are arguments.
\<close>

section \<open>The store\<close>

record apiKeyRecord =
  ak_ID :: string
  ak_Name :: string
  ak_Prefix :: string
  ak_Hash :: string
  ak_CreatedAt :: instant
  ak_LastUsedAt :: "instant option"
  ak_Revoked :: bool

text \<open>\<open>key_file\<close> is what \<open>openAPIKeys\<close> would read: no keys from a missing or unreadable file.\<close>

record apiKeyStore =
  Keys :: "apiKeyRecord list"
  key_file :: "apiKeyRecord list"

type_synonym key_save = "apiKeyRecord list save_outcome"

definition openAPIKeys :: "apiKeyRecord list \<Rightarrow> apiKeyStore" where
  "openAPIKeys f = \<lparr>Keys = f, key_file = f\<rparr>"

definition save_keys :: "key_save \<Rightarrow> apiKeyStore \<Rightarrow> apiKeyStore" where
  "save_keys out s = s\<lparr>key_file := written out (Keys s)\<rparr>"

definition hex_digit :: "nat \<Rightarrow> char" where
  "hex_digit n = (if n < 10 then char_of (48 + n) else char_of (87 + n))"

definition hex_encode :: "string \<Rightarrow> string" where
  "hex_encode bs = concat (map (\<lambda>c. let n = (of_char c :: nat) in [hex_digit (n div 16), hex_digit (n mod 16)]) bs)"

definition keyHash :: "golib \<Rightarrow> string \<Rightarrow> string" where
  "keyHash L k = sha256_hex L k"

definition raw_key :: "string \<Rightarrow> string" where
  "raw_key b = ''m365_'' @ hex_encode b"

definition new_key :: "golib \<Rightarrow> string \<Rightarrow> string \<Rightarrow> instant \<Rightarrow> apiKeyRecord" where
  "new_key L name b now = \<lparr>ak_ID = hex_encode (take 8 b), ak_Name = name, ak_Prefix = take 12 (raw_key b),
     ak_Hash = keyHash L (raw_key b), ak_CreatedAt = now, ak_LastUsedAt = None, ak_Revoked = False\<rparr>"

text \<open>\<open>rnd\<close>: the bytes \<open>rand.Read\<close> fills in, \<open>None\<close> where it fails.\<close>

definition create ::
    "golib \<Rightarrow> string \<Rightarrow> string option \<Rightarrow> instant \<Rightarrow> key_save \<Rightarrow> apiKeyStore
      \<Rightarrow> (apiKeyRecord \<times> string) option \<times> apiKeyStore" where
  "create L name rnd now out s = (case rnd of
      None \<Rightarrow> (None, s)
    | Some b \<Rightarrow>
        let r = new_key L name b now;
            s1 = s\<lparr>Keys := Keys s @ [r]\<rparr>;
            s2 = save_keys out s1
        in if save_ok out then (Some (r, raw_key b), s2)
           else (None, s2\<lparr>Keys := take (length (Keys s2) - 1) (Keys s2)\<rparr>))"

definition list_keys :: "apiKeyStore \<Rightarrow> apiKeyRecord list" where
  "list_keys s = map (\<lambda>k. k\<lparr>ak_Hash := []\<rparr>) (Keys s)"

definition revocable :: "string \<Rightarrow> apiKeyRecord \<Rightarrow> bool" where
  "revocable kid k \<longleftrightarrow> ak_ID k = kid \<and> \<not> ak_Revoked k"

text \<open>The result is whether a key was revoked, and whether the save failed.\<close>

definition revoke :: "string \<Rightarrow> key_save \<Rightarrow> apiKeyStore \<Rightarrow> (bool \<times> bool) \<times> apiKeyStore" where
  "revoke kid out s =
     (if find (revocable kid) (Keys s) = None then ((False, False), s)
      else
        let s1 = s\<lparr>Keys := update_first (revocable kid) (\<lambda>k. k\<lparr>ak_Revoked := True\<rparr>) (Keys s)\<rparr>;
            s2 = save_keys out s1
        in if save_ok out then ((True, False), s2)
           else ((False, True), s2\<lparr>Keys := Keys s\<rparr>))"

definition accepts :: "string \<Rightarrow> apiKeyRecord \<Rightarrow> bool" where
  "accepts h k \<longleftrightarrow> ak_Hash k = h \<and> \<not> ak_Revoked k"

definition valid :: "golib \<Rightarrow> string \<Rightarrow> instant \<Rightarrow> key_save \<Rightarrow> apiKeyStore \<Rightarrow> bool \<times> apiKeyStore" where
  "valid L raw now out s =
     (let h = keyHash L raw in
      if find (accepts h) (Keys s) = None then (False, s)
      else (True, save_keys out
        (s\<lparr>Keys := update_first (accepts h) (\<lambda>k. k\<lparr>ak_LastUsedAt := Some now\<rparr>) (Keys s)\<rparr>)))"

section \<open>Requests\<close>

text \<open>The key a request presents, in \<open>X-API-Key\<close> or as a bearer token, and the check of it.\<close>

definition presented_key :: "string \<Rightarrow> string \<Rightarrow> string" where
  "presented_key x_api_key authorization =
     (let raw = trim_space x_api_key in
      if raw \<noteq> [] then raw
      else if has_prefix (to_lower authorization) ''bearer '' then trim_space (drop 7 authorization)
      else [])"

definition validAPIKey ::
    "golib \<Rightarrow> string \<Rightarrow> string \<Rightarrow> instant \<Rightarrow> key_save \<Rightarrow> apiKeyStore \<Rightarrow> bool \<times> apiKeyStore" where
  "validAPIKey L x_api_key authorization now out s =
     (let raw = presented_key x_api_key authorization
      in if raw = [] then (False, s) else valid L raw now out s)"

section \<open>The abstract key list\<close>

text \<open>The abstract store is the list of id and hash of the keys that are not revoked.\<close>

definition active :: "apiKeyStore \<Rightarrow> (string \<times> string) list" where
  "active s = map (\<lambda>k. (ak_ID k, ak_Hash k)) (filter (\<lambda>k. \<not> ak_Revoked k) (Keys s))"

lemma active_Keys: "Keys s' = Keys s \<Longrightarrow> active s' = active s"
  by (simp add: active_def)

lemma save_keys_fields [simp]:
  "Keys (save_keys out s) = Keys s" "key_file (save_keys out s) = written out (Keys s)"
  by (simp_all add: save_keys_def)

lemma create_Keys:
  "Keys (snd (create L name rnd now out s)) =
     Keys s @ (case rnd of Some b \<Rightarrow> if save_ok out then [new_key L name b now] else [] | None \<Rightarrow> [])"
  by (simp add: create_def Let_def split: option.split)

lemma create_result:
  "fst (create L name rnd now out s) =
     (case rnd of Some b \<Rightarrow> if save_ok out then Some (new_key L name b now, raw_key b) else None | None \<Rightarrow> None)"
  by (simp add: create_def Let_def split: option.split)

fun drop_first :: "('a \<Rightarrow> bool) \<Rightarrow> 'a list \<Rightarrow> 'a list" where
  "drop_first p [] = []"
| "drop_first p (x # xs) = (if p x then xs else x # drop_first p xs)"

lemma active_revoked:
  "map (\<lambda>k. (ak_ID k, ak_Hash k)) (filter (\<lambda>k. \<not> ak_Revoked k)
     (update_first (revocable kid) (\<lambda>k. k\<lparr>ak_Revoked := True\<rparr>) ks)) =
   drop_first (\<lambda>p. fst p = kid) (map (\<lambda>k. (ak_ID k, ak_Hash k)) (filter (\<lambda>k. \<not> ak_Revoked k) ks))"
  by (induction ks) (auto simp: revocable_def)

lemma active_used:
  "map (\<lambda>k. (ak_ID k, ak_Hash k)) (filter (\<lambda>k. \<not> ak_Revoked k)
     (update_first (accepts h) (\<lambda>k. k\<lparr>ak_LastUsedAt := t\<rparr>) ks)) =
   map (\<lambda>k. (ak_ID k, ak_Hash k)) (filter (\<lambda>k. \<not> ak_Revoked k) ks)"
  by (induction ks) (auto simp: accepts_def)

lemma drop_first_none: "(\<forall>x\<in>set xs. \<not> p x) \<Longrightarrow> drop_first p xs = xs"
  by (induction xs) auto

lemma revocable_iff: "find (revocable kid) (Keys s) = None \<longleftrightarrow> kid \<notin> fst ` set (active s)"
  by (force simp: find_None_all revocable_def active_def)

lemma accepts_iff: "find (accepts h) (Keys s) = None \<longleftrightarrow> h \<notin> snd ` set (active s)"
  by (force simp: find_None_all accepts_def active_def)

lemma revoke_active:
  "active (snd (revoke kid out s)) =
     (if save_ok out then drop_first (\<lambda>p. fst p = kid) (active s) else active s)"
proof (cases "find (revocable kid) (Keys s) = None")
  case True
  then have "\<forall>p\<in>set (active s). fst p \<noteq> kid" by (auto simp: revocable_iff)
  with True show ?thesis by (simp add: revoke_def drop_first_none)
next
  case False
  then obtain k where "find (revocable kid) (Keys s) = Some k" by auto
  then show ?thesis by (simp add: revoke_def Let_def active_def active_revoked)
qed

lemma revoke_result:
  "fst (fst (revoke kid out s)) \<longleftrightarrow> save_ok out \<and> kid \<in> fst ` set (active s)"
  using revocable_iff [of kid s] by (auto simp: revoke_def Let_def)

lemma valid_active: "active (snd (valid L raw now out s)) = active s"
  by (simp add: valid_def Let_def active_def active_used)

lemma valid_result: "fst (valid L raw now out s) \<longleftrightarrow> keyHash L raw \<in> snd ` set (active s)"
  using accepts_iff [of "keyHash L raw" s] by (simp add: valid_def Let_def)

section \<open>The store writes through\<close>

datatype key_op = Create string "string option" instant key_save | Revoke string key_save

fun key_exec :: "golib \<Rightarrow> key_op \<Rightarrow> apiKeyStore \<Rightarrow> bool \<times> apiKeyStore" where
  "key_exec L (Create name rnd now out) s =
     (fst (create L name rnd now out s) \<noteq> None, snd (create L name rnd now out s))"
| "key_exec L (Revoke kid out) s = (fst (fst (revoke kid out s)), snd (revoke kid out s))"

interpretation keys: write_through Keys key_file "\<lambda>f. Keys (openAPIKeys f)" "key_exec L" for L
proof unfold_locales
  fix op s s'
  assume "key_exec L op s = (True, s')" and "Keys (openAPIKeys (key_file s)) = Keys s"
  then show "Keys (openAPIKeys (key_file s')) = Keys s'"
    by (cases op) (auto simp: openAPIKeys_def create_def revoke_def Let_def written_ok
        split: option.splits if_splits)
next
  fix op s s'
  assume "key_exec L op s = (False, s')"
  then show "Keys s' = Keys s"
    by (cases op) (auto simp: create_def revoke_def Let_def split: option.splits if_splits)
qed

section \<open>Properties\<close>

text \<open>Everything that happens to the store: its two changes, and the check of a presented key.\<close>

datatype key_event = Change key_op | Use string instant key_save

fun key_event_step :: "golib \<Rightarrow> key_event \<Rightarrow> apiKeyStore \<Rightarrow> apiKeyStore" where
  "key_event_step L (Change op) s = snd (key_exec L op s)"
| "key_event_step L (Use raw now out) s = snd (valid L raw now out s)"

definition key_run :: "golib \<Rightarrow> key_event list \<Rightarrow> apiKeyStore \<Rightarrow> apiKeyStore" where
  "key_run L evs s = fold (key_event_step L) evs s"

fun revokes :: "string \<Rightarrow> key_event \<Rightarrow> bool" where
  "revokes kid (Change (Revoke k out)) = (k = kid)"
| "revokes kid _ = False"

fun issues_hash :: "golib \<Rightarrow> string \<Rightarrow> key_event \<Rightarrow> bool" where
  "issues_hash L h (Change (Create name (Some b) now out)) = (keyHash L (raw_key b) = h)"
| "issues_hash L h _ = False"

lemma create_active:
  "active (snd (create L name rnd now out s)) = active s @
     (case rnd of Some b \<Rightarrow> if save_ok out then [(hex_encode (take 8 b), keyHash L (raw_key b))] else [] | None \<Rightarrow> [])"
  by (auto simp: active_def create_Keys new_key_def split: option.split)

lemma drop_first_keeps: "x \<in> set xs \<Longrightarrow> \<not> p x \<Longrightarrow> x \<in> set (drop_first p xs)"
  by (induction xs) auto

lemma drop_first_subset: "set (drop_first p xs) \<subseteq> set xs"
  by (induction xs) auto

lemma event_keeps:
  "(kid, h) \<in> set (active s) \<Longrightarrow> \<not> revokes kid ev \<Longrightarrow> (kid, h) \<in> set (active (key_event_step L ev s))"
proof (induction ev)
  case (Change op)
  then show ?case by (cases op) (auto simp: create_active revoke_active intro: drop_first_keeps)
qed (simp add: valid_active)

lemma event_adds:
  "h \<in> snd ` set (active (key_event_step L ev s)) \<Longrightarrow> \<not> issues_hash L h ev \<Longrightarrow> h \<in> snd ` set (active s)"
proof (induction ev)
  case (Change op)
  show ?case
  proof (cases op)
    case (Create name rnd now out)
    with Change show ?thesis by (cases rnd) (auto simp: create_active split: if_splits)
  next
    case (Revoke kid out)
    with Change drop_first_subset [of "\<lambda>p. fst p = kid" "active s"] show ?thesis
      by (auto simp: revoke_active split: if_splits)
  qed
qed (simp add: valid_active)

lemma run_keeps:
  "(kid, h) \<in> set (active s) \<Longrightarrow> list_all (\<lambda>ev. \<not> revokes kid ev) evs \<Longrightarrow>
    (kid, h) \<in> set (active (key_run L evs s))"
  unfolding key_run_def by (induction evs arbitrary: s) (auto intro: event_keeps)

lemma run_adds:
  "h \<notin> snd ` set (active s) \<Longrightarrow> list_all (\<lambda>ev. \<not> issues_hash L h ev) evs \<Longrightarrow>
    h \<notin> snd ` set (active (key_run L evs s))"
  unfolding key_run_def
proof (induction evs arbitrary: s)
  case (Cons ev evs)
  from Cons.prems event_adds [of h L ev s] have "h \<notin> snd ` set (active (key_event_step L ev s))"
    by auto
  with Cons show ?case by simp
qed simp

lemma drop_first_only:
  "count_list (map snd xs) h = 1 \<Longrightarrow> map_of xs kid = Some h \<Longrightarrow>
    h \<notin> snd ` set (drop_first (\<lambda>p. fst p = kid) xs)"
  by (induction xs) (auto simp: count_list_0_iff split: if_splits dest!: map_of_SomeD, force)

text \<open>
  C26: the key store implements the abstract list of id and hash of the keys in force: a
  successful creation appends one pair, a successful revocation removes the first pair with that
  id, anything that fails changes nothing, and a presented key is accepted exactly when its hash
  is in the list, whatever happens to the file.
\<close>
theorem keys_refine_active_list:
  "active (snd (create L name (Some b) now out s)) =
     (if save_ok out then active s @ [(hex_encode (take 8 b), keyHash L (raw_key b))] else active s)
   \<and> active (snd (revoke kid out s)) =
     (if save_ok out then drop_first (\<lambda>p. fst p = kid) (active s) else active s)
   \<and> (fst (fst (revoke kid out s)) \<longleftrightarrow> save_ok out \<and> kid \<in> fst ` set (active s))
   \<and> (fst (valid L raw now out s) \<longleftrightarrow> keyHash L raw \<in> snd ` set (active s))
   \<and> active (snd (valid L raw now out s)) = active s"
  by (simp add: create_active revoke_active revoke_result valid_result valid_active)

text \<open>
  a key that was created successfully is accepted after any events that do not revoke its id.
\<close>
theorem created_key_stays_valid:
  assumes "create L name rnd t out s = (Some (r, raw), s1)"
    and "list_all (\<lambda>ev. \<not> revokes (ak_ID r) ev) evs"
  shows "fst (valid L raw now out' (key_run L evs s1))"
proof -
  have "(ak_ID r, keyHash L raw) \<in> set (active s1)"
    using assms(1) create_result [of L name rnd t out s] create_active [of L name rnd t out s]
    by (auto simp: new_key_def split: option.splits if_splits)
  from run_keeps [OF this assms(2), of L] show ?thesis by (force simp: valid_result)
qed

text \<open>
  a key whose revocation was reported is refused from then on, unless its bytes are drawn
  again: provided no other key in force has its hash.
\<close>
theorem revoked_key_stays_refused:
  assumes "map_of (active s) kid = Some (keyHash L raw)"
    and "count_list (map snd (active s)) (keyHash L raw) = 1"
    and "fst (fst (revoke kid out s))"
    and "list_all (\<lambda>ev. \<not> issues_hash L (keyHash L raw) ev) evs"
  shows "\<not> fst (valid L raw now out' (key_run L evs (snd (revoke kid out s))))"
proof -
  have "keyHash L raw \<notin> snd ` set (active (snd (revoke kid out s)))"
    using assms(1-3) by (simp add: revoke_active revoke_result drop_first_only)
  from run_adds [OF this assms(4)] show ?thesis by (simp add: valid_result)
qed

text \<open>
  a list of keys whose every change reported success is the list a restart loads.
\<close>
theorem reported_keys_survive_restart:
  assumes "keys.exec_all L ops (openAPIKeys f) = (oks, s)" and "list_all (\<lambda>ok. ok) oks"
  shows "openAPIKeys (key_file s) = s"
proof -
  have "keys.synced (openAPIKeys f)" unfolding keys.synced_def by (simp add: openAPIKeys_def)
  from keys.exec_all_synced [OF assms this] have "key_file s = Keys s"
    unfolding keys.synced_def by (simp add: openAPIKeys_def)
  then show ?thesis by (simp add: openAPIKeys_def)
qed

definition plain_lib :: golib where
  "plain_lib = \<lparr>marshal = (\<lambda>_. []), unmarshal = (\<lambda>_. None), sprint_composite = (\<lambda>_. []), sha256_hex = (\<lambda>s. s)\<rparr>"

definition key_store :: apiKeyStore where
  "key_store = snd (create plain_lib ''ci'' (Some ''0123456789'') 5 Saved (openAPIKeys []))"

lemma key_store_active: "active key_store = [(''3031323334353637'', ''m365_30313233343536373839'')]"
  by code_simp

lemma key_store_create:
  "create plain_lib ''ci'' (Some ''0123456789'') 5 Saved (openAPIKeys []) =
     (Some (new_key plain_lib ''ci'' ''0123456789'' 5, ''m365_30313233343536373839''), key_store)"
proof -
  have "raw_key ''0123456789'' = ''m365_30313233343536373839''" by code_simp
  then show ?thesis by (simp add: prod_eq_iff key_store_def create_result)
qed

theorem created_key_stays_valid_witness:
  "fst (valid plain_lib ''m365_30313233343536373839'' 9 Saved
     (key_run plain_lib [Change (Create ''x'' None 6 Saved), Use ''k'' 7 Saved] key_store))"
  using created_key_stays_valid [OF key_store_create,
      of "[Change (Create ''x'' None 6 Saved), Use ''k'' 7 Saved]"] by simp

theorem revoked_key_stays_refused_witness:
  "\<not> fst (valid plain_lib ''m365_30313233343536373839'' 9 Saved
     (snd (revoke ''3031323334353637'' Saved key_store)))"
  using revoked_key_stays_refused [of key_store "''3031323334353637''" plain_lib
      "''m365_30313233343536373839''" Saved "[]" 9 Saved]
  by (simp add: key_store_active revoke_result keyHash_def plain_lib_def key_run_def)

theorem reported_keys_survive_restart_witness:
  "openAPIKeys (key_file key_store) = key_store"
proof -
  have "keys.exec_all plain_lib [Create ''ci'' (Some ''0123456789'') 5 Saved] (openAPIKeys []) =
      ([True], key_store)"
    by (simp add: keys.exec_all.simps key_store_create)
  from reported_keys_survive_restart [OF this] show ?thesis by simp
qed

end
