(* ===== verification/AdminSecurity.thy ===== *)
theory AdminSecurity
  imports ApiKeys "HOL-Library.AList"
begin

text \<open>
  The administration console's access control: the login limiter and the password
  (src/internal/web/admin_security.go), sessions, login, logout and the middleware that guards
  every route (src/internal/web/server.go).  Go's maps are association lists with distinct keys.
  Random bytes, clock readings, decoded request bodies and the outcome of file writes are
  arguments; \<open>net.ParseIP\<close> is the record \<open>iplib\<close>.
\<close>

section \<open>State\<close>

record loginAttempt =
  Failures :: int
  WindowStart :: instant
  LockedUntil :: instant

definition zero_attempt :: loginAttempt where
  "zero_attempt = \<lparr>Failures = 0, WindowStart = zero_time, LockedUntil = zero_time\<rparr>"

record adminState =
  adminPassword :: string
  mustChangePassword :: bool
  adminSessions :: "(string \<times> instant) list"
  loginAttempts :: "(string \<times> loginAttempt) list"
  password_file :: string
  apiKeys :: apiKeyStore

definition defaultAdminPassword :: string where
  "defaultAdminPassword = ''admin123''"

text \<open>
  The password file's contents, the bootstrap file's and \<open>M365_ADMIN_PASSWORD\<close>; a file that is
  not there or not readable counts as empty.
\<close>

definition loadAdminPassword :: "string \<Rightarrow> string \<Rightarrow> string \<Rightarrow> string \<times> bool" where
  "loadAdminPassword persisted bootstrap env =
     (if trim_space persisted \<noteq> [] then
        (trim_space persisted, trim_space persisted = defaultAdminPassword)
      else if trim_space bootstrap \<noteq> [] then
        (trim_space bootstrap, trim_space bootstrap = defaultAdminPassword)
      else if trim_space env \<noteq> [] then
        (trim_space env, trim_space env = defaultAdminPassword)
      else (defaultAdminPassword, True))"

text \<open>\<open>New\<close>: the server's administration state after a start.\<close>

definition start_admin :: "string \<Rightarrow> string \<Rightarrow> string \<Rightarrow> apiKeyRecord list \<Rightarrow> adminState" where
  "start_admin persisted bootstrap env keys =
     (let (p, c) = loadAdminPassword persisted bootstrap env in
      \<lparr>adminPassword = p, mustChangePassword = c, adminSessions = [], loginAttempts = [],
       password_file = persisted, apiKeys = openAPIKeys keys\<rparr>)"

definition saveAdminPassword :: "string \<Rightarrow> string save_outcome \<Rightarrow> adminState \<Rightarrow> bool \<times> adminState" where
  "saveAdminPassword p out st =
     (save_ok out, st\<lparr>password_file := written out (p @ [CHR 0x0A])\<rparr>)"

datatype password_error = IsDefault | TooShort | TooLong

definition validNewAdminPassword :: "string \<Rightarrow> password_error + unit" where
  "validNewAdminPassword p =
     (if p = defaultAdminPassword then Inl IsDefault
      else if length p < 12 then Inl TooShort
      else if length p > 256 then Inl TooLong
      else Inr ())"

section \<open>The client's address\<close>

text \<open>\<open>net.SplitHostPort\<close>, the host part; empty where it reports an error.\<close>

definition split_host :: "string \<Rightarrow> string" where
  "split_host hp =
     (case str_last_index hp '':'' of
        None \<Rightarrow> []
      | Some i \<Rightarrow>
          if has_prefix hp ''['' then
            (case str_index hp '']'' of
               None \<Rightarrow> []
             | Some e \<Rightarrow>
                 if e + 1 \<noteq> i \<or> str_contains (drop 1 hp) ''['' \<or> str_contains (drop (e + 1) hp) '']''
                   then [] else take (e - 1) (drop 1 hp))
          else if str_contains (take i hp) '':'' \<or> str_contains hp ''['' \<or> str_contains hp '']''
            then [] else take i hp)"

text \<open>
  \<open>parse_ip s\<close> is \<open>net.ParseIP(s).String()\<close>, \<open>None\<close> for nil; \<open>loopback s\<close> is
  \<open>net.ParseIP(s).IsLoopback()\<close>.
\<close>

record iplib =
  parse_ip :: "string \<Rightarrow> string option"
  loopback :: "string \<Rightarrow> bool"

fun last_valid_ip :: "iplib \<Rightarrow> string list \<Rightarrow> string option" where
  "last_valid_ip I [] = None"
| "last_valid_ip I (part # parts) =
     (case last_valid_ip I parts of
        Some ip \<Rightarrow> Some ip
      | None \<Rightarrow> parse_ip I (trim_space part))"

definition clientIP :: "iplib \<Rightarrow> string \<Rightarrow> string \<Rightarrow> string" where
  "clientIP I remote_addr forwarded_for =
     (let host = split_host remote_addr;
          direct = (if host \<noteq> [] then host else remote_addr)
      in if loopback I host
         then (case last_valid_ip I (str_split (CHR '','') forwarded_for) of Some ip \<Rightarrow> ip | None \<Rightarrow> direct)
         else direct)"

section \<open>The login limiter\<close>

definition attempt_of :: "adminState \<Rightarrow> string \<Rightarrow> loginAttempt" where
  "attempt_of st ip = (case map_of (loginAttempts st) ip of None \<Rightarrow> zero_attempt | Some a \<Rightarrow> a)"

definition window_over :: "loginAttempt \<Rightarrow> instant \<Rightarrow> bool" where
  "window_over a now \<longleftrightarrow> WindowStart a = zero_time \<or> time_sub now (WindowStart a) > 15 * minute"

text \<open>\<open>later\<close> is the second clock reading, in \<open>time.Until\<close>.\<close>

definition loginAllowed :: "string \<Rightarrow> instant \<Rightarrow> instant \<Rightarrow> adminState \<Rightarrow> (bool \<times> duration) \<times> adminState" where
  "loginAllowed ip now later st =
     (let a = attempt_of st ip in
      if now < LockedUntil a then ((False, time_sub (LockedUntil a) later), st)
      else ((True, 0), if window_over a now
        then st\<lparr>loginAttempts := AList.delete ip (loginAttempts st)\<rparr> else st))"

definition maxLoginAttemptEntries :: nat where
  "maxLoginAttemptEntries = 4096"

definition stale_attempt :: "instant \<Rightarrow> loginAttempt \<Rightarrow> bool" where
  "stale_attempt now a \<longleftrightarrow> time_sub now (WindowStart a) > 15 * minute \<and> now > LockedUntil a"

definition count_failure_at :: "loginAttempt \<Rightarrow> instant \<Rightarrow> loginAttempt" where
  "count_failure_at a0 now =
     (let a = (if window_over a0 now then zero_attempt\<lparr>WindowStart := now\<rparr> else a0);
          a1 = a\<lparr>Failures := Failures a + 1\<rparr>
      in if Failures a1 \<ge> 5 then a1\<lparr>LockedUntil := now + 15 * minute\<rparr> else a1)"

definition recordLoginFailure :: "string \<Rightarrow> instant \<Rightarrow> adminState \<Rightarrow> adminState" where
  "recordLoginFailure ip now st =
     (let full = map_of (loginAttempts st) ip = None \<and> length (loginAttempts st) \<ge> maxLoginAttemptEntries;
          st1 = (if full then st\<lparr>loginAttempts := filter (\<lambda>(k, a). \<not> stale_attempt now a) (loginAttempts st)\<rparr>
                 else st)
      in if full \<and> length (loginAttempts st1) \<ge> maxLoginAttemptEntries then st1
         else st1\<lparr>loginAttempts := AList.update ip (count_failure_at (attempt_of st1 ip) now) (loginAttempts st1)\<rparr>)"

definition clearLoginFailures :: "string \<Rightarrow> adminState \<Rightarrow> adminState" where
  "clearLoginFailures ip st = st\<lparr>loginAttempts := AList.delete ip (loginAttempts st)\<rparr>"

section \<open>Sessions and handlers\<close>

text \<open>What a handler answers: an error with its status and type, or one of the documents it writes.\<close>

datatype reply =
    Failed int string
  | TooMany int
  | Authenticated string bool
  | LoggedOut
  | SessionInfo bool bool
  | PasswordChanged

text \<open>\<open>cookie\<close> is the value of \<open>m365_admin_session\<close>, \<open>None\<close> if the request has none.\<close>

definition validAdminSession :: "instant \<Rightarrow> string option \<Rightarrow> adminState \<Rightarrow> bool \<times> adminState" where
  "validAdminSession now cookie st =
     (case cookie of
        None \<Rightarrow> (False, st)
      | Some c \<Rightarrow>
          if c = [] then (False, st)
          else (case map_of (adminSessions st) c of
             Some expires \<Rightarrow>
               if now > expires then (False, st\<lparr>adminSessions := AList.delete c (adminSessions st)\<rparr>)
               else (True, st)
           | None \<Rightarrow> (False, st\<lparr>adminSessions := AList.delete c (adminSessions st)\<rparr>)))"

text \<open>The whole seconds of a duration, rounded toward zero, plus one\<close>

definition retry_after :: "duration \<Rightarrow> int" where
  "retry_after w = (if 0 \<le> w then w div second else - ((- w) div second)) + 1"

text \<open>
  \<open>adminLogin\<close> takes the server's lock in several separate steps: the check of the limiter, and
  after the body has been read, the comparison with what follows from it.  \<open>body\<close> is the decoded
  password (\<open>None\<close> where decoding fails), \<open>rnd\<close> the session token (\<open>None\<close> where the random
  source fails), \<open>issued\<close> the clock when the session is stored.
\<close>

definition login_check :: "string \<Rightarrow> instant \<Rightarrow> instant \<Rightarrow> adminState \<Rightarrow> reply option \<times> adminState" where
  "login_check ip now later st =
     (let ((ok, wait), st1) = loginAllowed ip now later st
      in (if ok then None else Some (TooMany (retry_after wait)), st1))"

definition login_finish ::
    "string \<Rightarrow> instant \<Rightarrow> string option \<Rightarrow> string option \<Rightarrow> instant \<Rightarrow> adminState \<Rightarrow> reply \<times> adminState" where
  "login_finish ip now body rnd issued st =
     (let mustChange = mustChangePassword st in
      if body = None \<or> body = Some [] \<or> body \<noteq> Some (adminPassword st)
      then (Failed 401 ''auth_error'', recordLoginFailure ip now st)
      else let st1 = clearLoginFailures ip st in
        case rnd of
          None \<Rightarrow> (Failed 500 ''internal_error'', st1)
        | Some token \<Rightarrow>
            (Authenticated token mustChange,
             st1\<lparr>adminSessions := AList.update token (issued + 24 * hour) (adminSessions st1)\<rparr>))"

definition adminLogin ::
    "string \<Rightarrow> string \<Rightarrow> instant \<Rightarrow> instant \<Rightarrow> string option \<Rightarrow> string option \<Rightarrow> instant
      \<Rightarrow> adminState \<Rightarrow> reply \<times> adminState" where
  "adminLogin meth ip now later body rnd issued st =
     (if meth \<noteq> ''POST'' then (Failed 405 ''invalid_request_error'', st)
      else case login_check ip now later st of
          (Some r, st1) \<Rightarrow> (r, st1)
        | (None, st1) \<Rightarrow> login_finish ip now body rnd issued st1)"

definition adminLogout :: "string option \<Rightarrow> adminState \<Rightarrow> reply \<times> adminState" where
  "adminLogout cookie st =
     (LoggedOut, case cookie of
        None \<Rightarrow> st
      | Some c \<Rightarrow> st\<lparr>adminSessions := AList.delete c (adminSessions st)\<rparr>)"

definition adminSession :: "instant \<Rightarrow> string option \<Rightarrow> adminState \<Rightarrow> reply \<times> adminState" where
  "adminSession now cookie st =
     (let (auth, st1) = validAdminSession now cookie st
      in (SessionInfo auth (auth \<and> mustChangePassword st1), st1))"

text \<open>\<open>body\<close> is the decoded pair of current and new password.\<close>

definition adminChangePassword ::
    "string \<Rightarrow> instant \<Rightarrow> string option \<Rightarrow> (string \<times> string) option \<Rightarrow> string save_outcome
      \<Rightarrow> adminState \<Rightarrow> reply \<times> adminState" where
  "adminChangePassword meth now cookie body out st =
     (if meth \<noteq> ''POST'' then (Failed 405 ''invalid_request_error'', st)
      else let (auth, st1) = validAdminSession now cookie st in
        if \<not> auth then (Failed 401 ''auth_error'', st1)
        else case body of
            None \<Rightarrow> (Failed 400 ''invalid_request_error'', st1)
          | Some (current, new) \<Rightarrow>
              if current \<noteq> adminPassword st1 then (Failed 401 ''auth_error'', st1)
              else if validNewAdminPassword new \<noteq> Inr () then (Failed 400 ''invalid_request_error'', st1)
              else let (saved, st2) = saveAdminPassword new out st1 in
                if \<not> saved then (Failed 500 ''storage_error'', st2)
                else (PasswordChanged,
                  st2\<lparr>adminPassword := new, mustChangePassword := False, adminSessions := []\<rparr>))"

section \<open>The middleware\<close>

text \<open>A request as the middleware sees it\<close>

record request =
  rq_Path :: string
  rq_XAPIKey :: string
  rq_Authorization :: string
  rq_Cookie :: "string option"

datatype verdict = Forward | Reject int string

definition open_path :: "string \<Rightarrow> bool" where
  "open_path p \<longleftrightarrow> p \<in> {''/api/admin/login'', ''/api/admin/session'', ''/api/admin/change-password'',
     ''/api/admin/logout'', ''/''}"

definition adminMiddleware ::
    "golib \<Rightarrow> instant \<Rightarrow> key_save \<Rightarrow> request \<Rightarrow> adminState \<Rightarrow> verdict \<times> adminState" where
  "adminMiddleware L now out r st =
     (if open_path (rq_Path r) then (Forward, st)
      else if has_prefix (rq_Path r) ''/v1/'' then
        (let (ok, ks) = validAPIKey L (rq_XAPIKey r) (rq_Authorization r) now out (apiKeys st);
             st1 = st\<lparr>apiKeys := ks\<rparr>
         in if \<not> ok then (Reject 401 ''auth_error'', st1) else (Forward, st1))
      else if adminPassword st = [] then (Reject 503 ''configuration_error'', st)
      else let (auth, st1) = validAdminSession now (rq_Cookie r) st in
        if \<not> auth then (Reject 401 ''auth_error'', st1)
        else if mustChangePassword st1 \<and> rq_Path r \<noteq> ''/api/admin/change-password''
            \<and> rq_Path r \<noteq> ''/api/admin/logout''
          then (Reject 403 ''password_change_required'', st1)
        else (Forward, st1))"

section \<open>The limiter seen from one address\<close>

definition lock_time :: duration where
  "lock_time = 15 * minute"

lemma lock_time_pos: "0 < lock_time" "lock_time < max_duration"
  by (simp_all add: lock_time_def time_defs)

lemma window_over_iff:
  "window_over a now \<longleftrightarrow> WindowStart a = 0 \<or> now - WindowStart a > lock_time"
  using time_sub_gt [of lock_time now "WindowStart a"] lock_time_pos
  by (simp add: window_over_def lock_time_def zero_time_def)

text \<open>Guesses an address gets compared with the password, one after another.\<close>

fun guess_run :: "loginAttempt \<Rightarrow> instant list \<Rightarrow> bool" where
  "guess_run a [] = True"
| "guess_run a (t # ts) = (\<not> t < LockedUntil a \<and> guess_run (count_failure_at a t) ts)"

definition attempt_ok :: "loginAttempt \<Rightarrow> bool" where
  "attempt_ok a \<longleftrightarrow> 0 \<le> WindowStart a \<and> 0 \<le> Failures a"

lemma count_failure_fields:
  "WindowStart (count_failure_at a t) = (if window_over a t then t else WindowStart a)"
  "Failures (count_failure_at a t) = (if window_over a t then 1 else Failures a + 1)"
  "Failures (count_failure_at a t) \<ge> 5 \<Longrightarrow> LockedUntil (count_failure_at a t) = t + lock_time"
  by (auto simp: count_failure_at_def zero_attempt_def lock_time_def Let_def split: if_splits)

lemma count_failure_ok: "attempt_ok a \<Longrightarrow> 0 < t \<Longrightarrow> attempt_ok (count_failure_at a t)
    \<and> 0 < WindowStart (count_failure_at a t) \<and> 1 \<le> Failures (count_failure_at a t)"
  by (auto simp: attempt_ok_def count_failure_fields window_over_iff)

lemma guess_run_app:
  "guess_run a (ts @ us) \<longleftrightarrow> guess_run a ts \<and> guess_run (foldl count_failure_at a ts) us"
  by (induction ts arbitrary: a) auto

lemma sorted_last: "sorted (t # ts) \<Longrightarrow> t \<le> last (t # ts)"
  by (cases ts rule: rev_cases) auto

lemma sorted_last': "sorted ts \<Longrightarrow> x \<in> set ts \<Longrightarrow> x \<le> last ts"
  by (induction ts) (auto dest: sorted_last split: if_splits)

lemma locked_next:
  assumes "guess_run a ts" and "ts \<noteq> []" and "sorted ts" and "LockedUntil a = t + lock_time"
  shows "t + lock_time \<le> last ts"
proof -
  from assms(1,2,4) have "t + lock_time \<le> hd ts" by (cases ts) auto
  also have "hd ts \<le> last ts" using assms(2,3) by (intro sorted_last') auto
  finally show ?thesis .
qed

lemma window_spans:
  assumes "guess_run a ts" and "sorted ts" and "\<forall>t\<in>set ts. WindowStart a \<le> t"
    and "0 < WindowStart a" and "1 \<le> Failures a" and "Failures a \<le> 4" and "6 \<le> int (length ts) + Failures a"
  shows "WindowStart a + lock_time \<le> last ts"
  using assms
proof (induction ts arbitrary: a)
  case (Cons t ts)
  let ?b = "count_failure_at a t"
  have ne: "ts \<noteq> []" using Cons.prems by auto
  show ?case
  proof (cases "window_over a t")
    case True
    then have "WindowStart a + lock_time < t" using Cons.prems by (simp add: window_over_iff)
    with sorted_last [of t ts] Cons.prems(2) show ?thesis by simp
  next
    case False
    show ?thesis
    proof (cases "Failures ?b \<ge> 5")
      case True
      from locked_next [of ?b ts t] Cons.prems ne count_failure_fields(3) [OF True]
      have "t + lock_time \<le> last ts" by simp
      with Cons.prems ne show ?thesis by auto
    next
      case small: False
      have "WindowStart ?b + lock_time \<le> last ts"
        using Cons.prems False small by (intro Cons.IH) (auto simp: count_failure_fields)
      with False ne show ?thesis by (simp add: count_failure_fields)
    qed
  qed
qed simp

lemma ten_guesses_from:
  assumes "guess_run a ts" and "sorted ts" and "\<forall>t\<in>set ts. t0 \<le> t" and "0 < t0"
    and "0 < WindowStart a" and "1 \<le> Failures a" and "Failures a \<le> 4" and "10 \<le> int (length ts) + Failures a"
  shows "t0 + lock_time \<le> last ts"
  using assms
proof (induction ts arbitrary: a)
  case (Cons t ts)
  let ?b = "count_failure_at a t"
  have ne: "ts \<noteq> []" and t: "t0 \<le> t" using Cons.prems by auto
  show ?case
  proof (cases "window_over a t")
    case True
    have "WindowStart ?b + lock_time \<le> last ts"
      using Cons.prems True by (intro window_spans [of ?b]) (auto simp: count_failure_fields)
    with True t ne show ?thesis by (simp add: count_failure_fields)
  next
    case False
    show ?thesis
    proof (cases "Failures ?b \<ge> 5")
      case True
      from locked_next [of ?b ts t] Cons.prems ne count_failure_fields(3) [OF True]
      have "t + lock_time \<le> last ts" by simp
      with t ne show ?thesis by simp
    next
      case small: False
      have "t0 + lock_time \<le> last ts"
        using Cons.prems False small by (intro Cons.IH [of ?b]) (auto simp: count_failure_fields)
      with ne show ?thesis by simp
    qed
  qed
qed simp

lemma ten_guesses_span:
  assumes "guess_run a (t0 # ts)" and "attempt_ok a" and "0 < t0" and "sorted (t0 # ts)" and "9 \<le> length ts"
  shows "t0 + lock_time \<le> last ts"
proof -
  let ?b = "count_failure_at a t0"
  from assms have run: "guess_run ?b ts" and s: "sorted ts" and ge: "\<forall>t\<in>set ts. t0 \<le> t" and ne: "ts \<noteq> []"
    by auto
  from count_failure_ok [OF assms(2,3)] have b: "0 < WindowStart ?b" "1 \<le> Failures ?b" by simp_all
  show ?thesis
  proof (cases "Failures ?b \<ge> 5")
    case True
    from locked_next [OF run ne s count_failure_fields(3) [OF True]] show ?thesis .
  next
    case False
    with b assms(5) show ?thesis by (intro ten_guesses_from [OF run s ge assms(3)]) auto
  qed
qed

section \<open>Runs of login requests\<close>

text \<open>A login request with the address it comes from, the time it is handled at and its body.\<close>

type_synonym guess = "string \<times> instant \<times> string option"

definition login_at :: "guess \<Rightarrow> adminState \<Rightarrow> reply \<times> adminState" where
  "login_at g st = (case g of (ip, t, body) \<Rightarrow> adminLogin ''POST'' ip t t body None t st)"

text \<open>The times at which the guesses of \<open>ip\<close> are compared with the password.\<close>

fun compared :: "string \<Rightarrow> guess list \<Rightarrow> adminState \<Rightarrow> instant list" where
  "compared ip [] st = []"
| "compared ip (g # gs) st =
     (let (r, st1) = login_at g st
      in (if fst g = ip \<and> r = Failed 401 ''auth_error'' then [fst (snd g)] else []) @ compared ip gs st1)"

definition wrong_body :: "string \<Rightarrow> string option \<Rightarrow> bool" where
  "wrong_body pw body \<longleftrightarrow> (case body of None \<Rightarrow> True | Some p \<Rightarrow> p = [] \<or> p \<noteq> pw)"

text \<open>The attempts table, with room for every address that may call.\<close>

definition table_room :: "string set \<Rightarrow> adminState \<Rightarrow> bool" where
  "table_room ips st \<longleftrightarrow> distinct (map fst (loginAttempts st)) \<and> fst ` set (loginAttempts st) \<subseteq> ips
     \<and> finite ips \<and> card ips \<le> maxLoginAttemptEntries"

lemma table_room_not_full:
  assumes "table_room ips st" and "ip \<in> ips"
  shows "\<not> (map_of (loginAttempts st) ip = None \<and> maxLoginAttemptEntries \<le> length (loginAttempts st))"
proof
  assume full: "map_of (loginAttempts st) ip = None \<and> maxLoginAttemptEntries \<le> length (loginAttempts st)"
  let ?K = "fst ` set (loginAttempts st)"
  have "ip \<notin> ?K" using full by (simp add: map_of_eq_None_iff)
  then have "?K \<subset> ips" using assms by (auto simp: table_room_def)
  then have "card ?K < card ips" using assms(1) by (intro psubset_card_mono) (simp add: table_room_def)
  moreover have "card ?K = length (loginAttempts st)"
    using assms(1) distinct_card [of "map fst (loginAttempts st)"] by (simp add: table_room_def)
  ultimately show False using full assms(1) by (simp add: table_room_def)
qed

lemma recordLoginFailure_room:
  assumes "table_room ips st" and "ip \<in> ips"
  shows "recordLoginFailure ip now st =
    st\<lparr>loginAttempts := AList.update ip (count_failure_at (attempt_of st ip) now) (loginAttempts st)\<rparr>"
  using table_room_not_full [OF assms] by (auto simp: recordLoginFailure_def Let_def)

lemma table_room_update:
  "table_room ips st \<Longrightarrow> ip \<in> ips \<Longrightarrow> table_room ips (st\<lparr>loginAttempts := AList.update ip a (loginAttempts st)\<rparr>)"
  using dom_update [of ip a "loginAttempts st"]
  by (auto simp: table_room_def distinct_update dom_map_of_conv_image_fst [symmetric] update_conv')

lemma table_room_delete:
  "table_room ips st \<Longrightarrow> table_room ips (st\<lparr>loginAttempts := AList.delete ip (loginAttempts st)\<rparr>)"
  using dom_delete_subset [of ip "loginAttempts st"] distinct_delete [of "loginAttempts st" ip]
  by (auto simp: table_room_def)

lemma attempt_of_simps:
  "attempt_of (st\<lparr>loginAttempts := AList.update ip a (loginAttempts st)\<rparr>) ip' =
     (if ip' = ip then a else attempt_of st ip')"
  "attempt_of (st\<lparr>loginAttempts := AList.delete ip (loginAttempts st)\<rparr>) ip' =
     (if ip' = ip then zero_attempt else attempt_of st ip')"
  by (simp_all add: attempt_of_def update_conv' delete_conv')

lemma count_failure_reset: "window_over a t \<Longrightarrow> count_failure_at zero_attempt t = count_failure_at a t"
  by (simp add: count_failure_at_def window_over_def zero_attempt_def)

lemma login_at_wrong:
  assumes room: "table_room ips st" "ip \<in> ips" and wrong: "wrong_body (adminPassword st) body"
  obtains (refused) w where "t < LockedUntil (attempt_of st ip)" "login_at (ip, t, body) st = (TooMany w, st)"
    | (counted) st' where "\<not> t < LockedUntil (attempt_of st ip)"
      "login_at (ip, t, body) st = (Failed 401 ''auth_error'', st')" "table_room ips st'"
      "adminPassword st' = adminPassword st"
      "\<And>ip'. attempt_of st' ip' =
         (if ip' = ip then count_failure_at (attempt_of st ip) t else attempt_of st ip')"
proof (cases "t < LockedUntil (attempt_of st ip)")
  case True
  then show ?thesis
    by (intro refused) (simp_all add: login_at_def adminLogin_def login_check_def loginAllowed_def Let_def)
next
  case False
  define st1 where "st1 = (if window_over (attempt_of st ip) t
    then st\<lparr>loginAttempts := AList.delete ip (loginAttempts st)\<rparr> else st)"
  have room1: "table_room ips st1" using room by (simp add: st1_def table_room_delete)
  have pw: "adminPassword st1 = adminPassword st" by (simp add: st1_def)
  define st' where "st' = recordLoginFailure ip t st1"
  have st': "st' = st1\<lparr>loginAttempts :=
      AList.update ip (count_failure_at (attempt_of st1 ip) t) (loginAttempts st1)\<rparr>"
    unfolding st'_def by (rule recordLoginFailure_room [OF room1 room(2)])
  have chk: "login_check ip t t st = (None, st1)"
    using False by (simp add: login_check_def loginAllowed_def st1_def Let_def)
  have "body = None \<or> body = Some [] \<or> body \<noteq> Some (adminPassword st1)"
    using wrong pw by (auto simp: wrong_body_def split: option.splits)
  then have fin: "login_finish ip t body None t st1 = (Failed 401 ''auth_error'', st')"
    by (simp add: login_finish_def st'_def)
  show ?thesis
  proof (rule counted [OF False])
    show "login_at (ip, t, body) st = (Failed 401 ''auth_error'', st')"
      by (simp add: login_at_def adminLogin_def chk fin)
    show "table_room ips st'" unfolding st' by (rule table_room_update [OF room1 room(2)])
    show "adminPassword st' = adminPassword st" by (simp add: st' pw)
    have "count_failure_at (attempt_of st1 ip) t = count_failure_at (attempt_of st ip) t"
      by (simp add: st1_def attempt_of_simps count_failure_reset)
    then show "attempt_of st' ip' =
        (if ip' = ip then count_failure_at (attempt_of st ip) t else attempt_of st ip')" for ip'
      by (simp add: st' attempt_of_simps) (simp add: st1_def attempt_of_simps)
  qed
qed

lemma compared_run:
  assumes "table_room ips st" and "fst ` set gs \<subseteq> ips"
    and "\<forall>g\<in>set gs. wrong_body (adminPassword st) (snd (snd g))"
  shows "guess_run (attempt_of st ip) (compared ip gs st) \<and> subseq (compared ip gs st) (map (\<lambda>g. fst (snd g)) gs)"
  using assms
proof (induction gs arbitrary: st)
  case (Cons g gs)
  obtain a t body where g: "g = (a, t, body)" by (metis prod.exhaust)
  from Cons.prems have "a \<in> ips" "wrong_body (adminPassword st) body" by (auto simp: g)
  with Cons.prems(1) show ?case
  proof (cases rule: login_at_wrong [of ips st a body t])
    case (refused w)
    with Cons show ?thesis by (auto simp: g)
  next
    case (counted st')
    from Cons.IH [of st'] Cons.prems counted have
      "guess_run (attempt_of st' ip) (compared ip gs st') \<and> subseq (compared ip gs st') (map (\<lambda>g. fst (snd g)) gs)"
      by simp
    with counted show ?thesis by (auto simp: g)
  qed
qed simp

section \<open>Where a session comes from\<close>

datatype admin_event =
    Login string instant instant "string option" "string option" instant
  | Logout "string option"
  | Session instant "string option"
  | ChangePassword instant "string option" "(string \<times> string) option" "string save_outcome"
  | Guarded golib instant key_save request

fun admin_exec :: "admin_event \<Rightarrow> adminState \<Rightarrow> adminState" where
  "admin_exec (Login ip now later body rnd issued) st = snd (adminLogin ''POST'' ip now later body rnd issued st)"
| "admin_exec (Logout cookie) st = snd (adminLogout cookie st)"
| "admin_exec (Session now cookie) st = snd (adminSession now cookie st)"
| "admin_exec (ChangePassword now cookie body out) st = snd (adminChangePassword ''POST'' now cookie body out st)"
| "admin_exec (Guarded L now out r) st = snd (adminMiddleware L now out r st)"

definition admin_run :: "admin_event list \<Rightarrow> adminState \<Rightarrow> adminState" where
  "admin_run evs st = fold admin_exec evs st"

lemma admin_run_snoc: "admin_run (evs @ [ev]) st = admin_exec ev (admin_run evs st)"
  by (simp add: admin_run_def)

definition changes_password :: "admin_event \<Rightarrow> adminState \<Rightarrow> bool" where
  "changes_password ev st = (case ev of
      ChangePassword now cookie body out \<Rightarrow> fst (adminChangePassword ''POST'' now cookie body out st) = PasswordChanged
    | _ \<Rightarrow> False)"

text \<open>
  \<open>granted s0 evs c e\<close>: in the run \<open>evs\<close> from \<open>s0\<close> a login whose address was not locked out gave
  the administrator's password and was issued the session \<open>c\<close> until \<open>e\<close>, 24 hours later; since
  then nobody has logged out with \<open>c\<close> and the password has not been changed.
\<close>

inductive granted :: "adminState \<Rightarrow> admin_event list \<Rightarrow> string \<Rightarrow> instant \<Rightarrow> bool" for s0 where
  login: "body = Some (adminPassword (admin_run evs s0)) \<Longrightarrow>
     \<not> now < LockedUntil (attempt_of (admin_run evs s0) ip) \<Longrightarrow>
     granted s0 (evs @ [Login ip now later body (Some c) issued]) c (issued + 24 * hour)"
| kept: "granted s0 evs c e \<Longrightarrow> ev \<noteq> Logout (Some c) \<Longrightarrow> \<not> changes_password ev (admin_run evs s0) \<Longrightarrow>
     granted s0 (evs @ [ev]) c e"

lemma map_of_delete_Some: "map_of (AList.delete k m) c = Some e \<Longrightarrow> map_of m c = Some e \<and> c \<noteq> k"
  by (auto simp: delete_conv' split: if_splits)

lemma validAdminSession_sessions:
  "map_of (adminSessions (snd (validAdminSession now cookie st))) c = Some e \<Longrightarrow>
    map_of (adminSessions st) c = Some e"
  by (auto simp: validAdminSession_def dest: map_of_delete_Some split: option.splits if_splits)

lemma limiter_keeps [simp]:
  "adminSessions (recordLoginFailure ip now st) = adminSessions st"
  "adminSessions (clearLoginFailures ip st) = adminSessions st"
  "adminSessions (snd (loginAllowed ip now later st)) = adminSessions st"
  "adminPassword (snd (loginAllowed ip now later st)) = adminPassword st"
  by (simp_all add: recordLoginFailure_def clearLoginFailures_def loginAllowed_def Let_def)

lemma login_sessions:
  assumes "map_of (adminSessions (snd (adminLogin meth ip now later body rnd issued st))) c = Some e"
  shows "map_of (adminSessions st) c = Some e \<or>
    (body = Some (adminPassword st) \<and> \<not> now < LockedUntil (attempt_of st ip) \<and> rnd = Some c
      \<and> e = issued + 24 * hour)"
proof -
  obtain ok wait st1 where al: "loginAllowed ip now later st = ((ok, wait), st1)" by (metis prod.exhaust)
  have keep: "adminSessions st1 = adminSessions st" "adminPassword st1 = adminPassword st"
    using al limiter_keeps(3,4) [of ip now later st] by simp_all
  have ok: "ok \<Longrightarrow> \<not> now < LockedUntil (attempt_of st ip)"
    using al by (auto simp: loginAllowed_def Let_def split: if_splits)
  show ?thesis
  proof (cases "meth = ''POST'' \<and> ok")
    case False
    with assms al keep show ?thesis by (auto simp: adminLogin_def login_check_def split: if_splits)
  next
    case True
    with assms al have
      "map_of (adminSessions (snd (login_finish ip now body rnd issued st1))) c = Some e"
      by (simp add: adminLogin_def login_check_def)
    with True ok keep show ?thesis
      by (auto simp: login_finish_def Let_def update_conv' split: option.splits if_splits)
  qed
qed

lemma change_sessions:
  assumes "map_of (adminSessions (snd (adminChangePassword meth now cookie body out st))) c = Some e"
  shows "map_of (adminSessions st) c = Some e
    \<and> fst (adminChangePassword meth now cookie body out st) \<noteq> PasswordChanged"
proof -
  obtain auth st1 where v: "validAdminSession now cookie st = (auth, st1)" by fastforce
  have "map_of (adminSessions st1) c = Some e \<Longrightarrow> map_of (adminSessions st) c = Some e"
    using validAdminSession_sessions [of now cookie st c e] v by simp
  with assms v show ?thesis
    by (auto simp: adminChangePassword_def saveAdminPassword_def Let_def split: option.splits if_splits)
qed

lemma guarded_sessions:
  assumes "map_of (adminSessions (snd (adminMiddleware L now out r st))) c = Some e"
  shows "map_of (adminSessions st) c = Some e"
proof -
  obtain auth st1 where v: "validAdminSession now (rq_Cookie r) st = (auth, st1)" by fastforce
  have "map_of (adminSessions st1) c = Some e \<Longrightarrow> map_of (adminSessions st) c = Some e"
    using validAdminSession_sessions [of now "rq_Cookie r" st c e] v by simp
  with assms v show ?thesis
    by (auto simp: adminMiddleware_def Let_def split: if_splits prod.splits)
qed

lemma sessions_granted:
  assumes "adminSessions s0 = []"
  shows "map_of (adminSessions (admin_run evs s0)) c = Some e \<Longrightarrow> granted s0 evs c e"
proof (induction evs rule: rev_induct)
  case Nil
  with assms show ?case by (simp add: admin_run_def)
next
  case (snoc ev evs)
  let ?st = "admin_run evs s0"
  have now: "map_of (adminSessions (admin_exec ev ?st)) c = Some e"
    using snoc.prems by (simp add: admin_run_snoc)
  consider (old) "map_of (adminSessions ?st) c = Some e" "ev \<noteq> Logout (Some c)" "\<not> changes_password ev ?st"
    | (new) ip t later issued where
      "ev = Login ip t later (Some (adminPassword ?st)) (Some c) issued" "e = issued + 24 * hour"
      "\<not> t < LockedUntil (attempt_of ?st ip)"
  proof (cases ev)
    case (Login ip t later body rnd issued)
    from now Login have "map_of (adminSessions (snd (adminLogin ''POST'' ip t later body rnd issued ?st))) c = Some e"
      by simp
    from login_sessions [OF this] show ?thesis
    proof
      assume "map_of (adminSessions ?st) c = Some e"
      then show ?thesis by (rule that(1)) (simp_all add: Login changes_password_def)
    next
      assume "body = Some (adminPassword ?st) \<and> \<not> t < LockedUntil (attempt_of ?st ip) \<and> rnd = Some c
        \<and> e = issued + 24 * hour"
      then show ?thesis using Login by (intro that(2) [of ip t later issued]) simp_all
    qed
  next
    case (Logout cookie)
    with now have "map_of (adminSessions ?st) c = Some e" "cookie \<noteq> Some c"
      by (auto simp: adminLogout_def dest: map_of_delete_Some split: option.splits)
    then show ?thesis using Logout by (intro that(1)) (simp_all add: changes_password_def)
  next
    case (Session t cookie)
    with now have "map_of (adminSessions (snd (validAdminSession t cookie ?st))) c = Some e"
      by (simp add: adminSession_def Let_def split: prod.splits)
    from validAdminSession_sessions [OF this] show ?thesis
      by (rule that(1)) (simp_all add: Session changes_password_def)
  next
    case (ChangePassword t cookie body out)
    with now have "map_of (adminSessions (snd (adminChangePassword ''POST'' t cookie body out ?st))) c = Some e"
      by simp
    from change_sessions [OF this] ChangePassword show ?thesis
      by (intro that(1)) (simp_all add: changes_password_def)
  next
    case (Guarded L t out r)
    with now have "map_of (adminSessions (snd (adminMiddleware L t out r ?st))) c = Some e" by simp
    from guarded_sessions [OF this] show ?thesis
      by (rule that(1)) (simp_all add: Guarded changes_password_def)
  qed
  then show ?case
  proof cases
    case old
    with snoc.IH show ?thesis by (blast intro: kept)
  next
    case new
    then show ?thesis by (auto intro: login)
  qed
qed

section \<open>Properties\<close>

lemma foldl_attempt_ok:
  "attempt_ok a \<Longrightarrow> \<forall>t\<in>set ts. 0 < t \<Longrightarrow> attempt_ok (foldl count_failure_at a ts)"
  by (induction ts arbitrary: a) (simp_all add: count_failure_ok)

lemma ten_of_a_run:
  assumes "guess_run a E" and "attempt_ok a" and "sorted E" and "\<forall>t\<in>set E. 0 < t" and "i + 9 < length E"
  shows "E ! i + lock_time \<le> E ! (i + 9)"
proof -
  let ?ts = "take 9 (drop (Suc i) E)"
  have E: "E = (take i E @ E ! i # ?ts) @ drop 9 (drop (Suc i) E)"
    using assms(5) id_take_nth_drop [of i E] append_take_drop_id [of 9 "drop (Suc i) E"]
    by (metis append.assoc append_Cons add_lessD1)
  with assms(1) have run: "guess_run a (take i E @ E ! i # ?ts)" by (metis guess_run_app)
  have "sorted (take i E @ E ! i # ?ts)" using assms(3) E by (metis sorted_append)
  then have s: "sorted (E ! i # ?ts)" by (simp only: sorted_append)
  have ok: "attempt_ok (foldl count_failure_at a (take i E))"
    using assms(2,4) by (intro foldl_attempt_ok) (auto dest: in_set_takeD)
  have "E ! i + lock_time \<le> last ?ts"
    using run assms(4,5) ok s by (intro ten_guesses_span) (simp_all add: guess_run_app)
  also have "last ?ts = E ! (i + 9)" using assms(5) by (simp add: last_conv_nth add.commute)
  finally show ?thesis .
qed


text \<open>
  guesses in flight escape the limiter: whatever number of wrong guesses finishes after a
  request has passed the limiter's check, a right guess that passed that check is accepted.
\<close>
theorem concurrent_guesses_escape_the_limiter:
  assumes "login_check ip now later st = (None, st1)" and "adminPassword st \<noteq> []"
    and "\<forall>b\<in>set bodies. wrong_body (adminPassword st) b"
  shows "fst (login_finish ip now (Some (adminPassword st)) (Some token) issued
      (foldl (\<lambda>s b. snd (login_finish ip now b rnd issued s)) st1 bodies))
    = Authenticated token (mustChangePassword st)"
proof -
  have "adminPassword st1 = adminPassword st \<and> mustChangePassword st1 = mustChangePassword st"
    using assms(1) by (auto simp: login_check_def loginAllowed_def Let_def split: if_splits)
  moreover have "adminPassword (foldl (\<lambda>s b. snd (login_finish ip now b rnd issued s)) s bodies) = adminPassword s
      \<and> mustChangePassword (foldl (\<lambda>s b. snd (login_finish ip now b rnd issued s)) s bodies) = mustChangePassword s"
    if "\<forall>b\<in>set bodies. wrong_body (adminPassword s) b" for s
    using that
  proof (induction bodies arbitrary: s)
    case (Cons b bodies)
    then have "snd (login_finish ip now b rnd issued s) = recordLoginFailure ip now s"
      by (auto simp: login_finish_def wrong_body_def Let_def split: option.splits)
    moreover have "adminPassword (recordLoginFailure ip now s) = adminPassword s
        \<and> mustChangePassword (recordLoginFailure ip now s) = mustChangePassword s"
      by (simp add: recordLoginFailure_def Let_def)
    ultimately show ?case using Cons by simp
  qed simp
  ultimately show ?thesis using assms(2,3) by (simp add: login_finish_def Let_def)
qed

text \<open>
  C15: a session is accepted only if it was issued at most 24 hours ago to a login that gave the
  administrator's password from an address that was not locked out, and since then nobody has
  logged out with it and the password has not been changed.
\<close>
theorem accepted_session_was_granted:
  assumes "adminSessions s0 = []" and "fst (validAdminSession now (Some c) (admin_run evs s0))"
  shows "\<exists>e. granted s0 evs c e \<and> now \<le> e"
proof -
  obtain e where "map_of (adminSessions (admin_run evs s0)) c = Some e" "now \<le> e"
    using assms(2) by (auto simp: validAdminSession_def split: option.splits if_splits)
  with sessions_granted [OF assms(1)] show ?thesis by blast
qed

text \<open>
  the middleware lets a request through exactly when its path is one of the five open ones,
  or it is an API path and the request presents a key in force, or it carries a valid
  administrator session while the password is configured and need not be changed.
\<close>
theorem middleware_forwards_iff:
  "fst (adminMiddleware L now out r st) = Forward \<longleftrightarrow>
     open_path (rq_Path r)
     \<or> (has_prefix (rq_Path r) ''/v1/''
        \<and> presented_key (rq_XAPIKey r) (rq_Authorization r) \<noteq> []
        \<and> keyHash L (presented_key (rq_XAPIKey r) (rq_Authorization r)) \<in> snd ` set (active (apiKeys st)))
     \<or> (\<not> has_prefix (rq_Path r) ''/v1/'' \<and> adminPassword st \<noteq> [] \<and> \<not> mustChangePassword st
        \<and> fst (validAdminSession now (rq_Cookie r) st))"
proof -
  have must: "mustChangePassword (snd (validAdminSession now c st)) = mustChangePassword st" for c
    by (simp add: validAdminSession_def split: option.split)
  have key: "fst (validAPIKey L x a now out s) \<longleftrightarrow>
      presented_key x a \<noteq> [] \<and> keyHash L (presented_key x a) \<in> snd ` set (active s)" for x a s
    by (simp add: validAPIKey_def Let_def valid_result)
  show ?thesis
    using must [of "rq_Cookie r"] key [of "rq_XAPIKey r" "rq_Authorization r" "apiKeys st"]
    by (auto simp: adminMiddleware_def open_path_def Let_def split: prod.splits if_splits)
qed

text \<open>
  after an accepted change of the password, a restart finds the new password stripped of
  surrounding white space, and falls back to the bootstrap sources, in the end to
  \<open>admin123\<close>, when nothing but white space was chosen.
\<close>
theorem password_after_restart:
  assumes "adminChangePassword meth now cookie (Some (current, new)) out st = (PasswordChanged, st')"
  shows "adminPassword st' = new
    \<and> adminPassword (start_admin (password_file st') bootstrap env keys) =
      (if trim_space new \<noteq> [] then trim_space new else fst (loadAdminPassword [] bootstrap env))"
proof -
  have "adminPassword st' = new \<and> password_file st' = new @ [CHR 0x0A]"
    using assms
    by (auto simp: adminChangePassword_def saveAdminPassword_def Let_def written_ok
        split: if_splits prod.splits)
  then show ?thesis by (simp add: start_admin_def loadAdminPassword_def split_beta)
qed

text \<open>
  the address the limiter works with cannot be chosen by the client: a peer that is not the
  local proxy is known by its own address whatever \<open>X-Forwarded-For\<close> says, and behind the local
  proxy the last entry, which that proxy appended, counts, whatever stands before it.
\<close>
theorem clientIP_not_spoofable:
  assumes "CHR '','' \<notin> set appended" and "parse_ip I (trim_space appended) = Some ip"
  shows "clientIP I addr (forged @ CHR '','' # appended) =
      (if loopback I (split_host addr) then ip
       else if split_host addr \<noteq> [] then split_host addr else addr)"
proof -
  have "last_valid_ip I (parts @ [appended]) = Some ip" for parts
    using assms(2) by (induction parts) simp_all
  then show ?thesis by (simp add: clientIP_def str_split_app [OF assms(1)] Let_def)
qed

section \<open>Witnesses\<close>

definition fresh_admin :: adminState where
  "fresh_admin = \<lparr>adminPassword = ''correct horse'', mustChangePassword = False, adminSessions = [],
     loginAttempts = [], password_file = [], apiKeys = openAPIKeys []\<rparr>"

definition guesses :: "guess list" where
  "guesses = map (\<lambda>t. (''10.0.0.9'', t, None))
     [1, 2, 3, 4, 5, 900000000006, 900000000007, 900000000008, 900000000009, 900000000010]"

lemma guesses_compared: "compared ''10.0.0.9'' guesses fresh_admin =
    [1, 2, 3, 4, 5, 900000000006, 900000000007, 900000000008, 900000000009, 900000000010]"
  by code_simp


theorem concurrent_guesses_escape_the_limiter_witness:
  "fst (login_finish ''ip'' 7 (Some ''correct horse'') (Some ''tok'') 8
      (foldl (\<lambda>s b. snd (login_finish ''ip'' 7 b None 8 s)) fresh_admin (replicate 100 (Some ''guess''))))
    = Authenticated ''tok'' False"
proof -
  have "login_check ''ip'' 7 7 fresh_admin = (None, fresh_admin)" by code_simp
  from concurrent_guesses_escape_the_limiter [OF this, of "replicate 100 (Some ''guess'')" "''tok''" 8 None]
  show ?thesis by (simp add: fresh_admin_def wrong_body_def)
qed

definition one_login :: "admin_event list" where
  "one_login = [Login ''10.0.0.9'' 5 5 (Some ''correct horse'') (Some ''tok'') 6]"

lemma one_login_valid: "fst (validAdminSession 10 (Some ''tok'') (admin_run one_login fresh_admin))"
  by code_simp

theorem accepted_session_was_granted_witness:
  "\<exists>e. granted fresh_admin one_login ''tok'' e \<and> 10 \<le> e"
proof -
  have "adminSessions fresh_admin = []" by (simp add: fresh_admin_def)
  from accepted_session_was_granted [OF this one_login_valid] show ?thesis .
qed

lemma blank_password_change:
  "fst (adminChangePassword ''POST'' 10 (Some ''tok'') (Some (''correct horse'', replicate 12 (CHR '' ''))) Saved
     (admin_run one_login fresh_admin)) = PasswordChanged"
  by code_simp

lemma blanks_trimmed: "trim_space (replicate 12 (CHR '' '')) = []" "fst (loadAdminPassword [] [] []) = ''admin123''"
  by code_simp+

theorem password_after_restart_witness:
  "adminPassword (start_admin (password_file (snd (adminChangePassword ''POST'' 10 (Some ''tok'')
      (Some (''correct horse'', replicate 12 (CHR '' ''))) Saved (admin_run one_login fresh_admin)))) [] [] [])
    = ''admin123''"
proof -
  let ?r = "adminChangePassword ''POST'' 10 (Some ''tok'')
      (Some (''correct horse'', replicate 12 (CHR '' ''))) Saved (admin_run one_login fresh_admin)"
  have "?r = (PasswordChanged, snd ?r)" using blank_password_change by (metis prod.collapse)
  from password_after_restart [OF this, of "[]" "[]" "[]"] show ?thesis by (simp only: blanks_trimmed) simp
qed

definition local_proxy :: iplib where
  "local_proxy = \<lparr>parse_ip = (\<lambda>s. if s = [] then None else Some s), loopback = (\<lambda>s. s = ''127.0.0.1'')\<rparr>"

theorem clientIP_not_spoofable_witness:
  "clientIP local_proxy ''127.0.0.1:5000'' ''1.2.3.4, 10.0.0.9'' = ''10.0.0.9''"
proof -
  have "trim_space '' 10.0.0.9'' = ''10.0.0.9''" by code_simp
  then have "parse_ip local_proxy (trim_space '' 10.0.0.9'') = Some ''10.0.0.9''"
    by (simp add: local_proxy_def)
  moreover have "split_host ''127.0.0.1:5000'' = ''127.0.0.1''" by code_simp
  ultimately show ?thesis
    using clientIP_not_spoofable [of "'' 10.0.0.9''" local_proxy "''10.0.0.9''" "''127.0.0.1:5000''" "''1.2.3.4''"]
    by (simp add: local_proxy_def)
qed

end
