(* ===== verification/Console.thy ===== *)
theory Console
  imports AdminSecurity AuthStore ModelCatalog OutboundPool
begin

text \<open>
  The routes of the gateway and the endpoints that only show or change one of its stores
  (src/internal/web/server.go, security_http.go, version.go): which handler a request reaches behind
  the middleware, the pages of keys and accounts, health and version, the list of models, the start
  page and the headers of every answer.

  Replies are the JSON that is written; \<open>time_json\<close> is the form of an instant in it, \<open>error_text\<close> the
  text of an error.
\<close>

section \<open>Routes\<close>

datatype handler =
    LoginHandler | LogoutHandler | SessionHandler | ChangePasswordHandler
  | KeysHandler | SettingsHandler | ProxyPoolHandler
  | DeploymentsHandler | DeploymentHandler | DeploymentCheckHandler
  | DebugListHandler | DebugDetailHandler
  | HealthHandler | VersionHandler | UpdateHandler
  | AccountsHandler | RefreshHandler | DeleteHandler
  | AuthStartHandler | AuthStatusHandler | AuthCallbackHandler
  | ChatHandler | ChatStreamHandler
  | ConversationsHandler | DeleteConversationHandler
  | ModelsHandler | CompletionsHandler | ResponsesHandler | MessagesHandler | ImagesHandler
  | RootHandler

definition routes :: "(string \<times> handler) list" where
  "routes =
    [(''/api/admin/login'', LoginHandler), (''/api/admin/logout'', LogoutHandler),
     (''/api/admin/session'', SessionHandler), (''/api/admin/change-password'', ChangePasswordHandler),
     (''/api/admin/keys'', KeysHandler), (''/api/admin/settings'', SettingsHandler),
     (''/api/admin/proxy-pool'', ProxyPoolHandler), (''/api/admin/deployments'', DeploymentsHandler),
     (''/api/admin/deployment'', DeploymentHandler), (''/api/admin/deployment/check'', DeploymentCheckHandler),
     (''/api/admin/debug/logs'', DebugListHandler), (''/api/admin/debug/detail'', DebugDetailHandler),
     (''/api/health'', HealthHandler), (''/api/version'', VersionHandler), (''/api/update'', UpdateHandler),
     (''/api/accounts'', AccountsHandler), (''/api/accounts/refresh'', RefreshHandler),
     (''/api/accounts/delete'', DeleteHandler), (''/api/auth/start'', AuthStartHandler),
     (''/api/auth/status'', AuthStatusHandler), (''/api/auth/callback'', AuthCallbackHandler),
     (''/api/chat'', ChatHandler), (''/api/chat/stream'', ChatStreamHandler),
     (''/api/conversations'', ConversationsHandler), (''/api/conversations/delete'', DeleteConversationHandler),
     (''/v1/models'', ModelsHandler), (''/v1/chat/completions'', CompletionsHandler),
     (''/v1/responses'', ResponsesHandler), (''/v1/messages'', MessagesHandler),
     (''/v1/images/generations'', ImagesHandler)]"

text \<open>
  The patterns have no trailing slash but the last, which takes every other path (after \<open>ServeMux\<close>
  has redirected those that are not in canonical form).
\<close>

definition handler_for :: "string \<Rightarrow> handler" where
  "handler_for path = (case map_of routes path of Some h \<Rightarrow> h | None \<Rightarrow> RootHandler)"

text \<open>The handler a request reaches, \<open>None\<close> where the middleware refuses it.\<close>

definition dispatch ::
    "golib \<Rightarrow> instant \<Rightarrow> key_save \<Rightarrow> request \<Rightarrow> adminState \<Rightarrow> handler option \<times> adminState" where
  "dispatch L now out r st =
     (case adminMiddleware L now out r st of
        (Forward, st1) \<Rightarrow> (Some (handler_for (rq_Path r)), st1)
      | (Reject _ _, st1) \<Rightarrow> (None, st1))"

section \<open>Headers and the start page\<close>

definition security_policy :: string where
  "security_policy = ''default-src '' @ [CHR 0x27] @ ''self'' @ [CHR 0x27] @ ''; base-uri '' @ [CHR 0x27] @ ''none'' @ [CHR 0x27]
     @ ''; frame-ancestors '' @ [CHR 0x27] @ ''none'' @ [CHR 0x27] @ ''; object-src '' @ [CHR 0x27] @ ''none'' @ [CHR 0x27]
     @ ''; form-action '' @ [CHR 0x27] @ ''self'' @ [CHR 0x27] @ ''; connect-src '' @ [CHR 0x27] @ ''self'' @ [CHR 0x27]
     @ ''; img-src '' @ [CHR 0x27] @ ''self'' @ [CHR 0x27] @ '' data:; style-src '' @ [CHR 0x27] @ ''self'' @ [CHR 0x27]
     @ '' '' @ [CHR 0x27] @ ''unsafe-inline'' @ [CHR 0x27] @ ''; script-src '' @ [CHR 0x27] @ ''self'' @ [CHR 0x27]
     @ '' '' @ [CHR 0x27] @ ''unsafe-inline'' @ [CHR 0x27]"

definition securityHeaders :: "string \<Rightarrow> (string \<times> string) list" where
  "securityHeaders path =
     [(''X-Content-Type-Options'', ''nosniff''), (''X-Frame-Options'', ''DENY''),
      (''Referrer-Policy'', ''no-referrer''),
      (''Permissions-Policy'', ''camera=(), microphone=(), geolocation=(), payment=(), usb=()''),
      (''Content-Security-Policy'', security_policy)]
     @ (if path \<in> {''/'', ''/api/admin/login'', ''/api/admin/session'', ''/api/admin/change-password''}
        then [(''Cache-Control'', ''no-store'')] else [])"

datatype page = NotFoundPage | MethodRefused | Unavailable | Page string

text \<open>\<open>readable\<close> tells whether a file of the interface can be opened.\<close>

definition rootPage ::
    "(string \<Rightarrow> bool) \<Rightarrow> string \<Rightarrow> string \<Rightarrow> instant \<Rightarrow> string option \<Rightarrow> adminState \<Rightarrow> page \<times> adminState" where
  "rootPage readable http_method path now cookie st =
     (if path \<noteq> ''/'' then (NotFoundPage, st)
      else if http_method \<noteq> ''GET'' \<and> http_method \<noteq> ''HEAD'' then (MethodRefused, st)
      else case validAdminSession now cookie st of
        (ok, st1) \<Rightarrow>
          let name = (if ok \<and> \<not> mustChangePassword st1 then ''web/index.html'' else ''web/login.html'')
          in (if readable name then Page name else Unavailable, st1))"

text \<open>The attribute \<open>Secure\<close> of the session cookie.\<close>

definition secureAdminCookie :: "iplib \<Rightarrow> bool \<Rightarrow> string \<Rightarrow> string \<Rightarrow> bool" where
  "secureAdminCookie I tls remote_addr forwarded_proto =
     (tls \<or> loopback I (split_host remote_addr) \<and> equal_fold forwarded_proto ''https'')"

record cookie =
  ck_Value :: string
  ck_HttpOnly :: bool
  ck_Secure :: bool
  ck_SameSite :: string
  ck_MaxAge :: int

text \<open>The cookie that goes with a reply of \<open>adminLogin\<close> or \<open>adminLogout\<close>.\<close>

definition reply_cookie :: "bool \<Rightarrow> reply \<Rightarrow> cookie option" where
  "reply_cookie secure r = (case r of
      Authenticated token _ \<Rightarrow> Some \<lparr>ck_Value = token, ck_HttpOnly = True, ck_Secure = secure,
        ck_SameSite = ''Lax'', ck_MaxAge = 86400\<rparr>
    | LoggedOut \<Rightarrow> Some \<lparr>ck_Value = [], ck_HttpOnly = True, ck_Secure = secure,
        ck_SameSite = ''Lax'', ck_MaxAge = -1\<rparr>
    | _ \<Rightarrow> None)"

section \<open>Keys\<close>

datatype console_reply =
    Json json
  | Plain_error int string
  | Typed_error int string string

definition optional_string :: "string \<Rightarrow> string \<Rightarrow> obj" where
  "optional_string k s = (if s = [] then [] else [(k, JStr s)])"

definition key_json :: "(instant \<Rightarrow> json) \<Rightarrow> apiKeyRecord \<Rightarrow> json" where
  "key_json time_json k = JObj (
     [(''id'', JStr (ak_ID k)), (''name'', JStr (ak_Name k)), (''prefix'', JStr (ak_Prefix k)),
      (''hash'', JStr (ak_Hash k)), (''createdAt'', time_json (ak_CreatedAt k))]
     @ (case ak_LastUsedAt k of None \<Rightarrow> [] | Some t \<Rightarrow> [(''lastUsedAt'', time_json t)])
     @ [(''revoked'', JBool (ak_Revoked k))])"

text \<open>\<open>body\<close>: the field \<open>name\<close> of the decoded body, \<open>None\<close> where it does not decode; \<open>save_error\<close> is the
  text of the error when a key cannot be made or stored.\<close>

definition adminKeys ::
    "golib \<Rightarrow> (instant \<Rightarrow> json) \<Rightarrow> string \<Rightarrow> string \<Rightarrow> string option \<Rightarrow> string \<Rightarrow> string option \<Rightarrow> instant \<Rightarrow> key_save
      \<Rightarrow> apiKeyStore \<Rightarrow> console_reply \<times> apiKeyStore" where
  "adminKeys L time_json save_error http_method body kid rnd now out s =
     (if http_method = ''GET'' then (Json (JObj [(''keys'', JArr (map (key_json time_json) (list_keys s)))]), s)
      else if http_method = ''POST'' then
        (case body of
           None \<Rightarrow> (Plain_error 400 ''bad json'', s)
         | Some name0 \<Rightarrow>
             let name = (if trim_space name0 = [] then ''API key'' else name0)
             in case create L name rnd now out s of
                  (None, s1) \<Rightarrow> (Plain_error 500 save_error, s1)
                | (Some (k, key), s1) \<Rightarrow> (Json (JObj [(''key'', JStr key), (''record'', key_json time_json k)]), s1))
      else if http_method = ''DELETE'' then
        (case revoke kid out s of
           ((revoked, failed), s1) \<Rightarrow>
             if failed then (Plain_error 500 save_error, s1)
             else if \<not> revoked then (Plain_error 404 ''key not found'', s1)
             else (Json (JObj [(''status'', JStr ''revoked'')]), s1))
      else (Plain_error 405 ''method not allowed'', s))"

section \<open>Accounts\<close>

definition account_view :: "(instant \<Rightarrow> json) \<Rightarrow> AccountToken \<Rightarrow> json" where
  "account_view time_json a = JObj (
     [(''id'', JStr (at_ID a)), (''email'', JStr (at_Email a))]
     @ optional_string ''displayName'' (at_DisplayName a) @ [(''status'', JStr (at_Status a))]
     @ optional_string ''oid'' (at_OID a) @ optional_string ''tid'' (at_TID a)
     @ [(''expiresAt'', time_json (at_ExpiresAt a)), (''updatedAt'', time_json (at_UpdatedAt a))])"

definition accounts_page :: "(instant \<Rightarrow> json) \<Rightarrow> string \<Rightarrow> account_store \<Rightarrow> console_reply" where
  "accounts_page time_json http_method s =
     (if http_method \<noteq> ''GET'' then Plain_error 405 ''method not allowed''
      else Json (JObj [(''accounts'', JArr (map (account_view time_json) (accounts s)))]))"

definition refreshed_view :: "(instant \<Rightarrow> json) \<Rightarrow> AccountToken \<Rightarrow> json" where
  "refreshed_view time_json a = JObj [(''status'', JStr ''refreshed''), (''account'', JObj
     [(''id'', JStr (at_ID a)), (''email'', JStr (at_Email a)), (''displayName'', JStr (at_DisplayName a)),
      (''status'', JStr (at_Status a)), (''expiresAt'', time_json (at_ExpiresAt a)),
      (''updatedAt'', time_json (at_UpdatedAt a))])]"

text \<open>\<open>body\<close>: the field \<open>id\<close> of the decoded body.\<close>

definition refreshAccount ::
    "(instant \<Rightarrow> json) \<Rightarrow> (ensure_error \<Rightarrow> string) \<Rightarrow> (string \<Rightarrow> token_error + TokenSet) \<Rightarrow> string \<Rightarrow> string option
      \<Rightarrow> string \<Rightarrow> instant \<Rightarrow> string \<Rightarrow> account_save \<Rightarrow> account_store \<Rightarrow> console_reply \<times> account_store" where
  "refreshAccount time_json error_text refresh http_method body stamp now client out s =
     (if http_method \<noteq> ''POST'' then (Plain_error 405 ''method not allowed'', s)
      else case body of
        None \<Rightarrow> (Plain_error 400 ''bad json'', s)
      | Some i \<Rightarrow>
          if trim_space i = [] then (Plain_error 400 ''bad json'', s)
          else (case EnsureValid refresh (trim_space i) stamp now client out s of
              (Inl e, s1) \<Rightarrow> (Typed_error 502 ''token_refresh_error'' (error_text e), s1)
            | (Inr acc, s1) \<Rightarrow> (Json (refreshed_view time_json acc), s1)))"

definition deleteAccount ::
    "string \<Rightarrow> string \<Rightarrow> string option \<Rightarrow> account_save \<Rightarrow> account_store \<Rightarrow> console_reply \<times> account_store" where
  "deleteAccount save_error http_method body out s =
     (if http_method \<noteq> ''POST'' then (Plain_error 405 ''method not allowed'', s)
      else case body of
        None \<Rightarrow> (Plain_error 400 ''bad json'', s)
      | Some i \<Rightarrow>
          if i = [] then (Plain_error 400 ''bad json'', s)
          else (case Delete i out s of
              (ok, s1) \<Rightarrow> (if ok then Json (JObj [(''status'', JStr ''deleted'')]) else Plain_error 500 save_error, s1)))"

text \<open>\<open>client\<close>, \<open>scope\<close> and \<open>path\<close>: the OAuth client and scope, and the path of the token cache.\<close>

definition health_page :: "string \<Rightarrow> string \<Rightarrow> string \<Rightarrow> account_store \<Rightarrow> json" where
  "health_page client scope path s = JObj
     [(''status'', JStr ''ok''), (''auth'', JArr [JStr ''pkce'']), (''chat'', JStr ''chathub''),
      (''clientId'', JStr client), (''scope'', JStr scope), (''tokenCache'', JStr path),
      (''accountCount'', jint (int (length (accounts s))))]"

section \<open>Version and models\<close>

text \<open>\<open>uptime\<close> in nanoseconds\<close>

definition version_page :: "string \<Rightarrow> string \<Rightarrow> string \<Rightarrow> string \<Rightarrow> duration \<Rightarrow> account_store \<Rightarrow> nat \<Rightarrow> json" where
  "version_page Version Commit BuildTime go uptime s proxies = JObj
     [(''version'', JStr Version), (''commit'', JStr Commit), (''buildTime'', JStr BuildTime), (''go'', JStr go),
      (''uptimeSeconds'', jint (uptime div second)), (''accounts'', jint (int (length (accounts s)))),
      (''proxyPool'', jint (int proxies))]"

definition stable_version :: "string \<Rightarrow> bool" where
  "stable_version Version \<longleftrightarrow> trim_space Version \<noteq> [] \<and> Version \<noteq> ''dev''"

definition update_note :: "bool \<Rightarrow> string" where
  "update_note is_stable =
     (if is_stable then utf8 [0x5F53, 0x524D, 0x4E3A, 0x7A33, 0x5B9A, 0x7248, 0xFF0C, 0x53EF, 0x68C0, 0x67E5, 0x7A33,
        0x5B9A, 0x7248, 0x66F4, 0x65B0]
      else utf8 [0x5F53, 0x524D, 0x4E3A, 0x5F00, 0x53D1, 0x7248, 0xFF0C, 0x4E0D, 0x63A8, 0x8350, 0x66F4, 0x65B0])"

definition update_page :: "string \<Rightarrow> string \<Rightarrow> console_reply" where
  "update_page Version http_method =
     (if http_method \<noteq> ''GET'' then Typed_error 405 ''invalid_request_error'' ''method not allowed''
      else Json (JObj
        [(''current'', JStr Version),
         (''channel'', JStr (if stable_version Version then ''stable'' else ''development'')),
         (''updateAvailable'', JBool False), (''recommendUpdate'', JBool False),
         (''message'', JStr (update_note (stable_version Version)))]))"

definition ReleaseTag :: "string \<Rightarrow> string" where
  "ReleaseTag Version =
     (let v = trim_space Version in if v = [] \<or> v = ''dev'' then [] else ''stable-v'' @ v)"

definition put_field :: "string \<Rightarrow> json \<Rightarrow> obj \<Rightarrow> obj" where
  "put_field k v m = filter (\<lambda>(k', _). k' \<noteq> k) m @ [(k, v)]"

definition openaiModels :: "runtimeSettings \<Rightarrow> int \<Rightarrow> string \<Rightarrow> console_reply" where
  "openaiModels cfg created http_method =
     (if http_method \<noteq> ''GET'' then Plain_error 405 ''method not allowed''
      else let data = JArr (map (\<lambda>m. JObj (put_field ''created'' (jint created) m)) (modelCatalog cfg))
        in Json (JObj [(''object'', JStr ''list''), (''data'', data), (''models'', data)]))"

section \<open>Laws\<close>

definition api_handlers :: "handler set" where
  "api_handlers = {ModelsHandler, CompletionsHandler, ResponsesHandler, MessagesHandler, ImagesHandler}"

definition sign_in_handlers :: "handler set" where
  "sign_in_handlers = {LoginHandler, LogoutHandler, SessionHandler, ChangePasswordHandler}"

lemma routes_by_prefix: "list_all (\<lambda>(p, h). has_prefix p ''/v1/'' = (h \<in> api_handlers)) routes"
  by code_simp

lemma open_routes:
  "open_path p \<Longrightarrow> handler_for p \<in> sign_in_handlers \<or> p = ''/'' \<and> handler_for p = RootHandler"
proof -
  have "handler_for ''/api/admin/login'' = LoginHandler" "handler_for ''/api/admin/session'' = SessionHandler"
    "handler_for ''/api/admin/change-password'' = ChangePasswordHandler" "handler_for ''/api/admin/logout'' = LogoutHandler"
    "handler_for ''/'' = RootHandler"
    by code_simp+
  then show "open_path p \<Longrightarrow> ?thesis" by (auto simp: open_path_def sign_in_handlers_def)
qed

lemma route_prefix: "handler_for p \<noteq> RootHandler \<Longrightarrow> has_prefix p ''/v1/'' \<longleftrightarrow> handler_for p \<in> api_handlers"
proof -
  assume "handler_for p \<noteq> RootHandler"
  then have "(p, handler_for p) \<in> set routes" by (auto simp: handler_for_def dest: map_of_SomeD split: option.splits)
  with routes_by_prefix show ?thesis by (auto simp: list_all_iff)
qed

lemma dispatch_Some:
  "fst (dispatch L now out r st) = Some h \<longleftrightarrow> fst (adminMiddleware L now out r st) = Forward \<and> h = handler_for (rq_Path r)"
  by (auto simp: dispatch_def split: prod.splits verdict.splits)

lemma raw_key_visible: "list_all visible (raw_key b)"
proof -
  have digit: "visible (hex_digit n)" if "n < 16" for n
    using that by (auto simp: hex_digit_def visible_def)
  have "of_char c div 16 < (16 :: nat)" for c :: char
  proof -
    have "of_char c < (256 :: nat)" by simp
    then show ?thesis by (simp add: less_mult_imp_div_less)
  qed
  then have "list_all visible (hex_encode b)"
    by (auto simp: list_all_iff hex_encode_def Let_def intro!: digit)
  moreover have "list_all visible ''m365_''" by code_simp
  ultimately show ?thesis by (simp add: raw_key_def)
qed

lemma raw_key_presented: "presented_key (raw_key b) authorization = raw_key b" "raw_key b \<noteq> []"
proof -
  show ne: "raw_key b \<noteq> []" by (simp add: raw_key_def)
  with raw_key_visible [of b] have "visible (hd (raw_key b))" "visible (last (raw_key b))"
    unfolding list_all_iff by (blast intro: hd_in_set last_in_set)+
  from trim_space_visible [OF ne this] show "presented_key (raw_key b) authorization = raw_key b"
    using ne by (simp add: presented_key_def)
qed

definition without_tokens :: "AccountToken \<Rightarrow> AccountToken" where
  "without_tokens a = a\<lparr>at_AccessToken := [], at_RefreshToken := [], at_ClientID := []\<rparr>"

section \<open>Properties\<close>

text \<open>
  C16: no handler is reached unguarded: besides the four of the sign-in and the start page, the handlers of
  the API are reached with a key in force only, and all others with a session in force and a password
  that has been changed; on other paths there is only the handler that answers 404.
\<close>
theorem every_handler_is_guarded:
  assumes "fst (dispatch L now out r st) = Some h"
  shows "h \<in> sign_in_handlers \<or> h = RootHandler \<and> rq_Path r = ''/''
    \<or> h \<in> insert RootHandler api_handlers \<and> has_prefix (rq_Path r) ''/v1/''
      \<and> keyHash L (presented_key (rq_XAPIKey r) (rq_Authorization r)) \<in> snd ` set (active (apiKeys st))
    \<or> h \<notin> api_handlers \<and> adminPassword st \<noteq> [] \<and> \<not> mustChangePassword st
      \<and> fst (validAdminSession now (rq_Cookie r) st)"
proof -
  from assms have fw: "fst (adminMiddleware L now out r st) = Forward" and h: "h = handler_for (rq_Path r)"
    by (auto simp: dispatch_Some)
  from fw [unfolded middleware_forwards_iff] show ?thesis
    using open_routes [of "rq_Path r"] route_prefix [of "rq_Path r"] h
    by (cases "h = RootHandler") (auto simp: api_handlers_def)
qed

text \<open>
  the console never shows a token: the pages of accounts, and the answer to a refresh, are the same
  whatever the access tokens, the refresh tokens and the clients of the accounts are.
\<close>
theorem console_hides_tokens:
  "accounts_page T m (s\<lparr>accounts := map without_tokens (accounts s)\<rparr>) = accounts_page T m s
    \<and> health_page c sc p (s\<lparr>accounts := map without_tokens (accounts s)\<rparr>) = health_page c sc p s
    \<and> refreshed_view T (without_tokens a) = refreshed_view T a"
  by (simp add: accounts_page_def health_page_def refreshed_view_def account_view_def without_tokens_def comp_def)

text \<open>
  a key that the console has just issued opens every route of the API, presented as it was shown,
  whatever was in the store before; the list of keys shows no hash.
\<close>
theorem issued_key_opens_the_api:
  assumes "adminKeys L T e ''POST'' body kid rnd now out (apiKeys st) = (Json (JObj [(''key'', JStr key), (''record'', k)]), ks)"
    and "has_prefix (rq_Path r) ''/v1/''" and "rq_XAPIKey r = key"
  shows "fst (dispatch L now2 out2 r (st\<lparr>apiKeys := ks\<rparr>)) = Some (handler_for (rq_Path r))"
proof -
  from assms(1) obtain name b where made: "create L name rnd now out (apiKeys st) = (Some (new_key L name b now, key), ks)"
      "rnd = Some b" "save_ok out" "key = raw_key b"
    by (auto simp: adminKeys_def create_def Let_def split: option.splits prod.splits if_splits)
  from create_active [of L name rnd now out "apiKeys st"] made have "keyHash L key \<in> snd ` set (active ks)" by simp
  moreover have "presented_key key (rq_Authorization r) = key" "key \<noteq> []" unfolding made(4) by (rule raw_key_presented)+
  ultimately show ?thesis
    using assms(2,3) by (simp add: dispatch_Some middleware_forwards_iff)
qed

text \<open>
  the console's page is served only to a session in force after the password has been changed;
  everybody else gets the page of the login.
\<close>
theorem console_page_needs_a_session:
  assumes "fst (rootPage readable m path now c st) = Page name"
  shows "name = ''web/login.html'' \<or> name = ''web/index.html'' \<and> fst (validAdminSession now c st) \<and> \<not> mustChangePassword st"
proof -
  have "mustChangePassword (snd (validAdminSession now c st)) = mustChangePassword st"
    by (simp add: validAdminSession_def split: option.split)
  with assms show ?thesis by (auto simp: rootPage_def Let_def split: if_splits prod.splits)
qed

text \<open>
  after a deletion that reported success no account with that id is shown, in memory or after a restart.
\<close>
theorem deleted_account_is_gone:
  assumes "deleteAccount e ''POST'' (Some i) out s = (Json v, s1)"
  shows "i \<notin> at_ID ` set (accounts s1) \<and> account_file s1 = accounts s1"
  using assms by (auto simp: deleteAccount_def Delete_def saveLocked_def written_ok split: if_splits)

section \<open>Witnesses\<close>

definition key_lib :: golib where
  "key_lib = \<lparr>marshal = (\<lambda>_. []), unmarshal = (\<lambda>_. None), sprint_composite = (\<lambda>_. []), sha256_hex = (\<lambda>s. s)\<rparr>"

definition signed_in :: adminState where
  "signed_in = \<lparr>adminPassword = ''long enough!'', mustChangePassword = False, adminSessions = [(''tok'', 10)],
     loginAttempts = [], password_file = [], apiKeys = openAPIKeys []\<rparr>"

definition console_request :: request where
  "console_request = \<lparr>rq_Path = ''/api/accounts'', rq_XAPIKey = [], rq_Authorization = [], rq_Cookie = Some ''tok''\<rparr>"

lemma console_reached: "fst (dispatch key_lib 5 Saved console_request signed_in) = Some AccountsHandler"
  by code_simp

theorem every_handler_is_guarded_witness:
  "fst (validAdminSession 5 (Some ''tok'') signed_in) \<and> AccountsHandler \<notin> api_handlers"
proof -
  have "AccountsHandler \<notin> api_handlers" "AccountsHandler \<notin> sign_in_handlers"
    by (simp_all add: api_handlers_def sign_in_handlers_def)
  with every_handler_is_guarded [OF console_reached] show ?thesis by (simp add: console_request_def)
qed

definition api_request :: request where
  "api_request = \<lparr>rq_Path = ''/v1/models'', rq_XAPIKey = raw_key ''01234567'', rq_Authorization = [], rq_Cookie = None\<rparr>"

theorem issued_key_opens_the_api_witness:
  "\<exists>k ks. adminKeys key_lib (\<lambda>_. JNull) [] ''POST'' (Some ''ci'') [] (Some ''01234567'') 5 Saved (apiKeys signed_in)
      = (Json (JObj [(''key'', JStr (raw_key ''01234567'')), (''record'', k)]), ks)
    \<and> fst (dispatch key_lib 6 Saved api_request (signed_in\<lparr>apiKeys := ks\<rparr>)) = Some ModelsHandler"
proof -
  obtain k ks where made: "adminKeys key_lib (\<lambda>_. JNull) [] ''POST'' (Some ''ci'') [] (Some ''01234567'') 5 Saved (apiKeys signed_in)
      = (Json (JObj [(''key'', JStr (raw_key ''01234567'')), (''record'', k)]), ks)"
    by (simp add: adminKeys_def create_def Let_def)
  have "has_prefix (rq_Path api_request) ''/v1/''" "handler_for (rq_Path api_request) = ModelsHandler" by code_simp+
  with issued_key_opens_the_api [OF made, of api_request 6 Saved] made show ?thesis by (auto simp: api_request_def)
qed

theorem console_page_needs_a_session_witness:
  "fst (rootPage (\<lambda>_. True) ''GET'' ''/'' 5 (Some ''tok'') signed_in) = Page ''web/index.html''
    \<and> fst (validAdminSession 5 (Some ''tok'') signed_in)"
proof -
  have page: "fst (rootPage (\<lambda>_. True) ''GET'' ''/'' 5 (Some ''tok'') signed_in) = Page ''web/index.html''" by code_simp
  from console_page_needs_a_session [OF page] page show ?thesis by simp
qed

theorem deleted_account_is_gone_witness:
  "''a'' \<notin> at_ID ` set (accounts (snd (deleteAccount [] ''POST'' (Some ''a'') Saved (OpenStore []))))"
proof -
  have "deleteAccount [] ''POST'' (Some ''a'') Saved (OpenStore []) = (Json (JObj [(''status'', JStr ''deleted'')]), OpenStore [])"
    by (simp add: deleteAccount_def Delete_def saveLocked_def OpenStore_def)
  from deleted_account_is_gone [OF this] this show ?thesis by simp
qed

end
