(* ===== verification/PlainAnswers.thy ===== *)
theory PlainAnswers
  imports ChatExamples GoUrl JsonDecode
begin

text \<open>
  What the plain endpoints write: the JSON of \<open>chatOnce\<close> (src/internal/web/server.go), the event stream
  of \<open>chatStream\<close> (stream.go) with the normalized and the semantic events of the turn
  (src/internal/chathub/events.go), and the image endpoint (src/internal/web/images.go).

  A raw frame is embedded in JSON as it is; where a frame is not JSON, \<open>json.Marshal\<close> fails as a whole,
  and the program drops its error.
\<close>

section \<open>Events\<close>

record hub_event =
  he_Type :: int
  he_Target :: string
  he_Invocation :: string
  he_Kind :: string
  he_Arguments :: "json option"
  he_Item :: "json option"
  he_Error :: "json option"
  he_Raw :: string

definition normalize_event :: "golib \<Rightarrow> string \<Rightarrow> hub_event" where
  "normalize_event L r =
     (let m = (case unmarshal L r of Some v \<Rightarrow> as_obj v | None \<Rightarrow> [])
      in \<lparr>he_Type = int_field (struct_field m ''type''), he_Target = as_str (struct_field m ''target''),
          he_Invocation = as_str (struct_field m ''invocationId''), he_Kind = normalize_kind L r,
          he_Arguments = raw_field m ''arguments'', he_Item = raw_field m ''item'',
          he_Error = raw_field m ''error'', he_Raw = r\<rparr>)"

definition optional_int :: "string \<Rightarrow> int \<Rightarrow> obj" where
  "optional_int k n = (if n = 0 then [] else [(k, JNum (Finite (of_int n)))])"

definition optional_str :: "string \<Rightarrow> string \<Rightarrow> obj" where
  "optional_str k s = (if s = [] then [] else [(k, JStr s)])"

definition optional_raw :: "string \<Rightarrow> json option \<Rightarrow> obj" where
  "optional_raw k v = (case v of None \<Rightarrow> [] | Some x \<Rightarrow> [(k, x)])"

text \<open>\<open>None\<close> where the frame is not JSON.\<close>

definition event_json :: "golib \<Rightarrow> hub_event \<Rightarrow> json option" where
  "event_json L e = map_option (\<lambda>raw. JObj (
       optional_int ''type'' (he_Type e) @ optional_str ''target'' (he_Target e)
       @ optional_str ''invocationId'' (he_Invocation e) @ [(''kind'', JStr (he_Kind e))]
       @ optional_raw ''arguments'' (he_Arguments e) @ optional_raw ''item'' (he_Item e)
       @ optional_raw ''error'' (he_Error e) @ [(''raw'', raw)]))
     (unmarshal L (he_Raw e))"

section \<open>Semantic events\<close>

record hub_message =
  hm_Text :: string
  hm_ContentType :: string
  hm_MessageType :: string
  hm_SearchQueries :: "string list"
  hm_HiddenText :: string

definition decode_message :: "json \<Rightarrow> hub_message option" where
  "decode_message v =
     (if v = JNull then Some \<lparr>hm_Text = [], hm_ContentType = [], hm_MessageType = [], hm_SearchQueries = [], hm_HiddenText = []\<rparr>
      else do {
        m \<leftarrow> is_obj v;
        t \<leftarrow> decode_string (struct_field m ''text'');
        ct \<leftarrow> decode_string (struct_field m ''contentType'');
        mt \<leftarrow> decode_string (struct_field m ''messageType'');
        qs \<leftarrow> decode_list decode_string (struct_field m ''searchQueries'');
        h \<leftarrow> decode_string (struct_field m ''hiddenText'');
        Some \<lparr>hm_Text = t, hm_ContentType = ct, hm_MessageType = mt, hm_SearchQueries = qs, hm_HiddenText = h\<rparr>
      })"

definition decode_argument :: "json \<Rightarrow> hub_message list option" where
  "decode_argument v =
     (if v = JNull then Some [] else do { m \<leftarrow> is_obj v; decode_list decode_message (struct_field m ''messages'') })"

record semantic_event =
  sm_Kind :: string
  sm_Message :: hub_message
  sm_Raw :: hub_event

definition semantic_kind :: "hub_message \<Rightarrow> string" where
  "semantic_kind m =
     (let kind = (if hm_ContentType m = ''SearchResults'' then ''search.progress''
                  else if hm_ContentType m = ''Code'' then ''code.progress'' else ''message'')
      in if hm_MessageType m = ''Progress'' \<and> kind = ''message'' then ''tool.progress'' else kind)"

definition frame_semantics :: "golib \<Rightarrow> string \<Rightarrow> semantic_event list" where
  "frame_semantics L r =
     (let e = normalize_event L r in
      if he_Kind e \<noteq> ''update'' then []
      else case Option.bind (he_Arguments e) (decode_list decode_argument) of
          None \<Rightarrow> []
        | Some args \<Rightarrow> map (\<lambda>m. \<lparr>sm_Kind = semantic_kind m, sm_Message = m, sm_Raw = e\<rparr>) (concat args))"

definition SemanticEvents :: "golib \<Rightarrow> string list \<Rightarrow> semantic_event list" where
  "SemanticEvents L rs = concat (map (frame_semantics L) rs)"

definition semantic_json :: "golib \<Rightarrow> semantic_event \<Rightarrow> json option" where
  "semantic_json L s = map_option (\<lambda>raw. JObj (
       [(''kind'', JStr (sm_Kind s))] @ optional_str ''contentType'' (hm_ContentType (sm_Message s))
       @ optional_str ''messageType'' (hm_MessageType (sm_Message s)) @ optional_str ''text'' (hm_Text (sm_Message s))
       @ (if hm_SearchQueries (sm_Message s) = [] then []
          else [(''queries'', JArr (map JStr (hm_SearchQueries (sm_Message s))))])
       @ optional_str ''hiddenText'' (hm_HiddenText (sm_Message s)) @ [(''raw'', raw)]))
     (event_json L (sm_Raw s))"

section \<open>The answers of the plain endpoints\<close>

definition num :: "nat \<Rightarrow> json" where
  "num n = JNum (Finite (of_nat n))"

text \<open>A server-sent event: its name, and the JSON of its data where that can be marshalled.\<close>

type_synonym sse = "string \<times> json option"

definition turn_fields :: "chat_result \<Rightarrow> obj" where
  "turn_fields res = [(''conversationId'', JStr (res_ConversationID res)), (''sessionId'', JStr (res_SessionID res)),
     (''requestId'', JStr (res_RequestID res))]"

definition stream_event_sse :: "golib \<Rightarrow> chat_result \<Rightarrow> nat \<times> string \<Rightarrow> sse" where
  "stream_event_sse L res ir = (case ir of (i, r) \<Rightarrow> (''event'',
     map_option (\<lambda>e. JObj ([(''index'', num i), (''type'', JStr ''chathub.event''), (''event'', e)] @ turn_fields res))
       (event_json L (normalize_event L r))))"

definition semantic_sse :: "golib \<Rightarrow> nat \<times> semantic_event \<Rightarrow> sse" where
  "semantic_sse L ise = (case ise of (i, s) \<Rightarrow> (''semantic'',
     map_option (\<lambda>e. JObj [(''index'', num i), (''type'', JStr ''m365.semantic''), (''event'', e)]) (semantic_json L s)))"

definition done_sse :: "chat_result \<Rightarrow> sse" where
  "done_sse res = (''done'', Some (JObj ([(''type'', JStr ''done''), (''text'', JStr (res_Text res))] @ turn_fields res
     @ [(''throttling'', res_Throttling res)])))"

definition chat_stream_output :: "golib \<Rightarrow> chat_result \<Rightarrow> sse list" where
  "chat_stream_output L res =
     map (stream_event_sse L res) (List.enumerate 0 (res_Events res))
     @ map (semantic_sse L) (List.enumerate 0 (SemanticEvents L (res_Events res)))
     @ [done_sse res]"

definition newline :: string where
  "newline = [CHR 0x0A]"

definition writeSSE :: "golib \<Rightarrow> sse \<Rightarrow> string" where
  "writeSSE L ev = (case ev of (name, data) \<Rightarrow>
     ''event: '' @ name @ newline @ ''data: '' @ (case data of None \<Rightarrow> [] | Some v \<Rightarrow> marshal L v) @ newline @ newline)"

definition strings_or_null :: "string list \<Rightarrow> json" where
  "strings_or_null ss = (if ss = [] then JNull else JArr (map JStr ss))"

definition chat_once_output :: "golib \<Rightarrow> chat_result \<Rightarrow> AccountToken \<Rightarrow> string" where
  "chat_once_output L res acc =
     (case those (map (unmarshal L) (res_Events res)) of
        None \<Rightarrow> []
      | Some events \<Rightarrow> marshal L (JObj ([(''status'', JStr ''ok''), (''text'', JStr (res_Text res))] @ turn_fields res
          @ [(''throttling'', res_Throttling res), (''result'', JStr (res_RawResult res)),
             (''events'', if events = [] then JNull else JArr events), (''images'', strings_or_null (res_Images res)),
             (''account'', JObj [(''id'', JStr (at_ID acc)), (''email'', JStr (at_Email acc))])])) @ newline)"

section \<open>Images\<close>

record imageGenerationRequest =
  ig_Prompt :: string
  ig_N :: int
  ig_Size :: string
  ig_ResponseFormat :: string
  ig_Model :: string
  ig_AccountID :: string
  ig_User :: string

datatype image_reply =
    ImageRefused int string
  | ImageAccessRefused access_error
  | ImagePanic
  | ImageReply int obj json "string list"

datatype image_data = ImageData "json list" | NotBase64 | NoComma

fun image_entries :: "bool \<Rightarrow> string list \<Rightarrow> image_data" where
  "image_entries b64 [] = ImageData []"
| "image_entries b64 (u # us) =
     (if b64 then
        (if \<not> has_prefix u ''data:image/'' then NotBase64
         else case after_comma u of
             None \<Rightarrow> NoComma
           | Some d \<Rightarrow> (case image_entries b64 us of
                 ImageData ds \<Rightarrow> ImageData (JObj [(''b64_json'', JStr d)] # ds)
               | e \<Rightarrow> e))
      else (case image_entries b64 us of
          ImageData ds \<Rightarrow> ImageData (JObj [(''url'', JStr u)] # ds)
        | e \<Rightarrow> e))"

definition image_ids :: "tokenlib \<Rightarrow> AccountToken \<Rightarrow> AccountToken" where
  "image_ids K acc =
     (if at_OID acc = [] \<or> at_TID acc = [] then
        (case extractOIDTID K (at_AccessToken acc) of (o1, t1) \<Rightarrow> acc\<lparr>at_OID := o1, at_TID := t1\<rparr>)
      else acc)"

definition image_request :: "string \<Rightarrow> chat_request" where
  "image_request prompt = plain_request (''Generate an image: '' @ prompt) ''magic'' []"

definition image_count :: "imageGenerationRequest \<Rightarrow> int" where
  "image_count b = (if ig_N b \<le> 0 then 1 else ig_N b)"

definition wants_base64 :: "imageGenerationRequest \<Rightarrow> bool" where
  "wants_base64 b = equal_fold (ig_ResponseFormat b) ''b64_json''"

text \<open>The request, or the status and the message of its refusal.\<close>

definition image_guards :: "string \<Rightarrow> imageGenerationRequest option \<Rightarrow> int \<times> string + imageGenerationRequest" where
  "image_guards http_method input =
     (if http_method \<noteq> ''POST'' then Inl (405, ''method not allowed'')
      else case input of
        None \<Rightarrow> Inl (400, ''prompt is required'')
      | Some b \<Rightarrow>
          if trim_space (ig_Prompt b) = [] then Inl (400, ''prompt is required'')
          else if image_count b > 4 then Inl (400, ''n must be between 1 and 4'')
          else if ig_ResponseFormat b \<noteq> [] \<and> \<not> equal_fold (ig_ResponseFormat b) ''url'' \<and> \<not> wants_base64 b
            then Inl (400, ''response_format must be url or b64_json'')
          else Inr b)"

definition image_answer :: "int \<Rightarrow> imageGenerationRequest \<Rightarrow> chat_result \<Rightarrow> image_reply" where
  "image_answer created b res =
     (if res_Images res = [] then ImageRefused 502 ''upstream returned no image resource''
      else let images = take (nat (image_count b)) (res_Images res) in
        case image_entries (wants_base64 b) images of
          NoComma \<Rightarrow> ImagePanic
        | NotBase64 \<Rightarrow> ImageRefused 502 ''upstream returned URL, not b64_json''
        | ImageData ds \<Rightarrow> ImageReply created
            [(''conversationId'', JStr (res_ConversationID res)), (''sessionId'', JStr (res_SessionID res))]
            (JArr ds) images)"

definition imageGenerations ::
    "tokenlib \<Rightarrow> world \<Rightarrow> int \<Rightarrow> string \<Rightarrow> imageGenerationRequest option \<Rightarrow> server \<Rightarrow> image_reply \<times> server" where
  "imageGenerations K w created http_method input s =
     (case image_guards http_method input of
        Inl (code, message) \<Rightarrow> (ImageRefused code message, s)
      | Inr b \<Rightarrow>
        (case resolveAccount (token_refresh w) (firstNonEmpty [ig_AccountID b, ig_User b]) (time_stamp w)
            (clock w) (client_id w) (account_write w) (sv_accounts s) of
          (Inl e, st) \<Rightarrow> (ImageAccessRefused (AccountError e), s\<lparr>sv_accounts := st\<rparr>)
        | (Inr acc0, st) \<Rightarrow>
            let acc = image_ids K acc0; s1 = s\<lparr>sv_accounts := st\<rparr> in
            if at_OID acc = [] \<or> at_TID acc = [] then (ImageAccessRefused MissingIDs, s1)
            else (case Chat w acc (image_request (ig_Prompt b)) s1 of
                (Inl e, s2) \<Rightarrow> (ImageRefused 502 ''upstream request failed'', s2)
              | (Inr res, s2) \<Rightarrow> (image_answer created b res, s2))))"

section \<open>Laws\<close>

lemma fold_opt_inv:
  assumes "fold_opt f xs s = Some s'" "P s" "\<And>x s s'. x \<in> set xs \<Longrightarrow> P s \<Longrightarrow> f x s = Some s' \<Longrightarrow> P s'"
  shows "P s'"
  using assms
proof (induction xs arbitrary: s)
  case (Cons x xs)
  from Cons.prems(1) obtain t where t: "f x s = Some t" "fold_opt f xs t = Some s'" by (auto split: option.splits)
  from Cons.prems(3) [OF _ Cons.prems(2) t(1)] have "P t" by simp
  from t(2) this show ?case by (rule Cons.IH) (rule Cons.prems(3), simp_all)
qed simp

text \<open>Every URL collected from a turn's frames passed the test for image URLs.\<close>

definition checked :: "netlib \<Rightarrow> (string \<Rightarrow> bool) \<Rightarrow> string list \<Rightarrow> bool" where
  "checked N b us \<longleftrightarrow> (\<forall>u\<in>set us. isImageURL N b u = Some True)"

lemma note_image_checked: "note_image N b s out = Some out' \<Longrightarrow> checked N b out \<Longrightarrow> checked N b out'"
  by (auto simp: note_image_def checked_def split: option.splits if_splits)

lemma image_walk_checked: "image_walk N b v out = Some out' \<Longrightarrow> checked N b out \<Longrightarrow> checked N b out'"
proof (induction N b v out arbitrary: out' rule: image_walk.induct)
  case (1 N b xs out)
  from 1(2) [unfolded image_walk.simps] 1(3) show ?case
    by (rule fold_opt_inv) (rule 1(1))
next
  case (2 N b m out)
  from 2(2) [unfolded image_walk.simps] 2(3) show ?case
  proof (rule fold_opt_inv)
    fix x s s'
    assume x: "x \<in> set m" "checked N b s"
      "(case x of (k, e) \<Rightarrow> \<lambda>out. case is_str e of Some s \<Rightarrow> if image_key k then note_image N b s out else Some out
         | None \<Rightarrow> image_walk N b e out) s = Some s'"
    obtain k e where ke: "x = (k, e)" by fastforce
    show "checked N b s'"
    proof (cases "is_str e")
      case None
      with x ke have "image_walk N b e s = Some s'" by simp
      with None x ke show ?thesis using 2(1) by blast
    next
      case (Some t)
      with x ke show ?thesis by (auto split: if_splits intro: note_image_checked)
    qed
  qed
qed simp_all

lemma imageURLs_checked: "imageURLs L N b rs = Some us \<Longrightarrow> checked N b us"
  unfolding imageURLs_def
  by (erule fold_opt_inv) (auto simp: checked_def [of _ _ "[]"] split: option.splits intro: image_walk_checked)

lemma image_entries_no_comma:
  "list_all (\<lambda>u. has_prefix u ''data:image/'' \<longrightarrow> after_comma u \<noteq> None) us \<Longrightarrow> image_entries b64 us \<noteq> NoComma"
  by (cases b64; induction us) (auto split: option.splits image_data.splits)

text \<open>The entry of one URL.\<close>

definition image_entry :: "bool \<Rightarrow> string \<Rightarrow> json" where
  "image_entry b64 u = (if b64 then JObj [(''b64_json'', JStr (case after_comma u of None \<Rightarrow> [] | Some d \<Rightarrow> d))]
     else JObj [(''url'', JStr u)])"

lemma image_entries_data:
  "image_entries b64 us = ImageData ds \<Longrightarrow> ds = map (image_entry b64) us
    \<and> (b64 \<longrightarrow> list_all (\<lambda>u. has_prefix u ''data:image/'' \<and> after_comma u \<noteq> None) us)"
  by (cases b64; induction us arbitrary: ds) (auto simp: image_entry_def split: if_splits option.splits image_data.splits)

lemma those_None: "those xs = None \<longleftrightarrow> None \<in> set xs"
  by (induction xs) (auto split: option.splits)

section \<open>Properties\<close>

text \<open>
  the stream of \<open>chatStream\<close> has one event for each frame of the turn, in order, then one for each
  message of the updates that decode, then one \<open>done\<close> with the text of the answer, which comes last.
\<close>
theorem plain_stream_is_complete:
  "map fst (chat_stream_output L res) =
      replicate (length (res_Events res)) ''event'' @ replicate (length (SemanticEvents L (res_Events res))) ''semantic'' @ [''done'']
    \<and> (\<exists>m. last (chat_stream_output L res) = (''done'', Some (JObj m)) \<and> get m ''text'' = JStr (res_Text res))"
proof -
  have names: "map fst (map (stream_event_sse L res) ps) = replicate (length ps) ''event''"
    "map fst (map (semantic_sse L) qs) = replicate (length qs) ''semantic''" for ps qs
    by (auto simp: stream_event_sse_def semantic_sse_def comp_def split_def map_replicate_const)
  show ?thesis
    unfolding chat_stream_output_def map_append names by (simp add: done_sse_def)
qed


text \<open>
  an answer with images comes from exactly one ChatHub turn, for an account with both ids, and has
  between one and four of the images of that turn, the first ones in their order, each as the format
  asks for it.
\<close>
theorem image_answer_is_bounded:
  assumes "imageGenerations K w created m input s = (ImageReply c ids data images, s1)"
  shows "\<exists>b acc res b64. input = Some b \<and> sv_turns s1 = sv_turns s @ [(acc, image_request (ig_Prompt b))]
    \<and> at_OID acc \<noteq> [] \<and> at_TID acc \<noteq> []
    \<and> snd (upstream w (length (sv_turns s)) (image_request (ig_Prompt b))) = Inr res
    \<and> 1 \<le> length images \<and> length images \<le> 4 \<and> prefix images (res_Images res)
    \<and> data = JArr (map (image_entry b64) images)"
proof -
  from assms obtain b acc0 st res s2 where run: "image_guards m input = Inr b"
    "at_OID (image_ids K acc0) \<noteq> []" "at_TID (image_ids K acc0) \<noteq> []"
    "Chat w (image_ids K acc0) (image_request (ig_Prompt b)) (s\<lparr>sv_accounts := st\<rparr>) = (Inr res, s2)" "s1 = s2"
    "image_answer created b res = ImageReply c ids data images"
    unfolding imageGenerations_def Let_def by (auto split: sum.splits prod.splits if_splits)
  from run(6) obtain ds where answer: "res_Images res \<noteq> []" "images = take (nat (image_count b)) (res_Images res)"
    "image_entries (wants_base64 b) images = ImageData ds" "data = JArr ds"
    by (auto simp: image_answer_def Let_def split: if_splits image_data.splits)
  from run(1) have input: "input = Some b" "0 < image_count b" "image_count b \<le> 4"
    by (auto simp: image_guards_def split: if_splits option.splits) (simp_all add: image_count_def split: if_splits)
  have turn: "snd (upstream w (length (sv_turns s)) (image_request (ig_Prompt b))) = Inr res"
    "sv_turns s2 = sv_turns s @ [(image_ids K acc0, image_request (ig_Prompt b))]"
    using Chat_fields [of w "image_ids K acc0" "image_request (ig_Prompt b)" "s\<lparr>sv_accounts := st\<rparr>"] run(4) by auto
  have "1 \<le> length images" "length images \<le> 4" "prefix images (res_Images res)"
    using input(2,3) answer(1,2) by (auto simp: Suc_le_eq take_is_prefix)
  with run turn input(1) answer(4) image_entries_data [OF answer(3)] show ?thesis by blast
qed

text \<open>
  behind \<open>chatWithHandlers\<close> the images of an answer can always be written: no data URL that a turn collects
  lacks the comma that the image endpoint cuts it at.
\<close>
theorem collected_images_have_their_comma:
  assumes "imageURLs L N b rs = Some us"
  shows "image_entries b64 (take n us) \<noteq> NoComma"
proof (rule image_entries_no_comma)
  have "list_all (\<lambda>u. isImageURL N b u = Some True) (take n us)"
    using imageURLs_checked [OF assms] set_take_subset [of n us] by (auto simp: checked_def list_all_iff)
  then show "list_all (\<lambda>u. has_prefix u ''data:image/'' \<longrightarrow> after_comma u \<noteq> None) (take n us)"
    by (auto simp: list_all_iff isImageURL_def split: if_splits)
qed

section \<open>Witnesses\<close>

definition two_frames :: golib where
  "two_frames = demo_lib\<lparr>unmarshal := (\<lambda>s. if s = ''end'' then Some (JObj [(''type'', JNum (Finite 3))]) else None)\<rparr>"

definition plain_result :: chat_result where
  "plain_result = (demo_result ''hi'')\<lparr>res_Events := [''oops'', ''end'']\<rparr>"


definition picture_answers :: world where
  "picture_answers = (answers [])\<lparr>upstream := (\<lambda>i req. ([], Inr ((demo_result ''hi'')\<lparr>res_Images := [''https://x/a.png'', ''https://x/b.png'']\<rparr>)))\<rparr>"

definition picture_wish :: imageGenerationRequest where
  "picture_wish = \<lparr>ig_Prompt = ''a cat'', ig_N = 0, ig_Size = [], ig_ResponseFormat = [], ig_Model = [],
     ig_AccountID = [], ig_User = []\<rparr>"

lemma picture_served:
  "fst (imageGenerations (gw_tokens (demo ''native'')) picture_answers 7 ''POST'' (Some picture_wish) demo_server) =
     ImageReply 7 [(''conversationId'', JStr ''c1''), (''sessionId'', JStr ''s1'')]
       (JArr [JObj [(''url'', JStr ''https://x/a.png'')]]) [''https://x/a.png'']"
  by code_simp

theorem image_answer_is_bounded_witness:
  "\<exists>acc. sv_turns (snd (imageGenerations (gw_tokens (demo ''native'')) picture_answers 7 ''POST'' (Some picture_wish) demo_server))
     = [(acc, image_request ''a cat'')] \<and> at_OID acc \<noteq> []"
  using image_answer_is_bounded [of "gw_tokens (demo ''native'')" picture_answers 7 "''POST''" "Some picture_wish" demo_server,
      OF prod_eqI [of _ "(a, b)" for a b, simplified fst_conv snd_conv, OF picture_served refl]]
  by (auto simp: picture_wish_def)

definition picture_frame :: golib where
  "picture_frame = demo_lib\<lparr>unmarshal := (\<lambda>_. Some (JObj [(''url'', JStr ''data:image/png;base64,QQ=='')]))\<rparr>"

theorem collected_images_have_their_comma_witness:
  "image_entries True (take 1 [''data:image/png;base64,QQ=='']) \<noteq> NoComma"
proof -
  have "imageURLs picture_frame http_only (\<lambda>_. True) [''f''] = Some [''data:image/png;base64,QQ=='']" by code_simp
  from collected_images_have_their_comma [OF this] show ?thesis .
qed

end
