(* ===== verification/AuthEndpoints.thy ===== *)
theory AuthEndpoints
  imports AuthStore ApiKeys GoUrl
begin

text \<open>
  What the gateway says to Microsoft's sign-in service: the client, scope and addresses from the
  environment (src/internal/auth/config.go), the proof key of a sign-in and its address (pkce.go), the
  forms posted to the token and the device-code endpoint (token.go, device.go), and the pages of the
  sign-in (\<open>startPKCE\<close>, \<open>callbackPKCE\<close> in src/internal/web/server.go).

  \<open>sha\<close> is SHA-256 with its 32 bytes as a string, \<open>env\<close> the environment, and \<open>post\<close> the network: the
  answer to a form posted to an address.  With it the parameters \<open>exchange\<close> and \<open>refresh\<close> of the account
  store become definitions.
\<close>

section \<open>Configuration\<close>

type_synonym environment = "string \<Rightarrow> string"

definition env_or :: "environment \<Rightarrow> string \<Rightarrow> string \<Rightarrow> string" where
  "env_or env name fallback = (if env name = [] then fallback else env name)"

definition DefaultClientID :: string where
  "DefaultClientID = ''c0ab8ce9-e9a0-42e7-b064-33d422df41f1''"

definition DefaultScope :: string where
  "DefaultScope = ''openid profile offline_access https://substrate.office.com/sydney/M365Chat.Read https://substrate.office.com/sydney/sydney.readwrite''"

definition ClientID :: "environment \<Rightarrow> string" where
  "ClientID env = env_or env ''M365_CLIENT_ID'' DefaultClientID"

definition Authority :: "environment \<Rightarrow> string" where
  "Authority env = env_or env ''M365_AUTHORITY'' ''https://login.microsoftonline.com/common''"

definition RedirectURI :: "environment \<Rightarrow> string" where
  "RedirectURI env = env_or env ''M365_REDIRECT_URI'' ''https://login.microsoftonline.com/common/oauth2/nativeclient''"

definition Scope_of :: "environment \<Rightarrow> string" where
  "Scope_of env = env_or env ''M365_SCOPE'' DefaultScope"

definition AuthorizeEndpoint :: "environment \<Rightarrow> string" where
  "AuthorizeEndpoint env = env_or env ''M365_AUTHORIZE_ENDPOINT'' (Authority env @ ''/oauth2/v2.0/authorize'')"

definition TokenEndpoint :: "environment \<Rightarrow> string" where
  "TokenEndpoint env = env_or env ''M365_TOKEN_ENDPOINT'' (Authority env @ ''/oauth2/v2.0/token'')"

definition DeviceCodeEndpoint :: "environment \<Rightarrow> string" where
  "DeviceCodeEndpoint env = env_or env ''M365_DEVICE_ENDPOINT'' (Authority env @ ''/oauth2/v2.0/devicecode'')"

section \<open>The proof key\<close>

text \<open>\<open>rnd\<close>: 32 random bytes, \<open>None\<close> where the random source fails.\<close>

definition Verifier :: "string option \<Rightarrow> string option" where
  "Verifier rnd = map_option base64url rnd"

definition Challenge :: "(string \<Rightarrow> string) \<Rightarrow> string \<Rightarrow> string" where
  "Challenge sha v = base64url (sha v)"

definition authorization_query ::
    "string \<Rightarrow> string \<Rightarrow> string \<Rightarrow> string \<Rightarrow> string \<Rightarrow> (string \<times> string) list" where
  "authorization_query clientID redirect state challenge scope =
     [(''client_id'', clientID), (''code_challenge'', challenge), (''code_challenge_method'', ''S256''),
      (''redirect_uri'', redirect), (''response_mode'', ''query''), (''response_type'', ''code''),
      (''scope'', scope), (''state'', state)]"

definition AuthorizationURL :: "string \<Rightarrow> string \<Rightarrow> string \<Rightarrow> string \<Rightarrow> string \<Rightarrow> string \<Rightarrow> string" where
  "AuthorizationURL endpoint clientID redirect state challenge scope =
     endpoint @ ''?'' @ query_encode (authorization_query clientID redirect state challenge scope)"

section \<open>Forms\<close>

type_synonym form = "(string \<times> string) list"

definition exchange_form :: "environment \<Rightarrow> string \<Rightarrow> string \<Rightarrow> string \<Rightarrow> form" where
  "exchange_form env code verifier redirect =
     [(''client_id'', ClientID env), (''code'', code), (''code_verifier'', verifier),
      (''grant_type'', ''authorization_code''), (''redirect_uri'', redirect), (''scope'', Scope_of env)]"

definition refresh_form :: "environment \<Rightarrow> string \<Rightarrow> form" where
  "refresh_form env refreshToken =
     [(''client_id'', ClientID env), (''grant_type'', ''refresh_token''), (''refresh_token'', refreshToken),
      (''scope'', Scope_of env)]"

definition device_form :: "environment \<Rightarrow> form" where
  "device_form env = [(''client_id'', ClientID env), (''scope'', Scope_of env)]"

definition poll_form :: "environment \<Rightarrow> string \<Rightarrow> form" where
  "poll_form env deviceCode =
     [(''client_id'', ClientID env), (''device_code'', deviceCode),
      (''grant_type'', ''urn:ietf:params:oauth:grant-type:device_code'')]"

text \<open>The network: the answer to a body posted to an address.\<close>

type_synonym network = "string \<Rightarrow> string \<Rightarrow> answer"

definition ExchangeCode ::
    "tokenlib \<Rightarrow> environment \<Rightarrow> network \<Rightarrow> instant \<Rightarrow> string \<Rightarrow> string \<Rightarrow> string \<Rightarrow> token_error + TokenSet" where
  "ExchangeCode K env post now code verifier redirect =
     requestToken K now (post (TokenEndpoint env) (query_encode (exchange_form env code verifier redirect)))"

definition Refresh :: "tokenlib \<Rightarrow> environment \<Rightarrow> network \<Rightarrow> instant \<Rightarrow> string \<Rightarrow> token_error + TokenSet" where
  "Refresh K env post now refreshToken =
     requestToken K now (post (TokenEndpoint env) (query_encode (refresh_form env refreshToken)))"

definition start_device :: "tokenlib \<Rightarrow> environment \<Rightarrow> network \<Rightarrow> instant \<Rightarrow> token_error + DeviceCode" where
  "start_device K env post now =
     StartDeviceCode K now (post (DeviceCodeEndpoint env) (query_encode (device_form env)))"

definition poll_device ::
    "tokenlib \<Rightarrow> environment \<Rightarrow> network \<Rightarrow> instant \<Rightarrow> string \<Rightarrow> token_error + TokenSet option" where
  "poll_device K env post now deviceCode =
     PollDeviceCode K now (post (TokenEndpoint env) (query_encode (poll_form env deviceCode)))"

section \<open>The pages of the sign-in\<close>

definition sign_in_note :: string where
  "sign_in_note = ''If redirect is nativeclient, paste the final URL/code into /api/auth/callback after login.''"

text \<open>\<open>rnd1\<close> and \<open>rnd2\<close>: the 32 bytes of the verifier and the 16 of the state.\<close>

definition start_page ::
    "environment \<Rightarrow> (string \<Rightarrow> string) \<Rightarrow> string option \<Rightarrow> string option \<Rightarrow> instant \<Rightarrow> signin
      \<Rightarrow> (string \<times> string) list option \<times> signin" where
  "start_page env sha rnd1 rnd2 now s =
     (case startPKCE (Verifier rnd1) (map_option hex_encode rnd2) now s of
        (None, s1) \<Rightarrow> (None, s1)
      | (Some state, s1) \<Rightarrow>
          (Some [(''note'', sign_in_note), (''redirectUri'', RedirectURI env), (''state'', state),
             (''status'', ''pkce_ready''),
             (''url'', AuthorizationURL (AuthorizeEndpoint env) (ClientID env) (RedirectURI env) state
                (Challenge sha (the (Verifier rnd1))) (Scope_of env))], s1))"

definition callback ::
    "tokenlib \<Rightarrow> environment \<Rightarrow> network \<Rightarrow> string \<Rightarrow> string \<Rightarrow> (string \<times> string) option
      \<Rightarrow> string \<Rightarrow> instant \<Rightarrow> account_save \<Rightarrow> signin \<Rightarrow> callback_reply \<times> signin" where
  "callback K env post state code pasted stamp now out s =
     callbackPKCE (\<lambda>c v. ExchangeCode K env post now c v (RedirectURI env)) state code pasted stamp now
       (ClientID env) out s"

datatype callback_page = FriendlyPage | CallbackJson json | CallbackError int callback_reply

text \<open>A browser on this machine gets a page, others JSON.\<close>

definition public_account :: "AccountToken \<Rightarrow> json" where
  "public_account a = JObj [(''id'', JStr (at_ID a)), (''email'', JStr (at_Email a)),
     (''displayName'', JStr (at_DisplayName a)), (''status'', JStr (at_Status a)), (''oid'', JStr (at_OID a)),
     (''tid'', JStr (at_TID a))]"

definition callback_answer :: "environment \<Rightarrow> callback_reply \<Rightarrow> callback_page" where
  "callback_answer env r = (case r of
      SignedIn a \<Rightarrow>
        if has_prefix (RedirectURI env) ''http://127.0.0.1:'' \<or> has_prefix (RedirectURI env) ''http://localhost:''
        then FriendlyPage
        else CallbackJson (JObj [(''status'', JStr ''authenticated''), (''account'', public_account a)])
    | StoreFailed \<Rightarrow> CallbackError 500 r
    | _ \<Rightarrow> CallbackError 400 r)"

section \<open>Properties\<close>

text \<open>
  a verifier is what RFC 7636 asks for: 43 characters that need no escape, different for different
  random bytes; the challenge has the same form and is different for different digests.
\<close>
theorem verifier_is_well_formed:
  assumes "length b = 32" and "length (sha v) = 32"
  shows "\<exists>t. Verifier (Some b) = Some t \<and> length t = 43 \<and> list_all unreserved t
    \<and> (Verifier (Some b') = Some t \<longleftrightarrow> b' = b)
    \<and> length (Challenge sha v) = 43 \<and> list_all unreserved (Challenge sha v)
    \<and> (Challenge sha v' = Challenge sha v \<longleftrightarrow> sha v' = sha v)"
  using assms by (simp add: Verifier_def Challenge_def length_base64url base64url_unreserved base64url_inj)

lemma start_page_ready:
  assumes "start_page env sha rnd1 rnd2 now s = (Some page, s1)"
  obtains b r where "rnd1 = Some b" "rnd2 = Some r"
    "page = [(''note'', sign_in_note), (''redirectUri'', RedirectURI env), (''state'', hex_encode r), (''status'', ''pkce_ready''),
       (''url'', AuthorizationURL (AuthorizeEndpoint env) (ClientID env) (RedirectURI env) (hex_encode r)
          (Challenge sha (base64url b)) (Scope_of env))]"
    "map_of (pkce s1) (hex_encode r) = Some \<lparr>pk_Verifier = base64url b, pk_Created = now, pk_Status = ''pending'',
       pk_Account = None, pk_Error = None\<rparr>"
  using assms
  by (auto simp: start_page_def startPKCE_def Verifier_def update_conv' split: option.splits)

lemma parsed_query: "kvs \<noteq> [] \<Longrightarrow> kv \<in> set kvs \<Longrightarrow> Some kv \<in> set (parse_query (query_encode kvs))"
  by (simp add: parse_query_encode)

text \<open>
  C38: the proof key binds a sign-in: the address the user is sent to carries the digest of the verifier that
  is kept under its state, and while the entry is kept, a code that comes back with this state is
  exchanged with that verifier, and no other, at the token endpoint.
\<close>
theorem proof_key_is_bound:
  assumes "start_page env sha rnd1 rnd2 now s = (Some page, s1)"
    and "map_of (pkce s2) state = map_of (pkce s1) state" and "map_of page ''state'' = Some state"
    and "code \<noteq> []"
  shows "\<exists>v q f. map_of page ''url'' = Some (AuthorizeEndpoint env @ ''?'' @ q)
    \<and> Some (''code_challenge'', Challenge sha v) \<in> set (parse_query q) \<and> Some (''state'', state) \<in> set (parse_query q)
    \<and> callback K env post state code pasted stamp now2 out s2 =
        callbackPKCE (\<lambda>_ _. requestToken K now2 (post (TokenEndpoint env) f)) state code pasted stamp now2 (ClientID env) out s2
    \<and> Some (''code_verifier'', v) \<in> set (parse_query f) \<and> Some (''code'', code) \<in> set (parse_query f)"
proof -
  from start_page_ready [OF assms(1)] obtain b r where page: "rnd1 = Some b" "rnd2 = Some r"
    "page = [(''note'', sign_in_note), (''redirectUri'', RedirectURI env), (''state'', hex_encode r), (''status'', ''pkce_ready''),
       (''url'', AuthorizationURL (AuthorizeEndpoint env) (ClientID env) (RedirectURI env) (hex_encode r)
          (Challenge sha (base64url b)) (Scope_of env))]"
    "map_of (pkce s1) (hex_encode r) = Some \<lparr>pk_Verifier = base64url b, pk_Created = now, pk_Status = ''pending'',
       pk_Account = None, pk_Error = None\<rparr>" by blast
  have state: "state = hex_encode r" using assms(3) page(3) by simp
  let ?q = "authorization_query (ClientID env) (RedirectURI env) (hex_encode r) (Challenge sha (base64url b)) (Scope_of env)"
  let ?p = "\<lparr>pk_Verifier = base64url b, pk_Created = now, pk_Status = ''pending'', pk_Account = None, pk_Error = None\<rparr>"
  have "?q \<noteq> []" "(''code_challenge'', Challenge sha (base64url b)) \<in> set ?q" "(''state'', state) \<in> set ?q"
    by (simp_all add: authorization_query_def state)
  then have url: "Some (''code_challenge'', Challenge sha (base64url b)) \<in> set (parse_query (query_encode ?q))"
    "Some (''state'', state) \<in> set (parse_query (query_encode ?q))" by (auto intro!: parsed_query)
  let ?f = "exchange_form env code (base64url b) (RedirectURI env)"
  have "?f \<noteq> []" "(''code_verifier'', base64url b) \<in> set ?f" "(''code'', code) \<in> set ?f" by (simp_all add: exchange_form_def)
  then have posted: "Some (''code_verifier'', base64url b) \<in> set (parse_query (query_encode ?f))"
    "Some (''code'', code) \<in> set (parse_query (query_encode ?f))" by (auto intro!: parsed_query)
  have p: "map_of (pkce s2) state = Some ?p" using assms(2) page(4) state by simp
  have params: "callback_params state code pasted = (state, code)" using assms(4) by (simp add: callback_params_def)
  have "callback K env post state code pasted stamp now2 out s2 =
      callbackPKCE (\<lambda>_ _. requestToken K now2 (post (TokenEndpoint env) (query_encode ?f))) state code pasted stamp now2
        (ClientID env) out s2"
    unfolding callback_def callbackPKCE_def params by (simp add: p ExchangeCode_def)
  with url posted page(3) show ?thesis
    by (intro exI [of _ "base64url b"] exI [of _ "query_encode ?q"] exI [of _ "query_encode ?f"])
      (simp add: AuthorizationURL_def)
qed

text \<open>
  whatever the sign-in service is told comes back from its form unchanged: no token, code or scope can
  add or change a field.
\<close>
theorem forms_read_back:
  "parse_query (query_encode (exchange_form env code v uri)) = map Some (exchange_form env code v uri)
    \<and> parse_query (query_encode (refresh_form env t)) = map Some (refresh_form env t)
    \<and> parse_query (query_encode (poll_form env d)) = map Some (poll_form env d)
    \<and> parse_query (query_encode (device_form env)) = map Some (device_form env)"
  by (intro conjI parse_query_encode) (simp_all add: exchange_form_def refresh_form_def poll_form_def device_form_def)

section \<open>Witnesses\<close>

definition zero_sha :: "string \<Rightarrow> string" where
  "zero_sha s = take 32 (s @ replicate 32 (CHR ''0''))"

theorem verifier_is_well_formed_witness:
  "\<exists>t. Verifier (Some (replicate 32 (CHR ''x''))) = Some t \<and> length t = 43 \<and> length (Challenge zero_sha ''v'') = 43"
proof -
  have "length (replicate 32 (CHR ''x'')) = 32" "length (zero_sha ''v'') = 32" by (simp_all add: zero_sha_def)
  from verifier_is_well_formed [of _ zero_sha, OF this] show ?thesis by blast
qed

definition no_signin :: signin where
  "no_signin = \<lparr>pkce = [], tokens = OpenStore []\<rparr>"

theorem proof_key_is_bound_witness:
  "\<exists>page s1 q. start_page (\<lambda>_. []) zero_sha (Some ''v'') (Some ''s'') 1 no_signin = (Some page, s1)
    \<and> map_of page ''url'' = Some (AuthorizeEndpoint (\<lambda>_. []) @ ''?'' @ q) \<and> Some (''state'', ''73'') \<in> set (parse_query q)"
proof -
  have hex: "hex_encode ''s'' = ''73''" by code_simp
  then obtain page s1 where run: "start_page (\<lambda>_. []) zero_sha (Some ''v'') (Some ''s'') 1 no_signin = (Some page, s1)"
    "map_of page ''state'' = Some ''73''"
    by (simp add: start_page_def startPKCE_def Verifier_def)
  from proof_key_is_bound [OF run(1) refl run(2)] run(1) show ?thesis by blast
qed

end
