(* ===== verification/ProxyDial.thy ===== *)
theory ProxyDial
  imports OutboundPool
begin

text \<open>
  The dialers behind https and socks5 proxies, src/internal/outbound/proxy.go.  A dial is the list of what
  it does to the network, with the outcome of each of its calls as an argument; who closes the
  connection on an error is part of it.

  \<open>is_ip\<close> is \<open>net.ParseIP(..) != nil\<close>, \<open>user_of\<close> the name and password in the user part of a URL.
\<close>

section \<open>Addresses\<close>

text \<open>\<open>URL.Hostname\<close> and \<open>URL.Port\<close>\<close>

definition valid_optional_port :: "string \<Rightarrow> bool" where
  "valid_optional_port p = (case p of
      [] \<Rightarrow> True
    | c # ds \<Rightarrow> c = CHR '':'' \<and> list_all (\<lambda>d. 48 \<le> (of_char d :: nat) \<and> of_char d \<le> (57 :: nat)) ds)"

definition split_host_port :: "string \<Rightarrow> string \<times> string" where
  "split_host_port hp =
     (let (host, port) = (case str_last_index hp '':'' of
            None \<Rightarrow> (hp, [])
          | Some i \<Rightarrow> if valid_optional_port (drop i hp) then (take i hp, drop (i + 1) hp) else (hp, []))
      in if has_prefix host ''['' \<and> has_suffix host '']'' then (take (length host - 2) (drop 1 host), port)
         else (host, port))"

definition hostname :: "url \<Rightarrow> string" where
  "hostname u = fst (split_host_port (u_Host u))"

definition port :: "url \<Rightarrow> string" where
  "port u = snd (split_host_port (u_Host u))"

definition JoinHostPort :: "string \<Rightarrow> string \<Rightarrow> string" where
  "JoinHostPort host p = (if str_contains host '':'' then ''['' @ host @ '']:'' @ p else host @ '':'' @ p)"

section \<open>A proxy over TLS\<close>

datatype dial_error =
    OnlyTCP string
  | DialError string
  | TLSError string
  | WriteError string
  | ReadError string
  | ConnectRefused string string
  | ContextError string

datatype dial_step =
    DialTCP string
  | TLSHandshake string bool
  | SendConnect string "(string \<times> string) option"
  | CloseBody
  | CloseConn

text \<open>The outcomes of the calls of one dial, in their order; \<open>Inr\<close> of the last has status and bytes read
  past the answer's header.\<close>

record dial_world =
  dw_tcp :: "string option"
  dw_tls :: "string option"
  dw_write :: "string option"
  dw_answer :: "string + int \<times> string \<times> string"

definition proxy_address :: "url \<Rightarrow> string" where
  "proxy_address u = (if port u = [] then JoinHostPort (hostname u) ''443'' else u_Host u)"

definition insecure_proxy_tls :: "(string \<Rightarrow> string) \<Rightarrow> (string \<Rightarrow> bool) \<Rightarrow> url \<Rightarrow> bool" where
  "insecure_proxy_tls env is_ip u =
     (env ''M365_PROXY_INSECURE_TLS'' \<in> {''1'', ''true''} \<or> is_ip (hostname u))"

text \<open>A tunnel: what has been read past the header, and what is still to come.\<close>

record bufferedConn =
  buffered :: string
  incoming :: string

definition https_dial ::
    "(string \<Rightarrow> string) \<Rightarrow> (string \<Rightarrow> bool) \<Rightarrow> (string \<Rightarrow> string \<times> string) \<Rightarrow> dial_world \<Rightarrow> url \<Rightarrow> string \<Rightarrow> string
      \<Rightarrow> (dial_error + string) \<times> dial_step list" where
  "https_dial env is_ip user_of W u network address =
     (if network \<noteq> ''tcp'' then (Inl (OnlyTCP network), [])
      else let a = DialTCP (proxy_address u) in
      case dw_tcp W of
        Some e \<Rightarrow> (Inl (DialError e), [a])
      | None \<Rightarrow>
      let h = TLSHandshake (hostname u) (insecure_proxy_tls env is_ip u) in
      case dw_tls W of
        Some e \<Rightarrow> (Inl (TLSError e), [a, h, CloseConn])
      | None \<Rightarrow>
      let c = SendConnect address (map_option user_of (u_User u)) in
      case dw_write W of
        Some e \<Rightarrow> (Inl (WriteError e), [a, h, c, CloseConn])
      | None \<Rightarrow>
      (case dw_answer W of
        Inl e \<Rightarrow> (Inl (ReadError e), [a, h, c, CloseConn])
      | Inr (status, status_text, early) \<Rightarrow>
          if status \<noteq> 200 then (Inl (ConnectRefused address status_text), [a, h, c, CloseBody, CloseConn])
          else (Inr early, [a, h, c])))"

text \<open>\<open>Read\<close> into a slice of length \<open>n\<close>: first what is buffered, then up to \<open>k\<close> bytes that have arrived.\<close>

definition tunnel_read :: "nat \<Rightarrow> nat \<Rightarrow> bufferedConn \<Rightarrow> string \<times> bufferedConn" where
  "tunnel_read n k t =
     (if buffered t \<noteq> [] then (take n (buffered t), t\<lparr>buffered := drop n (buffered t)\<rparr>)
      else (take n (take k (incoming t)), t\<lparr>buffered := drop n (take k (incoming t)), incoming := drop k (incoming t)\<rparr>))"

fun tunnel_reads :: "(nat \<times> nat) list \<Rightarrow> bufferedConn \<Rightarrow> string \<times> bufferedConn" where
  "tunnel_reads [] t = ([], t)"
| "tunnel_reads ((n, k) # rs) t =
     (case tunnel_read n k t of (s, t1) \<Rightarrow> case tunnel_reads rs t1 of (s', t2) \<Rightarrow> (s @ s', t2))"

section \<open>A SOCKS5 proxy\<close>

text \<open>The library's dial takes no context: it runs in a goroutine of its own, and its outcome comes
  before or after the end of the context.\<close>

datatype socks_outcome = DialFirst "dial_error + string" | ContextFirst string "dial_error + string"

definition socks_dial :: "socks_outcome \<Rightarrow> (dial_error + string) \<times> dial_step list" where
  "socks_dial r = (case r of
      DialFirst x \<Rightarrow> (x, [])
    | ContextFirst e x \<Rightarrow> (Inl (ContextError e), case x of Inr _ \<Rightarrow> [CloseConn] | Inl _ \<Rightarrow> []))"

section \<open>Properties\<close>

text \<open>
  C39: a dial over a proxy with TLS hands out a connection only after the proxy has answered 200 to a CONNECT
  for exactly the address asked for, sent after the handshake with the proxy's own name; on any error
  after the connection to the proxy is open, it is closed.
\<close>
theorem https_dial_is_safe:
  assumes "https_dial env is_ip user_of W u network address = (x, steps)"
  shows "(case x of
      Inr early \<Rightarrow> network = ''tcp'' \<and> (\<exists>t. dw_answer W = Inr (200, t, early))
        \<and> steps = [DialTCP (proxy_address u), TLSHandshake (hostname u) (insecure_proxy_tls env is_ip u),
            SendConnect address (map_option user_of (u_User u))]
    | Inl e \<Rightarrow> dw_tcp W = None \<and> network = ''tcp'' \<longrightarrow> last steps = CloseConn)
    \<and> (\<forall>h. TLSHandshake h True \<in> set steps \<longrightarrow> env ''M365_PROXY_INSECURE_TLS'' \<in> {''1'', ''true''} \<or> is_ip (hostname u))"
  using assms
  by (auto simp: https_dial_def Let_def insecure_proxy_tls_def split: if_splits option.splits sum.splits)

lemma tunnel_read_stream:
  "tunnel_read n k t = (s, t') \<Longrightarrow> s @ buffered t' @ incoming t' = buffered t @ incoming t"
proof (cases "buffered t = []")
  case True
  assume "tunnel_read n k t = (s, t')"
  with True have "s = take n (take k (incoming t))" "buffered t' = drop n (take k (incoming t))"
    "incoming t' = drop k (incoming t)" by (auto simp: tunnel_read_def)
  with True show ?thesis by (metis append_assoc append_take_drop_id append_Nil)
qed (auto simp: tunnel_read_def)

text \<open>
  no byte is lost between the proxy's answer and the tunnel: whatever sizes the reads have, they yield
  what was read past the header and then what comes in.
\<close>
theorem tunnel_loses_nothing:
  assumes "tunnel_reads rs t = (s, t')"
  shows "s @ buffered t' @ incoming t' = buffered t @ incoming t"
  using assms
proof (induction rs arbitrary: t s t')
  case (Cons r rs)
  obtain n k where r: "r = (n, k)" by fastforce
  obtain a t1 where 1: "tunnel_read n k t = (a, t1)" by fastforce
  obtain b t2 where 2: "tunnel_reads rs t1 = (b, t2)" by fastforce
  from Cons.prems r 1 2 have "s = a @ b" "t' = t2" by auto
  with tunnel_read_stream [OF 1] Cons.IH [OF 2] show ?case by simp
qed simp

text \<open>
  a connection that a SOCKS5 dial opens is handed out or closed, also when it comes too late.
\<close>
theorem socks_dial_leaks_nothing:
  "case r of
     DialFirst x \<Rightarrow> socks_dial r = (x, [])
   | ContextFirst e (Inr c) \<Rightarrow> socks_dial r = (Inl (ContextError e), [CloseConn])
   | ContextFirst e (Inl e') \<Rightarrow> socks_dial r = (Inl (ContextError e), [])"
  by (simp add: socks_dial_def split: socks_outcome.split sum.split)

section \<open>Witnesses\<close>

definition open_proxy :: url where
  "open_proxy = \<lparr>u_Scheme = ''https'', u_Host = ''p.example'', u_Path = [], u_RawQuery = [], u_Fragment = [],
     u_User = Some ''me:pw''\<rparr>"

definition good_world :: dial_world where
  "good_world = \<lparr>dw_tcp = None, dw_tls = None, dw_write = None, dw_answer = Inr (200, ''200 OK'', ''x'')\<rparr>"

lemma open_dial:
  "https_dial (\<lambda>_. []) (\<lambda>_. False) (\<lambda>_. (''me'', ''pw'')) good_world open_proxy ''tcp'' ''t:443''
    = (Inr ''x'', [DialTCP ''p.example:443'', TLSHandshake ''p.example'' False, SendConnect ''t:443'' (Some (''me'', ''pw''))])"
  by code_simp

theorem https_dial_is_safe_witness:
  "proxy_address open_proxy = ''p.example:443'' \<and> (\<exists>t. dw_answer good_world = Inr (200, t, ''x''))"
  using https_dial_is_safe [OF open_dial] by simp

theorem tunnel_loses_nothing_witness:
  "fst (tunnel_reads [(1, 4), (9, 9), (9, 9)] \<lparr>buffered = ''ab'', incoming = ''cd''\<rparr>) = ''abcd''"
proof -
  have "tunnel_reads [(1, 4), (9, 9), (9, 9)] \<lparr>buffered = ''ab'', incoming = ''cd''\<rparr>
      = (''abcd'', \<lparr>buffered = [], incoming = []\<rparr>)" by code_simp
  from tunnel_loses_nothing [OF this] this show ?thesis by simp
qed

end
