(* ===== verification/LivePools.thy ===== *)
theory LivePools
  imports Settings
begin

text \<open>
  Which proxies the connections of the chat service go through while the console changes the pool:
  \<open>NewClient\<close> (src/internal/chathub/client.go) keeps the client and the dialer it was given at the
  start, and every change of the pool (src/internal/outbound/proxy.go) makes a new \<open>Pool\<close>.

  Who shares which pool matters here, so the pools live in a store, by address; \<open>view\<close> forgets the
  addresses and gives the package state of OutboundPool.
\<close>

section \<open>The store of pools\<close>

record live =
  lv_pools :: "pool list"
  lv_current :: "nat option"
  lv_clients :: transport

definition view :: "live \<Rightarrow> outbound" where
  "view l = \<lparr>ob_clients = lv_clients l, ob_pool = map_option ((!) (lv_pools l)) (lv_current l)\<rparr>"

definition live_ok :: "live \<Rightarrow> bool" where
  "live_ok l \<longleftrightarrow> (\<forall>a. lv_current l = Some a \<longrightarrow> a < length (lv_pools l))"

definition set_pool :: "nat \<Rightarrow> pool \<Rightarrow> live \<Rightarrow> live" where
  "set_pool a p l = l\<lparr>lv_pools := (lv_pools l)[a := p]\<rparr>"

definition install_pool :: "netlib \<Rightarrow> string list \<Rightarrow> live \<Rightarrow> proxy_error option \<times> live" where
  "install_pool N raws l = (case NewPool N raws of
      Inl e \<Rightarrow> (Some e, l)
    | Inr p \<Rightarrow> (None, l\<lparr>lv_pools := lv_pools l @ [p], lv_current := Some (length (lv_pools l))\<rparr>))"

definition live_add :: "netlib \<Rightarrow> string \<Rightarrow> live \<Rightarrow> proxy_error option \<times> live" where
  "live_add N r l = (case lv_current l of
      None \<Rightarrow> install_pool N [r] l
    | Some a \<Rightarrow> install_pool N (map raw (entries (lv_pools l ! a)) @ [r]) l)"

definition live_remove :: "netlib \<Rightarrow> string \<Rightarrow> live \<Rightarrow> proxy_error option \<times> live" where
  "live_remove N r0 l =
     (let r = normal_url r0 in
      case lv_current l of
        None \<Rightarrow> (None, l)
      | Some a \<Rightarrow>
          let urls = map raw (entries (lv_pools l ! a)) in
          if \<not> list_ex (\<lambda>v. normal_url v = r) urls then (Some (ProxyNotFound r), l)
          else install_pool N (filter (\<lambda>v. normal_url v \<noteq> r) urls) l)"

definition live_check :: "(string \<Rightarrow> probe \<times> duration \<times> instant) \<Rightarrow> live \<Rightarrow> live" where
  "live_check world l = (case lv_current l of
      None \<Rightarrow> l
    | Some a \<Rightarrow> set_pool a (CheckAll world (lv_pools l ! a)) l)"

section \<open>The connections of the chat service\<close>

text \<open>
  An \<open>http.Client\<close>: its transport, and the pool and the entry its round tripper reports to.  A
  dialer: that of a pool with its sticky entry, or the copy of the single one.
\<close>

type_synonym http_client = "transport \<times> (nat \<times> string) option"

datatype dialer = PoolDialer nat "poolEntry option" | OneDialer transport

record chat_client =
  cc_http :: http_client
  cc_dialer :: dialer

definition live_client :: "instant \<Rightarrow> live \<Rightarrow> http_client \<times> live" where
  "live_client now l = (case lv_current l of
      None \<Rightarrow> ((lv_clients l, None), l)
    | Some a \<Rightarrow> (case pick now (lv_pools l ! a) of
        (Some e, p1) \<Rightarrow> ((clients e, Some (a, raw e)), set_pool a p1 l)
      | (None, p1) \<Rightarrow> ((Direct, None), set_pool a p1 l)))"

definition live_dialer :: "live \<Rightarrow> dialer" where
  "live_dialer l = (case lv_current l of
      None \<Rightarrow> OneDialer (lv_clients l)
    | Some a \<Rightarrow> PoolDialer a None)"

definition NewClient :: "instant \<Rightarrow> live \<Rightarrow> chat_client \<times> live" where
  "NewClient now l =
     (let (h, l1) = live_client now l in (\<lparr>cc_http = h, cc_dialer = live_dialer l1\<rparr>, l1))"

definition client_do :: "(transport \<Rightarrow> bool) \<Rightarrow> instant \<Rightarrow> http_client \<Rightarrow> live \<Rightarrow> transport \<times> live" where
  "client_do request_fails now h l = (case h of
      (t, None) \<Rightarrow> (t, l)
    | (t, Some (a, r)) \<Rightarrow> (t, set_pool a (mark r (request_fails t) now (lv_pools l ! a)) l))"

text \<open>Where the dialer's own connection goes; a single HTTP proxy is used, one of a pool is not.\<close>

definition dialer_dial ::
    "(transport \<Rightarrow> bool) \<Rightarrow> instant \<Rightarrow> dialer \<Rightarrow> live \<Rightarrow> transport \<times> dialer \<times> live" where
  "dialer_dial dial_fails now d l = (case d of
      OneDialer t \<Rightarrow> (t, d, l)
    | PoolDialer a sticky \<Rightarrow>
        (case ws_dial dial_fails now sticky (lv_pools l ! a) of
           (route, _, sticky1, p1) \<Rightarrow> (route, PoolDialer a sticky1, set_pool a p1 l)))"

definition chat_dial ::
    "(transport \<Rightarrow> bool) \<Rightarrow> instant \<Rightarrow> chat_client \<times> live \<Rightarrow> transport \<times> chat_client \<times> live" where
  "chat_dial dial_fails now s = (case dialer_dial dial_fails now (cc_dialer (fst s)) (snd s) of
      (route, d, l) \<Rightarrow> (route, (fst s)\<lparr>cc_dialer := d\<rparr>, l))"

definition chat_upload ::
    "(transport \<Rightarrow> bool) \<Rightarrow> instant \<Rightarrow> chat_client \<times> live \<Rightarrow> transport \<times> chat_client \<times> live" where
  "chat_upload request_fails now s = (case client_do request_fails now (cc_http (fst s)) (snd s) of
      (t, l) \<Rightarrow> (t, fst s, l))"

text \<open>A request for tokens takes a client of its own.\<close>

definition token_request ::
    "(transport \<Rightarrow> bool) \<Rightarrow> instant \<Rightarrow> instant \<Rightarrow> live \<Rightarrow> transport \<times> live" where
  "token_request request_fails t0 t1 l =
     (let (h, l1) = live_client t0 l in client_do request_fails t1 h l1)"

text \<open>What happens after the start, in any order.\<close>

inductive live_step :: "netlib \<Rightarrow> chat_client \<times> live \<Rightarrow> chat_client \<times> live \<Rightarrow> bool" for N where
  settings_saved: "install_pool N urls l = (e, l') \<Longrightarrow> live_step N (c, l) (c, l')"
| proxy_added: "live_add N r l = (e, l') \<Longrightarrow> live_step N (c, l) (c, l')"
| proxy_removed: "live_remove N r l = (e, l') \<Longrightarrow> live_step N (c, l) (c, l')"
| proxies_checked: "live_step N (c, l) (c, live_check world l)"
| token_requested: "token_request fails t0 t1 l = (t, l') \<Longrightarrow> live_step N (c, l) (c, l')"
| chat_dialed: "chat_dial fails now s = (t, s') \<Longrightarrow> live_step N s s'"
| image_uploaded: "chat_upload fails now s = (t, s') \<Longrightarrow> live_step N s s'"

section \<open>The store implements the package state\<close>

lemma view_set_pool: "lv_current l = Some a \<Longrightarrow> live_ok l \<Longrightarrow> view (set_pool a p l) = (view l)\<lparr>ob_pool := Some p\<rparr>"
  by (simp add: view_def set_pool_def live_ok_def)

lemma install_pool_view: "live_ok l \<Longrightarrow>
    (fst (install_pool N raws l), view (snd (install_pool N raws l))) = ConfigurePool N raws (view l)"
  by (simp add: install_pool_def ConfigurePool_def view_def split: sum.split)

text \<open>
  the store of pools implements the package state: the console's changes, a health check and the
  choice of a client give the same result and the same state when the addresses are forgotten.
\<close>
theorem live_pools_refine_package_state:
  assumes "live_ok l"
  shows "(fst (install_pool N raws l), view (snd (install_pool N raws l))) = ConfigurePool N raws (view l)
    \<and> (fst (live_add N r l), view (snd (live_add N r l))) = AddProxy N r (view l)
    \<and> (fst (live_remove N r l), view (snd (live_remove N r l))) = RemoveProxy N r (view l)
    \<and> (case live_client now l of ((t, tag), l') \<Rightarrow> (t, map_option snd tag, view l')) = HTTPClient now (view l)"
proof (intro conjI)
  show "(fst (install_pool N raws l), view (snd (install_pool N raws l))) = ConfigurePool N raws (view l)"
    by (rule install_pool_view [OF assms])
  show "(fst (live_add N r l), view (snd (live_add N r l))) = AddProxy N r (view l)"
    using install_pool_view [OF assms]
    by (cases "lv_current l") (simp_all add: live_add_def AddProxy_def view_def)
  show "(fst (live_remove N r l), view (snd (live_remove N r l))) = RemoveProxy N r (view l)"
    using install_pool_view [OF assms]
    by (cases "lv_current l") (auto simp: live_remove_def RemoveProxy_def view_def Let_def)
  show "(case live_client now l of ((t, tag), l') \<Rightarrow> (t, map_option snd tag, view l')) = HTTPClient now (view l)"
    using view_set_pool assms
    by (cases "lv_current l") (auto simp: live_client_def HTTPClient_def view_def split: prod.split option.split)
qed

section \<open>What a pool is made of\<close>

definition makeup :: "pool \<Rightarrow> (string \<times> transport) list" where
  "makeup p = map (\<lambda>e. (raw e, clients e)) (entries p)"

lemma makeup_update: "(\<And>e. raw (f e) = raw e \<and> clients (f e) = clients e) \<Longrightarrow>
    makeup (p\<lparr>entries := update_first q f (entries p)\<rparr>) = makeup p"
  by (simp add: makeup_def map_update_first_same)

lemma makeup_mark [simp]: "makeup (mark r failed now p) = makeup p"
  unfolding mark_def by (rule makeup_update) (simp add: mark_entry_def Let_def)

lemma makeup_health [simp]: "makeup (setHealth r status p) = makeup p"
  unfolding setHealth_def by (rule makeup_update) simp

lemma makeup_note [simp]: "makeup (note_check r now lat err p) = makeup p"
  unfolding note_check_def by (rule makeup_update) simp

lemma makeup_pick [simp]: "makeup (snd (pick now p)) = makeup p"
  by (simp add: makeup_def)

lemma makeup_Check [simp]: "makeup (fst (Check r outcome lat now p)) = makeup p"
  by (cases outcome) (simp_all add: Check_def Let_def)

lemma makeup_check_one [simp]: "makeup (check_one world p r) = makeup p"
proof -
  obtain outcome lat now where w: "world r = (outcome, lat, now)" by (cases "world r")
  obtain p1 lat1 err where c: "Check r outcome lat now p = (p1, lat1, err)" by (cases "Check r outcome lat now p")
  then have "makeup p1 = makeup p" using makeup_Check [of r outcome lat now p] by simp
  with w c show ?thesis by (simp add: check_one_def)
qed

lemma makeup_CheckAll [simp]: "makeup (CheckAll world p) = makeup p"
proof -
  have "makeup (foldl (check_one world) p rs) = makeup p" for rs by (induction rs arbitrary: p) simp_all
  then show ?thesis by (simp add: CheckAll_def)
qed

definition one_of :: "(string \<times> transport) list \<Rightarrow> poolEntry option \<Rightarrow> bool" where
  "one_of m e \<longleftrightarrow> (case e of None \<Rightarrow> True | Some x \<Rightarrow> (raw x, clients x) \<in> set m)"

text \<open>The routes a dial of the pool's dialer can take.\<close>

definition dial_routes :: "(string \<times> transport) list \<Rightarrow> transport set" where
  "dial_routes m = (if m = [] then {Direct} else ws_route ` snd ` set m)"

lemma ws_dial_routes:
  assumes "ws_dial fails now sticky p = (route, failed, sticky', p')" and "one_of (makeup p) sticky"
  shows "route \<in> dial_routes (makeup p) \<and> one_of (makeup p) sticky' \<and> makeup p' = makeup p"
proof (cases sticky)
  case (Some e)
  with assms have "(raw e, clients e) \<in> set (makeup p)" "route = ws_route (clients e)" "makeup p' = makeup p"
      "sticky' = (if failed then None else Some e)"
    by (auto simp: ws_dial_def Let_def one_of_def)
  then show ?thesis by (force simp: dial_routes_def one_of_def)
next
  case None
  show ?thesis
  proof (cases "entries p = []")
    case True
    with None assms(1) show ?thesis
      by (simp add: ws_dial_def pick_empty dial_routes_def makeup_def one_of_def)
  next
    case False
    then obtain e where e: "fst (pick now p) = Some e" "e \<in> set (entries p)" using pick_some by blast
    obtain p1 where pk: "pick now p = (Some e, p1)" by (cases "pick now p") (use e in simp)
    have "(raw e, clients e) \<in> set (makeup p)" using e(2) by (auto simp: makeup_def)
    moreover have "route = ws_route (clients e)" "sticky' = (if failed then None else Some e)" "p' = mark (raw e) failed now p1"
      using assms(1) None pk by (auto simp: ws_dial_def Let_def)
    moreover have "makeup p1 = makeup p" using makeup_pick [of now p] pk by simp
    ultimately show ?thesis by (force simp: dial_routes_def one_of_def)
  qed
qed

section \<open>The connections keep what they were given\<close>

text \<open>The pools of \<open>l\<close> are still there in \<open>l'\<close>, made up of the same proxies.\<close>

definition same_pools :: "live \<Rightarrow> live \<Rightarrow> bool" where
  "same_pools l l' \<longleftrightarrow> live_ok l' \<and> length (lv_pools l) \<le> length (lv_pools l')
     \<and> (\<forall>a < length (lv_pools l). makeup (lv_pools l' ! a) = makeup (lv_pools l ! a))"

lemma same_pools_refl: "live_ok l \<Longrightarrow> same_pools l l"
  by (simp add: same_pools_def)

lemma same_pools_set: "live_ok l \<Longrightarrow> makeup p = makeup (lv_pools l ! a) \<Longrightarrow> same_pools l (set_pool a p l)"
  by (cases "a < length (lv_pools l)") (auto simp: same_pools_def set_pool_def live_ok_def nth_list_update)

lemma same_pools_trans: "same_pools l l' \<Longrightarrow> same_pools l' l'' \<Longrightarrow> same_pools l l''"
  by (auto simp: same_pools_def)

lemma install_same: "live_ok l \<Longrightarrow> install_pool N us l = (e, l') \<Longrightarrow> same_pools l l'"
  by (auto simp: install_pool_def same_pools_def live_ok_def nth_append split: sum.splits)

lemma add_same: "live_ok l \<Longrightarrow> live_add N r l = (e, l') \<Longrightarrow> same_pools l l'"
  using install_same by (auto simp: live_add_def split: option.splits)

lemma remove_same: "live_ok l \<Longrightarrow> live_remove N r l = (e, l') \<Longrightarrow> same_pools l l'"
  using install_same by (auto simp: live_remove_def Let_def same_pools_refl split: option.splits if_splits)

lemma check_same: "live_ok l \<Longrightarrow> same_pools l (live_check world l)"
  by (auto simp: live_check_def same_pools_refl intro: same_pools_set split: option.split)

lemma client_same: "live_ok l \<Longrightarrow> live_client now l = (h, l') \<Longrightarrow> same_pools l l'"
proof (cases "lv_current l")
  case (Some a)
  assume l: "live_ok l" "live_client now l = (h, l')"
  obtain e p1 where pk: "pick now (lv_pools l ! a) = (e, p1)" by (cases "pick now (lv_pools l ! a)")
  then have "makeup p1 = makeup (lv_pools l ! a)" using makeup_pick [of now "lv_pools l ! a"] by simp
  moreover have "l' = set_pool a p1 l" using l(2) Some pk by (auto simp: live_client_def split: option.splits)
  ultimately show "same_pools l l'" using same_pools_set [OF l(1)] by simp
qed (auto simp: live_client_def same_pools_refl)

lemma do_same: "live_ok l \<Longrightarrow> client_do fails now h l = (t, l') \<Longrightarrow> same_pools l l'"
  by (auto simp: client_do_def same_pools_refl intro!: same_pools_set split: prod.splits option.splits)

lemma token_same: "live_ok l \<Longrightarrow> token_request fails t0 t1 l = (t, l') \<Longrightarrow> same_pools l l'"
proof -
  assume l: "live_ok l" "token_request fails t0 t1 l = (t, l')"
  obtain h l1 where h: "live_client t0 l = (h, l1)" by (cases "live_client t0 l")
  from client_same [OF l(1) h] have s1: "same_pools l l1" .
  then have "live_ok l1" by (simp add: same_pools_def)
  with l(2) h have "same_pools l1 l'" by (simp add: token_request_def do_same)
  with s1 show "same_pools l l'" by (rule same_pools_trans)
qed

text \<open>The chat service's client \<open>s0\<close> had at the start, and the one it has now.\<close>

definition dialer_kept :: "live \<Rightarrow> dialer \<Rightarrow> dialer \<Rightarrow> bool" where
  "dialer_kept l0 d0 d \<longleftrightarrow> (case d0 of
      OneDialer t \<Rightarrow> d = OneDialer t
    | PoolDialer a _ \<Rightarrow> a < length (lv_pools l0)
        \<and> (\<exists>sticky. d = PoolDialer a sticky \<and> one_of (makeup (lv_pools l0 ! a)) sticky))"

definition kept :: "chat_client \<times> live \<Rightarrow> chat_client \<times> live \<Rightarrow> bool" where
  "kept s0 s \<longleftrightarrow> same_pools (snd s0) (snd s) \<and> cc_http (fst s) = cc_http (fst s0)
     \<and> dialer_kept (snd s0) (cc_dialer (fst s0)) (cc_dialer (fst s))"

lemma kept_same: "kept s0 (c, l) \<Longrightarrow> (live_ok l \<Longrightarrow> same_pools l l') \<Longrightarrow> kept s0 (c, l')"
  using same_pools_trans by (auto simp: kept_def same_pools_def)

definition start_routes :: "chat_client \<times> live \<Rightarrow> transport set" where
  "start_routes s0 = (case cc_dialer (fst s0) of
      OneDialer t \<Rightarrow> {t}
    | PoolDialer a _ \<Rightarrow> dial_routes (makeup (lv_pools (snd s0) ! a)))"

lemma kept_dial:
  assumes "kept s0 s" and "chat_dial fails now s = (t, s')"
  shows "kept s0 s' \<and> t \<in> start_routes s0"
proof (cases "cc_dialer (fst s0)")
  case (OneDialer u)
  with assms show ?thesis
    by (auto simp: kept_def dialer_kept_def chat_dial_def dialer_dial_def start_routes_def)
next
  case (PoolDialer a x)
  then obtain sticky where d: "cc_dialer (fst s) = PoolDialer a sticky" "a < length (lv_pools (snd s0))"
      "one_of (makeup (lv_pools (snd s0) ! a)) sticky"
    using assms(1) by (auto simp: kept_def dialer_kept_def)
  have sp: "same_pools (snd s0) (snd s)" using assms(1) by (simp add: kept_def)
  then have m: "makeup (lv_pools (snd s) ! a) = makeup (lv_pools (snd s0) ! a)" "live_ok (snd s)"
    using d(2) by (simp_all add: same_pools_def)
  obtain route failed st1 p1 where w: "ws_dial fails now sticky (lv_pools (snd s) ! a) = (route, failed, st1, p1)"
    by (cases "ws_dial fails now sticky (lv_pools (snd s) ! a)")
  have s': "t = route" "s' = ((fst s)\<lparr>cc_dialer := PoolDialer a st1\<rparr>, set_pool a p1 (snd s))"
    using assms(2) d(1) w by (auto simp: chat_dial_def dialer_dial_def)
  note r = ws_dial_routes [OF w, unfolded m(1), OF d(3)]
  have "same_pools (snd s) (snd s')"
    using r m by (simp add: s'(2) same_pools_set)
  with sp have "same_pools (snd s0) (snd s')" by (rule same_pools_trans)
  with r d(2) assms(1) PoolDialer show ?thesis
    by (auto simp: kept_def dialer_kept_def start_routes_def s')
qed

lemma kept_upload: "kept s0 s \<Longrightarrow> chat_upload fails now s = (t, s') \<Longrightarrow> kept s0 s' \<and> t = fst (cc_http (fst s0))"
proof -
  assume k: "kept s0 s" and u: "chat_upload fails now s = (t, s')"
  obtain l' where d: "client_do fails now (cc_http (fst s)) (snd s) = (t, l')" "s' = (fst s, l')"
    using u by (auto simp: chat_upload_def split: prod.splits)
  have "live_ok (snd s) \<Longrightarrow> same_pools (snd s) l'" by (rule do_same [OF _ d(1)])
  then have "kept s0 s'" using k kept_same [of s0 "fst s" "snd s" l'] by (simp add: d(2))
  moreover have "t = fst (cc_http (fst s))" using d(1) by (auto simp: client_do_def split: prod.splits option.splits)
  ultimately show ?thesis using k by (simp add: kept_def)
qed

lemma kept_step: "live_step N s s' \<Longrightarrow> kept s0 s \<Longrightarrow> kept s0 s'"
proof (induction rule: live_step.induct)
  case (chat_dialed fails now s t s')
  then show ?case using kept_dial by blast
next
  case (image_uploaded fails now s t s')
  then show ?case using kept_upload by blast
qed (blast intro: kept_same install_same add_same remove_same check_same token_same)+

lemma kept_start: "live_ok l0 \<Longrightarrow> NewClient now l0 = (c, l) \<Longrightarrow> kept (c, l) (c, l)"
proof -
  assume l0: "live_ok l0" and n: "NewClient now l0 = (c, l)"
  have lc: "live_client now l0 = (cc_http c, l)" and d: "cc_dialer c = live_dialer l"
    using n by (auto simp: NewClient_def split: prod.splits)
  have "live_ok l" using client_same [OF l0 lc] by (simp add: same_pools_def)
  then show "kept (c, l) (c, l)"
    using d by (auto simp: kept_def same_pools_refl dialer_kept_def live_dialer_def live_ok_def one_of_def
        split: option.split)
qed

lemma start_routes_start:
  assumes "live_ok l0" and "NewClient now l0 = (c, l)"
  shows "start_routes (c, l) =
    (case lv_current l0 of None \<Rightarrow> {lv_clients l0} | Some a \<Rightarrow> dial_routes (makeup (lv_pools l0 ! a)))"
proof -
  have lc: "live_client now l0 = (cc_http c, l)" and d: "cc_dialer c = live_dialer l"
    using assms(2) by (auto simp: NewClient_def split: prod.splits)
  have "lv_current l = lv_current l0" "lv_clients l = lv_clients l0"
    using lc by (auto simp: live_client_def set_pool_def split: option.splits prod.splits)
  moreover have "makeup (lv_pools l ! a) = makeup (lv_pools l0 ! a)" if "lv_current l0 = Some a" for a
    using client_same [OF assms(1) lc] assms(1) that by (simp add: same_pools_def live_ok_def)
  ultimately show ?thesis
    using d by (auto simp: start_routes_def live_dialer_def split: option.split)
qed



definition one_pool :: live where
  "one_pool = \<lparr>lv_pools = [\<lparr>entries = [new_entry ''a'' (ViaSOCKS5 (any_url ''a''))], next_index = 0\<rparr>],
     lv_current = Some 0, lv_clients = Direct\<rparr>"

lemma pick_only: "pick now \<lparr>entries = [e], next_index = 0\<rparr> = (Some e, \<lparr>entries = [e], next_index = 0\<rparr>)"
  by (simp add: pick_def slot_def)


end
