(* ===== verification/Startup.thy ===== *)
theory Startup
  imports Settings AdminSecurity
begin

text \<open>
  Where the process keeps its files and what it finds there at the next start: the paths from the
  environment (\<open>settingsPath\<close>, src/internal/web/settings.go; \<open>adminPasswordPath\<close>, admin_security.go;
  \<open>CachePath\<close>, src/internal/auth/cache.go; the stores of keys, sessions, records and deployments),
  and the start of \<open>main\<close> up to the administrator's password.

  The file system is a map from paths to contents.  \<open>os.UserHomeDir\<close> and \<open>os.TempDir\<close> are those of a
  Unix system, which read \<open>HOME\<close> and \<open>TMPDIR\<close>.
\<close>

section \<open>Paths\<close>

text \<open>\<open>filepath.Clean\<close>, \<open>filepath.Join\<close> and \<open>filepath.Dir\<close>\<close>

definition clean_step :: "bool \<Rightarrow> string list \<Rightarrow> string \<Rightarrow> string list" where
  "clean_step rooted out c =
     (if c = [] \<or> c = ''.'' then out
      else if c = ''..'' then
        (if out \<noteq> [] \<and> last out \<noteq> ''..'' then butlast out else if rooted then out else out @ [c])
      else out @ [c])"

definition clean_path :: "string \<Rightarrow> string" where
  "clean_path p =
     (let rooted = has_prefix p ''/'';
          r = (if rooted then ''/'' else []) @ str_join ''/'' (foldl (clean_step rooted) [] (str_split (CHR ''/'') p))
      in if r = [] then ''.'' else r)"

definition join_path :: "string list \<Rightarrow> string" where
  "join_path parts =
     (case dropWhile (\<lambda>e. e = []) parts of [] \<Rightarrow> [] | es \<Rightarrow> clean_path (str_join ''/'' es))"

definition dir_path :: "string \<Rightarrow> string" where
  "dir_path p = (case str_last_index p ''/'' of None \<Rightarrow> ''.'' | Some i \<Rightarrow> clean_path (take (i + 1) p))"

definition user_home :: "environment \<Rightarrow> string" where
  "user_home env = getenv env ''HOME''"

definition temp_dir :: "environment \<Rightarrow> string" where
  "temp_dir env = (if getenv env ''TMPDIR'' = [] then ''/tmp'' else getenv env ''TMPDIR'')"

definition settingsPath :: "environment \<Rightarrow> string" where
  "settingsPath env =
     (let dir = trim_space (getenv env ''M365_DATA_DIR''); p = trim_space (getenv env ''M365_SETTINGS_FILE'')
      in if dir \<noteq> [] then join_path [dir, ''settings.json'']
         else if p \<noteq> [] then p
         else join_path [user_home env, ''.config'', ''m365-native'', ''settings.json''])"

definition adminPasswordPath :: "environment \<Rightarrow> string" where
  "adminPasswordPath env =
     (let dir = trim_space (getenv env ''M365_DATA_DIR''); p = trim_space (getenv env ''M365_ADMIN_PASSWORD_FILE'');
          c = trim_space (getenv env ''M365_CONFIG'')
      in if dir \<noteq> [] then join_path [dir, ''admin-password'']
         else if p \<noteq> [] then p
         else if c \<noteq> [] then join_path [dir_path c, ''admin-password'']
         else join_path [user_home env, ''.config'', ''m365-native'', ''admin-password''])"

definition CachePath :: "environment \<Rightarrow> string" where
  "CachePath env =
     (if getenv env ''M365_DATA_DIR'' \<noteq> [] then join_path [getenv env ''M365_DATA_DIR'', ''accounts.json'']
      else if getenv env ''M365_CONFIG'' \<noteq> [] then getenv env ''M365_CONFIG''
      else if getenv env ''M365_TOKEN_CACHE'' \<noteq> [] then getenv env ''M365_TOKEN_CACHE''
      else if getenv env ''M365_TOKEN_FILE'' \<noteq> [] then getenv env ''M365_TOKEN_FILE''
      else if user_home env = [] then join_path [''.'', ''.config'', ''m365-native'', ''accounts.json'']
      else join_path [user_home env, ''.config'', ''m365-native'', ''accounts.json''])"

definition keys_path :: "environment \<Rightarrow> string" where
  "keys_path env =
     (let p = trim_space (getenv env ''M365_API_KEYS'')
      in if p = [] then join_path [user_home env, ''.config'', ''m365-native'', ''api-keys.json''] else p)"

definition sessions_path :: "environment \<Rightarrow> string" where
  "sessions_path env =
     (let p = getenv env ''M365_SESSION_CACHE''
      in if p = [] then join_path [temp_dir env, ''m365-native-sessions.json''] else p)"

definition debug_path :: "environment \<Rightarrow> string" where
  "debug_path env =
     (let p = trim_space (getenv env ''M365_DEBUG_LOG'') in if p = [] then ''debug-logs.jsonl'' else p)"

definition deployments_path :: "environment \<Rightarrow> string" where
  "deployments_path env =
     (let dir = getenv env ''M365_DATA_DIR''
      in join_path [if dir = [] then join_path [user_home env, ''.config'', ''m365-native''] else dir,
           ''deployments.json''])"

text \<open>\<open>M365_LISTEN\<close>\<close>

definition listen_address :: "environment \<Rightarrow> string" where
  "listen_address env = (if getenv env ''M365_LISTEN'' = [] then ''127.0.0.1:4141'' else getenv env ''M365_LISTEN'')"

section \<open>A start\<close>

type_synonym files = "string \<Rightarrow> string option"

text \<open>A file that is absent or cannot be read counts as empty wherever this is used.\<close>

definition contents :: "files \<Rightarrow> string \<Rightarrow> string" where
  "contents F p = (case F p of None \<Rightarrow> [] | Some c \<Rightarrow> c)"

text \<open>\<open>decode\<close> is what \<open>json.Unmarshal\<close> does to the defaults when it reads the settings file.\<close>

definition saved_settings :: "(string \<Rightarrow> runtimeSettings \<Rightarrow> runtimeSettings) \<Rightarrow> environment \<Rightarrow> files \<Rightarrow> runtimeSettings" where
  "saved_settings decode env F =
     set_v (openSettingsStore env (case F (settingsPath env) of None \<Rightarrow> \<lambda>v. v | Some b \<Rightarrow> decode b))"

definition process_env :: "(string \<Rightarrow> runtimeSettings \<Rightarrow> runtimeSettings) \<Rightarrow> environment \<Rightarrow> files \<Rightarrow> environment" where
  "process_env decode env F = ApplyStartupSettingsEnv (saved_settings decode env F) env"

text \<open>The password of the process and whether it must be changed; \<open>env\<close> is the process's.\<close>

definition start_password :: "environment \<Rightarrow> files \<Rightarrow> string \<times> bool" where
  "start_password env F =
     (let bootstrap = trim_space (getenv env ''M365_ADMIN_PASSWORD_BOOTSTRAP_FILE'')
      in loadAdminPassword (contents F (adminPasswordPath env)) (if bootstrap = [] then [] else contents F bootstrap)
           (getenv env ''M365_ADMIN_PASSWORD''))"

text \<open>The two files the console writes in between.\<close>

definition write_password :: "environment \<Rightarrow> string \<Rightarrow> files \<Rightarrow> files" where
  "write_password env p F = F(adminPasswordPath env \<mapsto> p @ [CHR 0x0A])"

definition write_settings :: "environment \<Rightarrow> string \<Rightarrow> files \<Rightarrow> files" where
  "write_settings env b F = F(settingsPath env \<mapsto> b)"

section \<open>The environment of the process\<close>

lemma startup_names: "map fst (startup_values s) =
    [''M365_LISTEN'', ''M365_CONFIG'', ''M365_TOKEN_CACHE'', ''M365_SESSION_CACHE'', ''M365_OUTBOUND_PROXY'',
     ''M365_PROXY_POOL'', ''M365_CLIENT_ID'', ''M365_AUTHORITY'', ''M365_REDIRECT_URI'', ''M365_SCOPE'',
     ''M365_DEBUG_LOG'']"
  by (simp add: startup_values_def)

text \<open>Names the settings do not speak about keep their values.\<close>

lemma getenv_other: "k \<notin> fst ` set (startup_values s) \<Longrightarrow> getenv (ApplyStartupSettingsEnv s env) k = getenv env k"
proof -
  assume k: "k \<notin> fst ` set (startup_values s)"
  have "map_of (filter q (startup_values s)) k = None" for q
    using k by (auto simp: map_of_eq_None_iff)
  then show ?thesis
    by (simp add: getenv_def ApplyStartupSettingsEnv_def set_if_unset_foldl split: option.split)
qed

lemma process_other [simp]:
  "getenv (ApplyStartupSettingsEnv s env) ''M365_DATA_DIR'' = getenv env ''M365_DATA_DIR''"
  "getenv (ApplyStartupSettingsEnv s env) ''M365_ADMIN_PASSWORD_FILE'' = getenv env ''M365_ADMIN_PASSWORD_FILE''"
  "getenv (ApplyStartupSettingsEnv s env) ''M365_ADMIN_PASSWORD_BOOTSTRAP_FILE''
      = getenv env ''M365_ADMIN_PASSWORD_BOOTSTRAP_FILE''"
  "getenv (ApplyStartupSettingsEnv s env) ''M365_ADMIN_PASSWORD'' = getenv env ''M365_ADMIN_PASSWORD''"
  "getenv (ApplyStartupSettingsEnv s env) ''M365_SETTINGS_FILE'' = getenv env ''M365_SETTINGS_FILE''"
  "getenv (ApplyStartupSettingsEnv s env) ''HOME'' = getenv env ''HOME''"
  "getenv (ApplyStartupSettingsEnv s env) ''TMPDIR'' = getenv env ''TMPDIR''"
  "getenv (ApplyStartupSettingsEnv s env) ''M365_TOKEN_FILE'' = getenv env ''M365_TOKEN_FILE''"
  by (rule getenv_other, simp add: startup_values_def)+

lemma startup_lookup:
  assumes "env k = None" and "(k, v) \<in> set (startup_values s)"
  shows "getenv (ApplyStartupSettingsEnv s env) k = (if trim_space v = [] then [] else v)"
proof -
  have d: "distinct (map fst (startup_values s))" by (simp add: startup_names)
  then show ?thesis using getenv_startup [of env k s v] assms by simp
qed

lemma settingsPath_process [simp]: "settingsPath (ApplyStartupSettingsEnv s env) = settingsPath env"
  by (simp add: settingsPath_def user_home_def Let_def)

lemma saved_settings_written:
  "saved_settings decode env (write_settings env b F) = decode b (defaultRuntimeSettings env)"
  by (simp add: saved_settings_def write_settings_def openSettingsStore_def)

lemma saved_settings_same: "F' (settingsPath env) = F (settingsPath env) \<Longrightarrow>
    saved_settings decode env F' = saved_settings decode env F"
  by (simp add: saved_settings_def)

section \<open>Files in one directory\<close>

lemma str_join_snoc: "str_join d (xs @ [t]) = (if xs = [] then t else str_join d xs @ d @ t)"
  by (induction d xs rule: str_join.induct) simp_all

text \<open>A name that stands for itself at the end of a path.\<close>

definition plain_name :: "string \<Rightarrow> bool" where
  "plain_name t \<longleftrightarrow> t \<notin> {[], ''.'', ''..''} \<and> CHR ''/'' \<notin> set t"

lemma clean_ends: "plain_name t \<Longrightarrow> \<exists>q. clean_path (s @ CHR ''/'' # t) = q @ t"
proof -
  assume t: "plain_name t"
  have "foldl (clean_step r) [] (str_split (CHR ''/'') (s @ CHR ''/'' # t))
      = foldl (clean_step r) [] (str_split (CHR ''/'') s) @ [t]" for r
    using t by (simp add: plain_name_def str_split_app clean_step_def)
  then show ?thesis
    using t by (auto simp: clean_path_def Let_def str_join_snoc plain_name_def)
qed

lemma split_plain: "d \<notin> set t \<Longrightarrow> split_from d acc t = [rev acc @ t]"
  by (induction t arbitrary: acc) auto

lemma clean_plain: "plain_name t \<Longrightarrow> \<exists>q. clean_path t = q @ t"
  by (auto simp: clean_path_def Let_def str_split_def split_plain plain_name_def clean_step_def)

lemma join_ends: "plain_name t \<Longrightarrow> \<exists>q. join_path (ps @ [t]) = q @ t"
proof -
  assume t: "plain_name t"
  then have "t \<noteq> []" by (simp add: plain_name_def)
  then have "\<exists>es. dropWhile (\<lambda>e. e = []) (ps @ [t]) = es @ [t]" by (induction ps) auto
  then obtain es where es: "dropWhile (\<lambda>e. e = []) (ps @ [t]) = es @ [t]" ..
  then have j: "join_path (ps @ [t]) = clean_path (str_join ''/'' (es @ [t]))"
    by (simp add: join_path_def split: list.split)
  show ?thesis
    using clean_ends [OF t, of "str_join ''/'' es"] clean_plain [OF t] by (simp add: j str_join_snoc)
qed

lemma names_plain: "plain_name ''settings.json''" "plain_name ''admin-password''" "plain_name ''accounts.json''"
    "plain_name ''deployments.json''"
  by (simp_all add: plain_name_def)

lemma joins_apart:
  assumes "plain_name t" and "plain_name t'" and "\<And>q q'. q @ t \<noteq> q' @ t'"
  shows "join_path (ps @ [t]) \<noteq> join_path (ps' @ [t'])"
  using join_ends [OF assms(1), of ps] join_ends [OF assms(2), of ps'] assms(3) by metis

section \<open>Properties\<close>

text \<open>
  the files of a data directory are four different ones, wherever it is.
\<close>
theorem data_files_are_apart:
  assumes "trim_space (getenv env ''M365_DATA_DIR'') \<noteq> []"
  shows "distinct [settingsPath env, adminPasswordPath env, CachePath env, deployments_path env]"
proof -
  have d: "trim_space (getenv env ''M365_DATA_DIR'') \<noteq> []" "getenv env ''M365_DATA_DIR'' \<noteq> []"
    using assms by auto
  note apart = joins_apart [of _ _ "[_]" "[_]", simplified]
  show ?thesis
    using d by (simp add: settingsPath_def adminPasswordPath_def CachePath_def deployments_path_def Let_def
        apart names_plain)
qed


text \<open>
  where the accounts are kept after a start: a saved configuration path wins over a saved path of
  the token cache, which then has no effect.
\<close>
theorem accounts_path_after_start:
  assumes "getenv env ''M365_DATA_DIR'' = []" and "env ''M365_CONFIG'' = None" and "env ''M365_TOKEN_CACHE'' = None"
  shows "CachePath (ApplyStartupSettingsEnv s env) =
    (if trim_space (ConfigPath s) \<noteq> [] then ConfigPath s
     else if trim_space (TokenCachePath s) \<noteq> [] then TokenCachePath s
     else CachePath env)"
proof -
  have "getenv (ApplyStartupSettingsEnv s env) ''M365_CONFIG'' = (if trim_space (ConfigPath s) = [] then [] else ConfigPath s)"
    by (rule startup_lookup [of env "''M365_CONFIG''", OF assms(2)]) (simp add: startup_values_def)
  moreover have "getenv (ApplyStartupSettingsEnv s env) ''M365_TOKEN_CACHE''
      = (if trim_space (TokenCachePath s) = [] then [] else TokenCachePath s)"
    by (rule startup_lookup [of env "''M365_TOKEN_CACHE''", OF assms(3)]) (simp add: startup_values_def)
  moreover have "getenv env ''M365_CONFIG'' = []" "getenv env ''M365_TOKEN_CACHE'' = []"
    using assms(2,3) by (simp_all add: getenv_def)
  ultimately show ?thesis
    using assms(1) by (auto simp: CachePath_def user_home_def)
qed

definition at_home :: environment where
  "at_home = [''HOME'' \<mapsto> ''/h'']"

definition with_data :: environment where
  "with_data = [''M365_DATA_DIR'' \<mapsto> ''/data/'']"

definition path_only :: "string \<Rightarrow> runtimeSettings \<Rightarrow> runtimeSettings" where
  "path_only b v = v\<lparr>ConfigPath := b\<rparr>"

lemma home_paths: "adminPasswordPath (process_env path_only at_home Map.empty) = ''/h/.config/m365-native/admin-password''"
  by code_simp

theorem data_files_are_apart_witness:
  "settingsPath with_data = ''/data/settings.json''
    \<and> distinct [settingsPath with_data, adminPasswordPath with_data, CachePath with_data, deployments_path with_data]"
proof
  show "settingsPath with_data = ''/data/settings.json''" by code_simp
  have "trim_space (getenv with_data ''M365_DATA_DIR'') \<noteq> []" by code_simp
  then show "distinct [settingsPath with_data, adminPasswordPath with_data, CachePath with_data, deployments_path with_data]"
    by (rule data_files_are_apart)
qed


theorem accounts_path_after_start_witness:
  "CachePath (ApplyStartupSettingsEnv ((defaultRuntimeSettings at_home)\<lparr>ConfigPath := ''/c'', TokenCachePath := ''/t''\<rparr>) at_home)
     = ''/c''"
proof -
  have "trim_space ''/c'' \<noteq> []" by code_simp
  moreover have "getenv at_home ''M365_DATA_DIR'' = []" "at_home ''M365_CONFIG'' = None" "at_home ''M365_TOKEN_CACHE'' = None"
    by (simp_all add: at_home_def getenv_def)
  ultimately show ?thesis using accounts_path_after_start [of at_home] by simp
qed

end
