(* ===== verification/SettingsPages.thy ===== *)
theory SettingsPages
  imports Settings Console
begin

text \<open>
  The two console pages as the console sees them: \<open>adminSettings\<close> (src/internal/web/settings.go) and
  \<open>proxyPool\<close> (proxy_pool.go) with their methods and answers, over the operations of Settings.

  \<open>time_json\<close> is the form of an instant; \<open>settings_text\<close>, \<open>proxy_text\<close> are the texts of errors;
  \<open>no_mappings\<close> is how an empty list of mappings is written, \<open>[]\<close> or \<open>null\<close> by how it came about.
\<close>

section \<open>Settings\<close>

definition mapping_json :: "modelMapping \<Rightarrow> json" where
  "mapping_json m = JObj
     [(''publicModel'', JStr (mm_PublicModel m)), (''upstreamTone'', JStr (mm_UpstreamTone m)),
      (''displayName'', JStr (mm_DisplayName m)), (''defaultReasoningLevel'', JStr (mm_DefaultReasoningLevel m))]"

definition settings_json :: "json \<Rightarrow> runtimeSettings \<Rightarrow> json" where
  "settings_json no_mappings v = JObj (
     [(''maxToolCallsPerTurn'', jint (MaxToolCallsPerTurn v)), (''maxToolRounds'', jint (MaxToolRounds v)),
      (''contextWindow'', jint (ContextWindow v)), (''maxOutputTokens'', jint (MaxOutputTokens v)),
      (''chatTimeoutSeconds'', jint (ChatTimeoutSeconds v)), (''imageTimeoutSeconds'', jint (ImageTimeoutSeconds v)),
      (''logLevel'', JStr (LogLevel v)), (''debugLogPath'', JStr (DebugLogPath v)),
      (''listenAddress'', JStr (ListenAddress v)), (''configPath'', JStr (ConfigPath v)),
      (''tokenCachePath'', JStr (TokenCachePath v)), (''sessionCachePath'', JStr (SessionCachePath v)),
      (''outboundProxy'', JStr (OutboundProxy v))]
     @ (if ProxyPool v = [] then [] else [(''proxyPool'', JArr (map JStr (ProxyPool v)))])
     @ [(''clientId'', JStr (ClientID v)), (''authority'', JStr (Authority v)),
        (''redirectUri'', JStr (RedirectURI v)), (''scope'', JStr (set_Scope v)),
        (''modelMappings'', if ModelMappings v = [] then no_mappings else JArr (map mapping_json (ModelMappings v))),
        (''toolPlanningMode'', JStr (ToolPlanningMode v))])"

definition configurableCodexModels :: "string list" where
  "configurableCodexModels = [''gpt-5.2'', ''gpt-5.4'', ''gpt-5.4-mini'', ''gpt-5.5'', ''gpt-5.6-sol'',
     ''gpt-5.6-terra'', ''gpt-5.6-luna'', ''codex-auto-review'']"

definition settings_view :: "json \<Rightarrow> runtimeSettings \<Rightarrow> json" where
  "settings_view no_mappings v = JObj
     [(''settings'', settings_json no_mappings v),
      (''codexModels'', JArr (map JStr configurableCodexModels)),
      (''upstreamTones'', JArr (map JStr knownUpstreamTones)),
      (''restartRequiredFields'', JArr (map JStr [''listenAddress'', ''configPath'', ''tokenCachePath'',
         ''sessionCachePath'', ''outboundProxy'', ''proxyPool'', ''clientId'', ''authority'', ''redirectUri'',
         ''scope'', ''debugLogPath'']))]"

definition invalid_request :: "string \<Rightarrow> console_reply" where
  "invalid_request t = Typed_error 400 ''invalid_request_error'' t"

definition adminSettings ::
    "json \<Rightarrow> (save_error \<Rightarrow> string) \<Rightarrow> (proxy_error \<Rightarrow> string) \<Rightarrow> netlib \<Rightarrow> string \<Rightarrow> runtimeSettings option
      \<Rightarrow> settings_save \<Rightarrow> settings_page \<Rightarrow> console_reply \<times> settings_page" where
  "adminSettings no_mappings settings_text proxy_text N http_method body out st =
     (if http_method = ''GET'' then (Json (settings_view no_mappings (set_v (sp_settings st))), st)
      else if http_method = ''PUT'' then
        (case put_settings N body out st of (reply, st1) \<Rightarrow>
          (case reply of
             BadJSON \<Rightarrow> (invalid_request ''bad json'', st1)
           | Refused _ e \<Rightarrow> (invalid_request (settings_text e), st1)
           | PoolRefused _ e \<Rightarrow> (invalid_request (proxy_text e), st1)
           | Done \<Rightarrow> (Json (JObj [(''ok'', JBool True),
               (''settings'', settings_json no_mappings (case body of Some v \<Rightarrow> v | None \<Rightarrow> set_v (sp_settings st1)))]), st1)))
      else (Typed_error 405 ''invalid_request_error'' ''method not allowed'', st))"

section \<open>The proxies\<close>

text \<open>\<open>latency.Milliseconds()\<close> of a latency that is not negative\<close>

definition milliseconds :: "duration \<Rightarrow> int" where
  "milliseconds d = d div 1000000"

definition entry_json :: "(instant \<Rightarrow> json) \<Rightarrow> poolEntry \<Rightarrow> json" where
  "entry_json time_json e = JObj
     [(''url'', JStr (raw e)), (''failures'', jint (failures e)), (''cooldownUntil'', time_json (cooldown e)),
      (''lastCheck'', time_json (lastCheck e)), (''latencyMs'', jint (milliseconds (latency e))),
      (''lastError'', JStr (lastError e)), (''health'', JStr (health e))]"

definition ProxyPoolStatus :: "(instant \<Rightarrow> json) \<Rightarrow> outbound \<Rightarrow> json" where
  "ProxyPoolStatus time_json st = (case ob_pool st of
      None \<Rightarrow> JArr []
    | Some p \<Rightarrow> JArr (map (entry_json time_json) (entries p)))"

definition storage_reply :: "(save_error \<Rightarrow> string) \<Rightarrow> (proxy_error \<Rightarrow> string) \<Rightarrow> json \<Rightarrow> page_reply \<Rightarrow> console_reply" where
  "storage_reply settings_text proxy_text answer reply = (case reply of
      BadJSON \<Rightarrow> invalid_request ''bad json''
    | PoolRefused _ e \<Rightarrow> invalid_request (proxy_text e)
    | Refused _ e \<Rightarrow> Typed_error 500 ''storage_error'' (settings_text e)
    | Done \<Rightarrow> Json answer)"

text \<open>\<open>body\<close> is the decoded body of \<open>POST\<close>, \<open>action\<close> and \<open>query_url\<close> are the query of the request.\<close>

definition proxyPool ::
    "(instant \<Rightarrow> json) \<Rightarrow> (save_error \<Rightarrow> string) \<Rightarrow> (proxy_error \<Rightarrow> string) \<Rightarrow> netlib
      \<Rightarrow> (string \<Rightarrow> probe \<times> duration \<times> instant) \<Rightarrow> (nat \<Rightarrow> settings_save) \<Rightarrow> string \<Rightarrow> string \<Rightarrow> string
      \<Rightarrow> (string \<times> string list) option \<Rightarrow> settings_page \<Rightarrow> console_reply \<times> settings_page" where
  "proxyPool time_json settings_text proxy_text N world outs http_method action query_url body st =
     (if http_method = ''PUT'' \<and> action = ''check'' then
        (case check_proxies world st of (_, st1) \<Rightarrow>
          (Json (JObj [(''ok'', JBool True), (''proxies'', ProxyPoolStatus time_json (sp_outbound st1))]), st1))
      else if http_method = ''GET'' then
        (Json (JObj [(''proxies'', ProxyPoolStatus time_json (sp_outbound st))]), st)
      else if http_method = ''POST'' then
        (case post_proxies N outs body st of ((reply, added), st1) \<Rightarrow>
          (storage_reply settings_text proxy_text (JObj [(''ok'', JBool True), (''added'', jint (int added)),
             (''proxies'', ProxyPoolStatus time_json (sp_outbound st1))]) reply, st1))
      else if http_method = ''DELETE'' then
        (case delete_proxy N (outs 0) query_url st of (reply, st1) \<Rightarrow>
          (storage_reply settings_text proxy_text (JObj [(''ok'', JBool True),
             (''proxies'', ProxyPoolStatus time_json (sp_outbound st1))]) reply, st1))
      else (Typed_error 405 ''invalid_request_error'' ''method not allowed'', st))"

section \<open>Properties\<close>

text \<open>The URLs in a list of proxies.\<close>

definition shown_urls :: "json \<Rightarrow> string list" where
  "shown_urls j = (case j of JArr js \<Rightarrow>
      map (\<lambda>e. case e of JObj o1 \<Rightarrow> (case map_of o1 ''url'' of Some (JStr u) \<Rightarrow> u | _ \<Rightarrow> []) | _ \<Rightarrow> []) js
    | _ \<Rightarrow> [])"

lemma shown_urls_status: "shown_urls (ProxyPoolStatus time_json st) = pool_urls st"
  by (cases "ob_pool st") (simp_all add: shown_urls_def ProxyPoolStatus_def pool_urls_def entry_json_def comp_def)

text \<open>
  the settings page shows what was stored last: an answer of success to \<open>PUT\<close> repeats the settings of
  the request and the next \<open>GET\<close> shows them; any answer to a body that does not validate leaves what
  \<open>GET\<close> shows as it was.
\<close>
theorem settings_page_shows_what_is_stored:
  assumes "adminSettings nm st_text px_text N ''PUT'' (Some v) out st = (reply, st1)"
  shows "(\<forall>j. reply = Json j \<longrightarrow>
        j = JObj [(''ok'', JBool True), (''settings'', settings_json nm v)]
        \<and> fst (adminSettings nm st_text px_text N ''GET'' b out' st1) = Json (settings_view nm v))
    \<and> (validateSettings N v \<noteq> Inr () \<longrightarrow>
        fst (adminSettings nm st_text px_text N ''GET'' b out' st1) = fst (adminSettings nm st_text px_text N ''GET'' b out' st))"
proof -
  obtain r where p: "put_settings N (Some v) out st = (r, st1)"
    using assms by (auto simp: adminSettings_def split: prod.splits page_reply.splits)
  have "r = Done \<Longrightarrow> set_v (sp_settings st1) = v" using p by (auto elim: put_settings_done)
  moreover have "validateSettings N v \<noteq> Inr () \<Longrightarrow> st1 = st \<and> r \<noteq> Done" 
    using p by (auto simp: put_settings_def save_settings_def split: sum.splits)
  ultimately show ?thesis
    using assms p by (auto simp: adminSettings_def invalid_request_def split: page_reply.splits)
qed

text \<open>
  each success of the proxy page lists the proxies of the setting: what the answer shows is what the
  next start will find, when pool and setting were in step before.
\<close>
theorem proxy_page_shows_the_saved_pool:
  assumes "proxyPool tj st_text px_text N world outs http_method action u body st = (Json (JObj o1), st1)"
    and "outbound_ok N (sp_outbound st)"
    and "pool_urls (sp_outbound st) = first_occurrences [] (ProxyPool (set_v (sp_settings st)))"
  shows "\<exists>ps. map_of o1 ''proxies'' = Some ps
    \<and> shown_urls ps = first_occurrences [] (ProxyPool (set_v (sp_settings st1)))"
proof -
  have ok: "page_ok N st" using assms(2,3) by (simp add: page_ok_def in_step_def)
  have shown: "page_ok N st' \<Longrightarrow> shown_urls (ProxyPoolStatus tj (sp_outbound st')) =
      first_occurrences [] (ProxyPool (set_v (sp_settings st')))" for st'
    by (simp add: shown_urls_status page_ok_def in_step_def)
  have post: "post_proxies N outs body st = ((Done, n), st') \<Longrightarrow> page_ok N st'" for n st'
    using serve_page_ok [of N "PostProxies outs body" st st'] ok by simp
  have del: "delete_proxy N (outs 0) u st = (Done, st') \<Longrightarrow> page_ok N st'" for st'
    using serve_page_ok [of N "DeleteProxy (outs 0) u" st st'] ok by simp
  have chk: "check_proxies world st = (r, st') \<Longrightarrow> page_ok N st'" for r st'
    using serve_page_ok [of N "CheckProxies world" st st'] ok by (auto simp: check_proxies_def split: option.splits)
  show ?thesis
    using assms(1) ok
    by (auto simp: proxyPool_def storage_reply_def invalid_request_def shown post del chk
        split: if_splits prod.splits page_reply.splits)
qed

end
