(* ===== verification/Planning.thy ===== *)
theory Planning
  imports ChatReplies SettingsPages
begin

text \<open>
  The settings page and the chat handler together: which setting of \<open>toolPlanningMode\<close>
  (src/internal/web/tool_planning.go, settings.go) the handler (server.go) finds after the settings
  were saved on the console.

  The form of the console (\<open>saveSettings\<close>, src/web/index.html) sends every setting but the planning
  mode, and \<open>adminSettings\<close> decodes the body over a fresh record: what is stored then has an empty
  planning mode, which validation lets through.
\<close>

text \<open>Without a planning mode the JSON path is one turn, and that turn knows no tools.\<close>

lemma unplanned_json_turn:
  assumes "json_path G w p s = (r, s1)"
    and "ToolPlanningMode (gw_settings G) \<noteq> ''router''" and "ToolPlanningMode (gw_settings G) \<noteq> ''native''"
  shows "sv_turns s1 = sv_turns s @ [(p_account p, answer_request G p)]"
proof -
  have j: "json_router G w p s = (None, s)" using assms(2) by (simp add: json_router_def)
  then have ja: "json_answer G w p s = (r, s1)" using assms(1) by (simp add: json_path_def)
  have n: "native_recovery G w p m t = (None, t)" for m t using assms(3) by (simp add: native_recovery_def)
  have c: "sv_turns t = sv_turns s @ [(p_account p, answer_request G p)]"
    if "Chat w (p_account p) (answer_request G p) s = (a, t)" for a t
    using that Chat_fields(2) [of w "p_account p" "answer_request G p" s] by simp
  from ja show ?thesis by (cases rule: json_answer_cases) (auto simp: n c)
qed

text \<open>
  C30: saving the settings on the console switches the planning of tools off: the form does not send the
  planning mode, success stores it empty, and the handler, which knows a router and a native mode,
  then makes one turn for each request, without a router before it or a recovery after it; on the
  JSON path neither the tools nor the tool choice of the request reach the model.
\<close>
theorem saved_form_switches_planning_off:
  assumes "adminSettings nm st_text px_text N ''PUT'' (Some v) out page = (Json j, page1)"
    and "ToolPlanningMode v = []" and "gw_settings G = set_v (sp_settings page1)"
    and "openaiChat G w http_method input s = (reply, s1)"
  shows "\<exists>ts. sv_turns s1 = sv_turns s @ ts \<and> length ts \<le> 1
    \<and> (\<forall>b. input = Body b \<and> \<not> oq_Stream b \<longrightarrow>
          list_all (\<lambda>t. cr_Tools (snd t) = [] \<and> cr_ToolChoice (snd t) = JNull) ts)"
proof -
  obtain r where p: "put_settings N (Some v) out page = (r, page1)" and r: "r = Done"
    using assms(1) by (auto simp: adminSettings_def invalid_request_def split: prod.splits page_reply.splits)
  have "set_v (sp_settings page1) = v" using p r by (auto elim: put_settings_done)
  then have mode: "ToolPlanningMode (gw_settings G) \<noteq> ''router''" "ToolPlanningMode (gw_settings G) \<noteq> ''native''"
    using assms(2,3) by simp_all
  from assms(4) show ?thesis
  proof (cases rule: handler_cases)
    case (refused e)
    then show ?thesis using prepare_refused_turns by (intro exI [of _ "[]"]) simp
  next
    case (streaming p t)
    from streaming(1) obtain b where b: "input = Body b" "oq_Stream b" "sv_turns t = sv_turns s"
      using streaming(2) by (auto elim!: prepare_ok)
    have "stream_answer G w p t = (reply, s1)" using streaming(3) mode by (simp add: stream_path_def)
    from stream_answer_turns [OF this] show ?thesis using b by (auto simp: turns_by_def)
  next
    case (plain p t)
    from plain(1) have t: "sv_turns t = sv_turns s" by (auto elim!: prepare_ok)
    have "cr_Tools (answer_request G p) = [] \<and> cr_ToolChoice (answer_request G p) = JNull"
      using mode by (simp add: answer_request_def Let_def)
    with unplanned_json_turn [OF plain(3) mode] t show ?thesis by simp
  qed
qed

definition form_settings :: runtimeSettings where
  "form_settings = sample\<lparr>ToolPlanningMode := []\<rparr>"

lemma form_ok: "settings_ok http_only form_settings"
proof -
  have "validateSettings http_only form_settings = Inr ()" by code_simp
  then show ?thesis by (simp add: validateSettings_ok)
qed

lemma form_saved:
  obtains page1 where "adminSettings JNull (\<lambda>_. []) (\<lambda>_. []) http_only ''PUT'' (Some form_settings) Saved fresh_page
      = (Json (JObj [(''ok'', JBool True), (''settings'', settings_json JNull form_settings)]), page1)"
    "gw_settings (demo []) = set_v (sp_settings page1)"
proof -
  have "ProxyPool form_settings = []" by (simp add: form_settings_def sample_def defaultRuntimeSettings_def)
  then obtain page1 where p: "put_settings http_only (Some form_settings) Saved fresh_page = (Done, page1)"
    by (simp add: put_settings_def save_settings_succeeds form_ok ConfigurePool_def NewPool_def)
  then have "set_v (sp_settings page1) = form_settings" by (auto elim: put_settings_done)
  then show ?thesis using p by (intro that [of page1]) (simp_all add: adminSettings_def demo_def form_settings_def)
qed

lemma unplanned_run:
  "fst (run [] [''fine''] (ask False (JStr ''required'') hello)) = TextReply ''m365-copilot'' (demo_result ''fine'') (JStr ''fine'')"
  by code_simp

text \<open>A request that insists on a call of its tool is answered with text.\<close>

theorem saved_form_switches_planning_off_witness:
  "fst (run [] [''fine''] (ask False (JStr ''required'') hello)) = TextReply ''m365-copilot'' (demo_result ''fine'') (JStr ''fine'')
    \<and> length (sv_turns (snd (run [] [''fine''] (ask False (JStr ''required'') hello)))) \<le> 1
    \<and> list_all (\<lambda>t. cr_Tools (snd t) = []) (sv_turns (snd (run [] [''fine''] (ask False (JStr ''required'') hello))))"
proof -
  obtain page1 where f: "adminSettings JNull (\<lambda>_. []) (\<lambda>_. []) http_only ''PUT'' (Some form_settings) Saved fresh_page
      = (Json (JObj [(''ok'', JBool True), (''settings'', settings_json JNull form_settings)]), page1)"
    "gw_settings (demo []) = set_v (sp_settings page1)" by (rule form_saved)
  have "ToolPlanningMode form_settings = []" by (simp add: form_settings_def)
  from saved_form_switches_planning_off [OF f(1) this f(2) run_eq [of "[]" "[''fine'']" "ask False (JStr ''required'') hello"]]
  show ?thesis by (auto simp: unplanned_run list_all_iff)
qed

end
