(* ===== verification/Spec2Isabelle.thy ===== *)
theory Spec2Isabelle
  imports ProtocolHandlers ChatLink McpClient Deployments DebugLog Console PlainAnswers AuthEndpoints ProxyDial
    LivePools Startup SettingsPages Planning
begin

text \<open>
  A verification development for the Go program in src/: an HTTP gateway that offers the OpenAI
  chat API and answers it with turns of Microsoft 365's ChatHub, a SignalR service behind a
  WebSocket.  The gateway keeps accounts with OAuth tokens, issues API keys of its own, has a
  password-protected console, and sends its traffic through a pool of outbound proxies.  ChatHub
  has no tool calls, so the gateway asks the model for them in text, finds them in the answer,
  checks them and limits them; what a conversation has already done is reconstructed from its
  messages on every request.

  A request passes through the parts in this order: the middleware admits it; the tool-call
  protocol of its messages is validated; the ledger decides whether another round is allowed; the
  settings route its model to an upstream tone; an account with a live token is chosen; a ChatHub
  turn is run over the outbound proxies; tool calls are detected in the answer, filtered against
  the ledger, limited, and issued, or text is streamed.

  \<^bold>\<open>Theories.\<close>

  \<^item> Prelude: time, 64-bit wrap-around, lists.  GoStrings: the functions of Go's \<open>strings\<close> and
    \<open>strconv\<close> that the program calls, on byte strings.  GoRegex: unanchored regular expressions,
    an evaluator and the relation it decides.  GoJson: decoded JSON values, the libraries the model
    is parametric in, and the message types of server.go and chathub.
  \<^item> ToolState (web/tool_state.go): \<open>validateToolConversation\<close> step by step; it accepts exactly the
    balanced conversations, a property of the sequence of call ids alone.
  \<^item> AgentLedger (web/agent_ledger.go): the ledger of completed and pending calls, of repeated
    calls and failures, and the questions asked of it.  For a valid conversation every call is
    filed once, completed calls with their results.
  \<^item> JsonSchema (web/tooldecision.go): the validator of call arguments, equivalent to the inductive
    relation \<open>conforms\<close>, and independent of the order in which Go visits a map.
  \<^item> ToolDecision (web/toolloop.go, model_tool_router.go, fenced_tools.go, xml_tools.go,
    native_tools.go, and the limits of settings.go): the detectors.  The locale \<open>call_detector\<close> is
    their contract (calls are declared, allowed by the tool choice and valid for their schema); it is
    interpreted for the XML, the fenced and the router detector, and gives what the gateway issues.
  \<^item> ChatStream (chathub/client.go, stream_events.go, events.go, images.go): the read loop of a
    turn, from WebSocket messages to frames, events, streamed text and the result.
    ChatPayload (chathub/client.go, tool_protocol.go, tools.go): the rest of a turn, the payload with
    the prompt and the plugins of declared tools, the address, the upload of images, and
    \<open>chatWithHandlers\<close>, which sends them.  ChatLink puts it in the place of the parameter \<open>upstream\<close> of
    the handlers: what the client sees is the text of one completed turn.
  \<^item> StreamGate (the streaming path of \<open>openaiChat\<close> in web/server.go): which text is shown while the
    model still writes; the last runes are held back so that a fence is never shown.
  \<^item> Prompts (web/prompt.go, multimodal.go, json_format.go and the prompt texts of server.go,
    agent_ledger.go and model_tool_router.go): content and its attachments, the flattened prompt.
    Sessions (web/sessions.go, conversations.go): the upstream conversations by session key.
    ToolAnswer (web/tool_response.go, compat_metadata.go): the plan shown before calls, and calls as a
    JSON body or as an event stream, which carry the same calls.
  \<^item> ChatAccess (web/server.go, stream.go): the server's state, the account and the session of a
    turn, the turn itself, \<open>chatOnce\<close> and \<open>chatStream\<close>.  ChatHandler: the whole of \<open>openaiChat\<close>,
    from the request to the reply and what is written.  ChatExamples: runs of it on a small gateway.
    ChatTurns: the guards, and how many turns a request starts.  ChatReplies: which calls are issued,
    which text is shown, when the stream ends, what the session remembers.
  \<^item> TokenUsage (web/codex_usage.go): the estimate of token counts.  ProtocolRequests
    (web/protocol_compat.go, tool_progress.go): the Responses and the Messages protocol to chat
    completions.  ProtocolResponses (web/protocol_response.go, codex_responses.go,
    protocol_errors.go): the answers back; a call that is issued and replayed is the same call.
    ResponsesStream: the streaming adapter of web/protocol_handlers.go, line by line.
    ProtocolHandlers: the two handlers, and the store behind \<open>previous_response_id\<close>.
    JsonDecode: how \<open>json.Unmarshal\<close> fills fields.  PlainAnswers (web/stream.go, images.go,
    chathub/events.go): what \<open>chatOnce\<close>, \<open>chatStream\<close> and the image endpoint write.
  \<^item> McpClient (internal/mcp): requests, and the client, its goroutines and the server as one system
    of steps; with patient callers every request gets its own answer, after a timeout it may not.
  \<^item> Deployments (web/deployments.go): the list of relay workers with the arrays behind it, and the
    health check as two steps that other requests come between.
  \<^item> DebugLog (web/debug.go, http_trace.go, request_id.go): the wrappers around every handler, which
    the client does not see, and the ring of records.
  \<^item> Console (web/server.go, security_http.go, version.go): the routes, each with what it takes to reach
    it, and the pages over the stores.
  \<^item> GoUrl: escapes, queries and base64, with their inverses.  AuthEndpoints (auth/config.go, pkce.go,
    token.go, device.go): the forms and addresses of the sign-in; the proof key binds code and sign-in.
  \<^item> ProxyDial (outbound/proxy.go): the dialers behind https and socks5 proxies.
  \<^item> LivePools (chathub/client.go, outbound): the pools by address, and which of them the client and
    the dialer of the chat service belong to; the store implements the package state of OutboundPool.
  \<^item> Startup (the paths of all files, the start of cmd/server/main.go): what a start finds under the
    paths that environment and saved settings give.
  \<^item> SettingsPages (web/settings.go, proxy_pool.go): the methods and answers of the two pages.
    Planning: a save on the settings page, and what the chat handler makes of it.
  \<^item> OutboundPool (internal/outbound): proxy URLs, the pool with round-robin choice and back-off,
    health checks, the package's state, and the invariant of every reachable state.
  \<^item> Storage: the locales \<open>durable\<close> and \<open>write_through\<close>, a value in memory with a file behind it.
    ApiKeys (web/keys.go), AuthStore (auth/cache.go) and Settings (web/settings.go) interpret them,
    which gives what a restart reads back.
  \<^item> ApiKeys: creation, revocation and check of keys, a refinement of the list of active hashes.
  \<^item> AdminSecurity (web/admin_security.go, and login, sessions and middleware of web/server.go):
    the limiter, the password, sessions, and which requests are admitted; \<open>granted\<close> is the
    inductive account of when a session token is in force.
  \<^item> AuthTokens (auth/token.go, device.go) and AuthStore (auth/cache.go and the PKCE sign-in of
    web/server.go): token answers, the account store, \<open>EnsureValid\<close> in the two steps it takes around
    the network call, and the sign-in flow.
  \<^item> ModelCatalog (web/codex_catalog.go) and Settings (web/settings.go, proxy_pool.go,
    cmd/server/main.go): the catalog, the routing of models to tones, validation and storage of the
    settings, the settings and proxy pages over the state of OutboundPool, and the start of the
    process, which carries saved settings to the outbound package through the environment.

  \<^bold>\<open>How the code is represented.\<close>  A struct is a record with the names of its fields, prefixed
  where two structs share one.  A handler is a function from the request and the state to the reply
  and the new state; each of its early returns is a branch.  Steps that other requests can come
  between, because a lock is released there, are separate operations (\<open>login_check\<close> and
  \<open>login_finish\<close>, \<open>ensure_check\<close> and \<open>ensure_finish\<close>).  Errors are constructors of a datatype, one for
  each message; a sum has the error on the left.  Go maps are sets where only membership matters and
  association lists otherwise; a theorem over all association lists covers every iteration order.
  \<open>int\<close> fields are integers, with \<open>wrap64\<close> where an addition or multiplication could overflow.
  Instants and durations are nanoseconds.

  \<^bold>\<open>Parameters.\<close>  What is not in the repository is an argument: the JSON codec, formatting of
  composite values and SHA-256 (\<open>golib\<close>), \<open>url.Parse\<close> and the SOCKS5 constructor (\<open>netlib\<close>),
  \<open>net.ParseIP\<close> (\<open>iplib\<close>), JSON and base64 of token answers (\<open>tokenlib\<close>), clock readings, random
  bytes, the answers of network calls, the messages a WebSocket delivers, the environment, and the
  outcome of writing a file (\<open>save_outcome\<close>: saved, or failed with whatever is left in it).  For the
  chat handlers these are \<open>weblib\<close> (the codec, and the ledger as JSON), \<open>world\<close> (the clock, uuids, the result and the events of each upstream turn, by its position and its
  request), \<open>usagelib\<close> (the tokenizer), \<open>wirelib\<close> (what the inner request of an adapter decodes to, and
  the bytes of its refusals) and \<open>stream_ids\<close> (the ids of a stream).  For the ChatHub client they are
  \<open>rawlib\<close> (\<open>json.RawMessage\<close> and \<open>json.MarshalIndent\<close>), \<open>turn_ids\<close> (the ids it draws), \<open>link\<close> (the outcome of
  each network call of a turn, in their order) and \<open>hub\<close> (a link for every turn).  A dial over a proxy has
  its outcomes in \<open>dial_world\<close>, the sign-in service is \<open>network\<close>, the process environment a function,
  and so is the file system where a start reads it.  \<open>too_long\<close> tells which lines do not fit into the
  adapter's scanner.

  \<^bold>\<open>Termination and bounds.\<close>  Every definition is total and executable.  There is no fuel: loops
  recurse over their input.  \<open>read_loop\<close> runs over the list of what the connection delivers and
  returns \<open>None\<close> where the list ends before the turn does, that is, where the code would still wait.
  The white-space trimming, the splitting of text and the regular expressions recurse on the rest of
  the string.

  \<^bold>\<open>Not modelled.\<close>  The store of internal/config, which nothing uses, bytes of JSON texts where only
  their value matters, HTTP headers other than the ones named, and log output.  \<open>ToLower\<close> and
  \<open>EqualFold\<close> are exact for ASCII and for the letters outside ASCII that fold into it; the program
  compares their results with ASCII words only.  A handler's writes to a client that has gone away,
  and the cancellation of a turn by its time limit, are errors of the turn (\<open>upstream\<close>) or not seen
  at all.
\<close>

end
